(* ===== verification/Toshokan_Prelude.thy ===== *)
theory Toshokan_Prelude
  imports Main "HOL-Library.Word" "HOL-Library.Monad_Syntax"
begin

text \<open>
  Types and lemmas that every component shares: the machine integers of the C++ code, the byte
  memory of an address space, little-endian access to it, and the libc routines
  \<^verbatim>\<open>memcpy\<close> and \<^verbatim>\<open>memset\<close>.

  A memory is a partial map from 64-bit addresses to bytes. An address outside its domain is not
  mapped; touching it ends the program, which is the value \<open>None\<close> of the option monad.
\<close>

unbundle bit_operations_syntax

named_theorems mem_simps \<open>what a memory operation leaves in the cells of the memory\<close>
named_theorems mem_dom \<open>a memory operation maps and unmaps no address\<close>
named_theorems layout_simps \<open>the numeric constants of the memory layout\<close>

type_synonym u8 = "8 word"
type_synonym u16 = "16 word"
type_synonym u32 = "32 word"
type_synonym u64 = "64 word"
type_synonym addr = u64
type_synonym mem = "addr \<rightharpoonup> u8"

section \<open>Address ranges\<close>

text \<open>The addresses of an object of \<open>n\<close> bytes at \<open>a\<close>; the range may wrap around.\<close>

definition region :: "addr \<Rightarrow> nat \<Rightarrow> addr set" where
  "region a n = {x. unat (x - a) < n}"

lemma unat64_less: "unat a < 18446744073709551616" for a :: u64
proof -
  have "unat a < 2 ^ LENGTH(64)" by (rule unsigned_less)
  then show ?thesis by simp
qed

lemma in_region_iff: "x \<in> region a n \<longleftrightarrow> unat (x - a) < n"
  by (simp add: region_def)

lemma region_0 [simp]: "region a 0 = {}"
  by (simp add: region_def)

lemma region_mono: "n \<le> k \<Longrightarrow> region a n \<subseteq> region a k"
  by (auto simp: region_def)

lemma unat_diff_Suc: "x \<noteq> a \<Longrightarrow> unat (x - a) = Suc (unat (x - (a + 1)))"
  for x a :: addr
proof -
  assume "x \<noteq> a"
  then have nz: "x - a \<noteq> 0" by simp
  have "unat (x - (a + 1)) = unat (x - a - 1)" by (simp add: algebra_simps)
  also have "\<dots> = unat (x - a) - 1" using nz by (rule unat_minus_one)
  finally show ?thesis using nz by (simp add: unat_gt_0)
qed

lemma region_Suc: "region a (Suc n) = insert a (region (a + 1) n)"
proof (intro set_eqI)
  fix x
  show "x \<in> region a (Suc n) \<longleftrightarrow> x \<in> insert a (region (a + 1) n)"
    by (cases "x = a") (simp_all add: in_region_iff unat_diff_Suc)
qed

lemma not_in_region_succ: "n < 2 ^ 64 \<Longrightarrow> a \<notin> region (a + 1) n"
proof -
  have "unat (a - (a + 1)) = unat (- 1 :: addr)" by simp
  also have "\<dots> = 2 ^ 64 - 1" by (simp add: unsigned_minus_1_eq_mask mask_eq_exp_minus_1)
  finally show "n < 2 ^ 64 \<Longrightarrow> a \<notin> region (a + 1) n" by (simp add: in_region_iff)
qed

lemma region_offset: "k < n \<Longrightarrow> n \<le> 2 ^ 64 \<Longrightarrow> a + of_nat k \<in> region a n"
  by (simp add: in_region_iff unat_of_nat take_bit_nat_eq_self)

text \<open>A range that does not wrap around is an interval of addresses.\<close>

lemma region_interval:
  assumes "unat a + n \<le> 2 ^ 64"
  shows "x \<in> region a n \<longleftrightarrow> unat a \<le> unat x \<and> unat x < unat a + n"
proof (cases "a \<le> x")
  case True
  then have "unat (x - a) = unat x - unat a" by (rule unat_sub)
  moreover from True have "unat a \<le> unat x" by (simp add: word_le_nat_alt)
  ultimately show ?thesis by (auto simp: in_region_iff)
next
  case False
  then have lt: "unat x < unat a" by (simp add: word_le_nat_alt)
  then have "unat (x - a) = unat x + 2 ^ 64 - unat a"
    by (simp add: unat_sub_if' word_le_nat_alt)
  with lt assms show ?thesis by (auto simp: in_region_iff)
qed

lemma region_disjoint:
  assumes "unat a + n \<le> unat b" "unat b + k \<le> 2 ^ 64"
  shows "region a n \<inter> region b k = {}"
  using assms by (auto simp: region_interval)

lemma region_subset:
  assumes "unat b \<le> unat a" "unat a + n \<le> unat b + k" "unat b + k \<le> 2 ^ 64"
  shows "region a n \<subseteq> region b k"
  using assms by (auto simp: region_interval)

lemma region_shift:
  assumes "unat k + n \<le> l"
  shows "region (a + k) n \<subseteq> region a l"
proof
  fix x
  assume "x \<in> region (a + k) n"
  then have lt: "unat (x - (a + k)) < n" by (simp add: in_region_iff)
  have "x - a = (x - (a + k)) + k" by simp
  then have "unat (x - a) \<le> unat (x - (a + k)) + unat k"
    by (metis unat_word_ariths(1) mod_less_eq_dividend)
  with lt assms show "x \<in> region a l" by (simp add: in_region_iff)
qed

section \<open>Loads and stores\<close>

text \<open>A store of one byte; a store to an address that is not mapped faults.\<close>

definition store8 :: "mem \<Rightarrow> addr \<Rightarrow> u8 \<Rightarrow> mem option" where
  "store8 m a b = (case m a of None \<Rightarrow> None | Some _ \<Rightarrow> Some (m(a \<mapsto> b)))"

text \<open>An \<open>n\<close>-byte little-endian load and store, at the byte order of x86-64.\<close>

primrec read_le :: "nat \<Rightarrow> mem \<Rightarrow> addr \<Rightarrow> u64 option" where
  "read_le 0 m a = Some 0"
| "read_le (Suc n) m a =
     do { b \<leftarrow> m a; w \<leftarrow> read_le n m (a + 1); Some (ucast b OR push_bit 8 w) }"

primrec write_le :: "nat \<Rightarrow> mem \<Rightarrow> addr \<Rightarrow> u64 \<Rightarrow> mem option" where
  "write_le 0 m a v = Some m"
| "write_le (Suc n) m a v =
     do { m' \<leftarrow> store8 m a (ucast v); write_le n m' (a + 1) (drop_bit 8 v) }"

lemma read_le_numeral:
  "read_le (numeral k) m a =
     do { b \<leftarrow> m a; w \<leftarrow> read_le (pred_numeral k) m (a + 1); Some (ucast b OR push_bit 8 w) }"
  by (simp add: numeral_eq_Suc)

abbreviation read16 :: "mem \<Rightarrow> addr \<Rightarrow> u64 option" where "read16 \<equiv> read_le 2"
abbreviation read32 :: "mem \<Rightarrow> addr \<Rightarrow> u64 option" where "read32 \<equiv> read_le 4"
abbreviation read64 :: "mem \<Rightarrow> addr \<Rightarrow> u64 option" where "read64 \<equiv> read_le 8"
abbreviation write64 :: "mem \<Rightarrow> addr \<Rightarrow> u64 \<Rightarrow> mem option" where "write64 \<equiv> write_le 8"

lemma store8_Some: "store8 m a b = Some m' \<longleftrightarrow> a \<in> dom m \<and> m' = m(a \<mapsto> b)"
  by (auto simp: store8_def split: option.splits)

lemma write_le_Suc:
  "write_le (Suc n) m a v = Some m' \<longleftrightarrow>
     a \<in> dom m \<and> write_le n (m(a \<mapsto> ucast v)) (a + 1) (drop_bit 8 v) = Some m'"
  by (simp add: store8_Some bind_eq_Some_conv)

lemma dom_store: "a \<in> dom m \<Longrightarrow> dom (m(a \<mapsto> b)) = dom m"
  by (simp add: insert_absorb)

lemma write_le_dom [mem_dom]: "write_le n m a v = Some m' \<Longrightarrow> dom m' = dom m"
proof (induction n arbitrary: m a v)
  case (Suc n)
  then have a: "a \<in> dom m" and w: "write_le n (m(a \<mapsto> ucast v)) (a + 1) (drop_bit 8 v) = Some m'"
    by (simp_all only: write_le_Suc)
  from Suc.IH [OF w] a show ?case by (simp only: dom_store)
qed simp

lemma write_le_frame [mem_simps]:
  "write_le n m a v = Some m' \<Longrightarrow> x \<notin> region a n \<Longrightarrow> m' x = m x"
proof (induction n arbitrary: m a v)
  case 0
  then show ?case by simp
next
  case (Suc n)
  from Suc.prems(1) obtain m1 where m1: "store8 m a (ucast v) = Some m1"
    and w: "write_le n m1 (a + 1) (drop_bit 8 v) = Some m'"
    by (auto simp: bind_eq_Some_conv)
  from Suc.prems(2) have x: "x \<noteq> a" "x \<notin> region (a + 1) n" by (auto simp: region_Suc)
  from w x(2) have "m' x = m1 x" by (rule Suc.IH)
  with m1 x(1) show ?case by (simp add: store8_Some)
qed

lemma write_le_defined: "region a n \<subseteq> dom m \<Longrightarrow> \<exists>m'. write_le n m a v = Some m'"
proof (induction n arbitrary: m a v)
  case 0
  then show ?case by simp
next
  case (Suc n)
  then have a: "a \<in> dom m" and r: "region (a + 1) n \<subseteq> dom (m(a \<mapsto> ucast v))"
    by (auto simp: region_Suc)
  from a have "store8 m a (ucast v) = Some (m(a \<mapsto> ucast v))" by (simp add: store8_Some)
  moreover from r obtain m' where "write_le n (m(a \<mapsto> ucast v)) (a + 1) (drop_bit 8 v) = Some m'"
    using Suc.IH by blast
  ultimately show ?case by simp
qed

lemma read_le_cong:
  "(\<And>x. x \<in> region a n \<Longrightarrow> m x = m' x) \<Longrightarrow> read_le n m a = read_le n m' a"
proof (induction n arbitrary: a)
  case 0
  then show ?case by simp
next
  case (Suc n)
  have "m a = m' a" by (rule Suc.prems) (simp add: region_Suc)
  moreover have "read_le n m (a + 1) = read_le n m' (a + 1)"
    by (rule Suc.IH) (rule Suc.prems, simp add: region_Suc)
  ultimately show ?case by simp
qed

lemma read_le_shift:
  "(\<And>x. x \<in> region a n \<Longrightarrow> m x = m' (x + d)) \<Longrightarrow> read_le n m a = read_le n m' (a + d)"
proof (induction n arbitrary: a)
  case 0
  then show ?case by simp
next
  case (Suc n)
  have "read_le n m (a + 1) = read_le n m' (a + 1 + d)"
    by (rule Suc.IH) (use Suc.prems in \<open>auto simp: region_Suc\<close>)
  moreover have "m a = m' (a + d)" using Suc.prems by (simp add: region_Suc)
  moreover have "a + d + 1 = a + 1 + d" by (simp add: ac_simps)
  ultimately show ?case by (simp only: read_le.simps)
qed

lemma read_le_defined: "region a n \<subseteq> dom m \<Longrightarrow> \<exists>w. read_le n m a = Some w"
proof (induction n arbitrary: a)
  case 0
  then show ?case by simp
next
  case (Suc n)
  then obtain w where "read_le n m (a + 1) = Some w" by (auto simp: region_Suc)
  moreover from Suc.prems obtain b where "m a = Some b" by (auto simp: region_Suc)
  ultimately show ?case by simp
qed

lemma read_le_write_le_disjoint:
  "write_le k m b v = Some m' \<Longrightarrow> region a n \<inter> region b k = {} \<Longrightarrow> read_le n m' a = read_le n m a"
  by (rule read_le_cong) (auto intro: write_le_frame)

lemma byte_split: "ucast (ucast v :: u8) OR push_bit 8 (take_bit n (drop_bit 8 v)) = take_bit (n + 8) v"
  for v :: u64
  by (rule bit_eqI) (auto simp: bit_simps)

lemma read_le_write_le_same:
  "n \<le> 8 \<Longrightarrow> write_le n m a v = Some m' \<Longrightarrow> read_le n m' a = Some (take_bit (8 * n) v)"
proof (induction n arbitrary: m a v)
  case 0
  then show ?case by simp
next
  case (Suc n)
  from Suc.prems(2) obtain m1 where m1: "store8 m a (ucast v) = Some m1"
    and w: "write_le n m1 (a + 1) (drop_bit 8 v) = Some m'"
    by (auto simp: bind_eq_Some_conv)
  have "a \<notin> region (a + 1) n" using Suc.prems(1) by (intro not_in_region_succ) simp
  with w have "m' a = m1 a" by (rule write_le_frame)
  with m1 have "m' a = Some (ucast v)" by (simp add: store8_Some)
  moreover have "read_le n m' (a + 1) = Some (take_bit (8 * n) (drop_bit 8 v))"
    using Suc.prems(1) w by (intro Suc.IH) auto
  ultimately show ?case by (simp add: byte_split add.commute)
qed

lemma read64_write64_same: "write64 m a v = Some m' \<Longrightarrow> read64 m' a = Some v"
  using read_le_write_le_same [of 8 m a v m'] by (simp add: take_bit_word_eq_self)

lemma unat_less_iff_take_bit: "unat w < 2 ^ k \<longleftrightarrow> take_bit k w = w" for w :: "'a::len word"
proof -
  have "unat w < 2 ^ k \<longleftrightarrow> take_bit k (unat w) = unat w" by (simp add: take_bit_nat_eq_self_iff)
  also have "\<dots> \<longleftrightarrow> unat (take_bit k w) = unat w" by (simp add: unsigned_take_bit_eq)
  also have "\<dots> \<longleftrightarrow> take_bit k w = w" by (simp add: word_unat_eq_iff)
  finally show ?thesis .
qed

lemma read_le_bound: "n \<le> 7 \<Longrightarrow> read_le n m a = Some w \<Longrightarrow> unat w < 2 ^ (8 * n)"
proof (induction n arbitrary: a w)
  case 0
  then show ?case by simp
next
  case (Suc n)
  from Suc.prems(2) obtain b v where "m a = Some b" and v: "read_le n m (a + 1) = Some v"
    and w: "w = ucast b OR push_bit 8 v"
    by (auto simp: bind_eq_Some_conv)
  have "unat v < 2 ^ (8 * n)" using Suc.prems(1) v by (intro Suc.IH) auto
  then have "take_bit (8 * n) v = v" by (simp only: unat_less_iff_take_bit)
  then have v': "bit v k \<Longrightarrow> k < 8 * n" for k by (metis bit_take_bit_iff)
  have b': "bit b k \<Longrightarrow> k < 8" for k using bit_imp_le_length [of b k] by simp
  have "take_bit (8 * Suc n) w = w"
    unfolding w by (rule bit_eqI) (auto simp: bit_simps dest: v' b')
  then show ?case by (simp only: unat_less_iff_take_bit)
qed

lemma eq_0_unat: "w = 0 \<longleftrightarrow> unat w = 0" for w :: "'a::len word"
  by (simp add: unsigned_eq_0_iff)

lemma unat_take_bit: "unat (take_bit n w) = unat w mod 2 ^ n" for w :: "'a::len word"
  by (simp only: unsigned_take_bit_eq take_bit_nat_def)

lemma unat_drop_bit: "unat (drop_bit n w) = unat w div 2 ^ n" for w :: "'a::len word"
proof -
  have "unat (drop_bit n w) = drop_bit n (take_bit LENGTH('a) (unat w))"
    by (simp only: unsigned_drop_bit_eq)
  also have "take_bit LENGTH('a) (unat w) = unat w"
    by (simp only: unsigned_take_bit_eq [symmetric] take_bit_length_eq)
  finally show ?thesis by (simp only: drop_bit_nat_def)
qed

lemma take_bit_less: "w < 2 ^ k \<Longrightarrow> k < LENGTH('a) \<Longrightarrow> take_bit k w = w" for w :: "'a::len word"
proof -
  assume w: "w < 2 ^ k" and k: "k < LENGTH('a)"
  have "unat ((2::'a word) ^ k) = unat (of_nat (2 ^ k) :: 'a word)" by simp
  also have "\<dots> = 2 ^ k" using k by (simp only: unat_of_nat) (simp add: take_bit_nat_eq_self)
  finally have "unat w < 2 ^ k" using w by (simp add: word_less_nat_alt)
  then show "take_bit k w = w" by (simp only: unat_less_iff_take_bit)
qed

lemma take_bit_add_aligned:
  fixes a b :: "'a::len word"
  assumes "take_bit n a = 0" "n \<le> LENGTH('a)"
  shows "take_bit n (a + b) = take_bit n b"
proof -
  have d: "(2::nat) ^ n dvd 2 ^ LENGTH('a)" using assms(2) by (rule le_imp_power_dvd)
  have "unat a mod 2 ^ n = 0" using assms(1) unat_take_bit [of n a] by simp
  then have "(unat a + unat b) mod 2 ^ n = unat b mod 2 ^ n" by (metis add_0 mod_add_left_eq)
  then have "unat (take_bit n (a + b)) = unat (take_bit n b)"
    using d by (simp add: unat_take_bit unat_word_ariths mod_mod_cancel)
  then show ?thesis by (simp only: word_unat_eq_iff)
qed

section \<open>Short-circuit conditions\<close>

text \<open>
  The operators \<^verbatim>\<open>!\<close>, \<^verbatim>\<open>&&\<close> and \<^verbatim>\<open>||\<close> over operands that may fault: the right
  operand is evaluated only when the left one does not decide the result.
\<close>

definition not_opt :: "bool option \<Rightarrow> bool option" where
  "not_opt p = map_option Not p"

definition and_opt :: "bool option \<Rightarrow> bool option \<Rightarrow> bool option" where
  "and_opt p q = do { b \<leftarrow> p; if b then q else Some False }"

definition or_opt :: "bool option \<Rightarrow> bool option \<Rightarrow> bool option" where
  "or_opt p q = do { b \<leftarrow> p; if b then Some True else q }"

lemmas cond_opt_defs = not_opt_def and_opt_def or_opt_def

section \<open>memcpy and memset\<close>

text \<open>
  The byte loops of the C library, in ascending order; \<open>n\<close> is the value of the
  \<^verbatim>\<open>size_t\<close> argument.
\<close>

primrec memcpy :: "nat \<Rightarrow> mem \<Rightarrow> addr \<Rightarrow> addr \<Rightarrow> mem option" where
  "memcpy 0 m dst src = Some m"
| "memcpy (Suc n) m dst src =
     do { b \<leftarrow> m src; m' \<leftarrow> store8 m dst b; memcpy n m' (dst + 1) (src + 1) }"

primrec memset :: "nat \<Rightarrow> mem \<Rightarrow> addr \<Rightarrow> u8 \<Rightarrow> mem option" where
  "memset 0 m dst c = Some m"
| "memset (Suc n) m dst c = do { m' \<leftarrow> store8 m dst c; memset n m' (dst + 1) c }"

lemma memcpy_Suc:
  "memcpy (Suc n) m d s = Some m' \<longleftrightarrow>
     d \<in> dom m \<and> (\<exists>b. m s = Some b \<and> memcpy n (m(d \<mapsto> b)) (d + 1) (s + 1) = Some m')"
  by (auto simp: store8_Some bind_eq_Some_conv)

lemma memset_Suc:
  "memset (Suc n) m d c = Some m' \<longleftrightarrow> d \<in> dom m \<and> memset n (m(d \<mapsto> c)) (d + 1) c = Some m'"
  by (simp add: store8_Some bind_eq_Some_conv)

lemma memcpy_dom [mem_dom]: "memcpy n m d s = Some m' \<Longrightarrow> dom m' = dom m"
proof (induction n arbitrary: m d s)
  case (Suc n)
  then obtain b where d: "d \<in> dom m" and r: "memcpy n (m(d \<mapsto> b)) (d + 1) (s + 1) = Some m'"
    unfolding memcpy_Suc by blast
  from Suc.IH [OF r] d show ?case by (simp only: dom_store)
qed simp

lemma memset_dom [mem_dom]: "memset n m d c = Some m' \<Longrightarrow> dom m' = dom m"
proof (induction n arbitrary: m d)
  case (Suc n)
  then have d: "d \<in> dom m" and r: "memset n (m(d \<mapsto> c)) (d + 1) c = Some m'"
    by (simp_all only: memset_Suc)
  from Suc.IH [OF r] d show ?case by (simp only: dom_store)
qed simp

lemma memcpy_frame [mem_simps]:
  "memcpy n m d s = Some m' \<Longrightarrow> x \<notin> region d n \<Longrightarrow> m' x = m x"
proof (induction n arbitrary: m d s)
  case (Suc n)
  then obtain b where r: "memcpy n (m(d \<mapsto> b)) (d + 1) (s + 1) = Some m'"
    unfolding memcpy_Suc by blast
  from Suc.prems(2) have "x \<noteq> d" "x \<notin> region (d + 1) n" by (auto simp: region_Suc)
  with Suc.IH [OF r] show ?case by simp
qed simp

lemma memset_frame [mem_simps]:
  "memset n m d c = Some m' \<Longrightarrow> x \<notin> region d n \<Longrightarrow> m' x = m x"
proof (induction n arbitrary: m d)
  case (Suc n)
  then have r: "memset n (m(d \<mapsto> c)) (d + 1) c = Some m'" by (simp only: memset_Suc)
  from Suc.prems(2) have "x \<noteq> d" "x \<notin> region (d + 1) n" by (auto simp: region_Suc)
  with Suc.IH [OF r] show ?case by simp
qed simp

text \<open>Neither routine returns unless its whole destination is mapped.\<close>

lemma memcpy_dst_mapped: "memcpy n m d s = Some m' \<Longrightarrow> region d n \<subseteq> dom m"
proof (induction n arbitrary: m d s)
  case (Suc n)
  then obtain b where d: "d \<in> dom m" and r: "memcpy n (m(d \<mapsto> b)) (d + 1) (s + 1) = Some m'"
    unfolding memcpy_Suc by blast
  from Suc.IH [OF r] d show ?case by (simp only: region_Suc dom_store insert_subset)
qed simp

lemma memset_dst_mapped: "memset n m d c = Some m' \<Longrightarrow> region d n \<subseteq> dom m"
proof (induction n arbitrary: m d)
  case (Suc n)
  then have d: "d \<in> dom m" and r: "memset n (m(d \<mapsto> c)) (d + 1) c = Some m'"
    by (simp_all only: memset_Suc)
  from Suc.IH [OF r] d show ?case by (simp only: region_Suc dom_store insert_subset)
qed simp

lemma memset_defined: "region d n \<subseteq> dom m \<Longrightarrow> \<exists>m'. memset n m d c = Some m'"
proof (induction n arbitrary: m d)
  case 0
  then show ?case by simp
next
  case (Suc n)
  then have st: "store8 m d c = Some (m(d \<mapsto> c))" and "region (d + 1) n \<subseteq> dom (m(d \<mapsto> c))"
    by (auto simp: region_Suc store8_Some)
  with Suc.IH obtain m' where "memset n (m(d \<mapsto> c)) (d + 1) c = Some m'" by blast
  with st show ?case by simp
qed

lemma memset_value [mem_simps]:
  "memset n m d c = Some m' \<Longrightarrow> n \<le> 2 ^ 64 \<Longrightarrow> x \<in> region d n \<Longrightarrow> m' x = Some c"
proof (induction n arbitrary: m d)
  case 0
  then show ?case by simp
next
  case (Suc n)
  from Suc.prems(1) obtain m1 where m1: "store8 m d c = Some m1" and r: "memset n m1 (d + 1) c = Some m'"
    by (auto simp: bind_eq_Some_conv)
  show ?case
  proof (cases "x \<in> region (d + 1) n")
    case True
    with r Suc.prems(2) show ?thesis by (intro Suc.IH) auto
  next
    case False
    with r have "m' x = m1 x" by (rule memset_frame)
    moreover from False Suc.prems(3) have "x = d" by (simp add: region_Suc)
    ultimately show ?thesis using m1 by (simp add: store8_Some)
  qed
qed

text \<open>On disjoint ranges the copy puts the source's bytes, as they were before, in the destination.\<close>

lemma memcpy_value [mem_simps]:
  assumes "memcpy n m d s = Some m'" "n \<le> 2 ^ 64" "region d n \<inter> region s n = {}" "x \<in> region d n"
  shows "m' x = m (s + (x - d))"
  using assms
proof (induction n arbitrary: m d s)
  case 0
  then show ?case by simp
next
  case (Suc n)
  from Suc.prems(1) obtain b m1 where b: "m s = Some b" and m1: "store8 m d b = Some m1"
    and r: "memcpy n m1 (d + 1) (s + 1) = Some m'"
    by (auto simp: bind_eq_Some_conv)
  show ?case
  proof (cases "x \<in> region (d + 1) n")
    case True
    have disj: "region (d + 1) n \<inter> region (s + 1) n = {}"
      using Suc.prems(3) by (auto simp: region_Suc)
    have v: "m' x = m1 (s + 1 + (x - (d + 1)))"
      by (rule Suc.IH [OF r _ disj True]) (use Suc.prems(2) in simp)
    have "s + (x - d) \<in> region s (Suc n)"
      using Suc.prems(4) by (simp add: in_region_iff)
    moreover have "d \<notin> region s (Suc n)" using Suc.prems(3) by (auto simp: region_Suc)
    ultimately have "s + (x - d) \<noteq> d" by metis
    with v show ?thesis using m1 by (simp add: store8_Some)
  next
    case False
    with r have "m' x = m1 x" by (rule memcpy_frame)
    moreover from False Suc.prems(4) have "x = d" by (simp add: region_Suc)
    ultimately show ?thesis using m1 b by (simp add: store8_Some)
  qed
qed

lemma memcpy_defined:
  assumes "region d n \<subseteq> dom m" "region s n \<subseteq> dom m"
  shows "\<exists>m'. memcpy n m d s = Some m'"
  using assms
proof (induction n arbitrary: m d s)
  case 0
  then show ?case by simp
next
  case (Suc n)
  then obtain b where b: "m s = Some b" by (auto simp: region_Suc)
  from Suc.prems have st: "store8 m d b = Some (m(d \<mapsto> b))"
    and "region (d + 1) n \<subseteq> dom (m(d \<mapsto> b))" "region (s + 1) n \<subseteq> dom (m(d \<mapsto> b))"
    by (auto simp: region_Suc store8_Some)
  with Suc.IH obtain m' where "memcpy n (m(d \<mapsto> b)) (d + 1) (s + 1) = Some m'" by blast
  with b st show ?case by simp
qed

lemmas mem_defined = write_le_defined read_le_defined memcpy_defined memset_defined

end
