(* ===== verification/Memory_Map.thy ===== *)
theory Memory_Map
  imports Toshokan_Prelude
begin

text \<open>
  The memory layout of \<^verbatim>\<open>src/common/memory.h\<close> (where the friend's memory and the boot
  trampoline are) and the rounding helper of \<^verbatim>\<open>src/common/align.h\<close>.
\<close>

section \<open>The constants of memory.h\<close>

definition DEPLOY_PHYS_ADDR_START :: u64 where
  [layout_simps]: "DEPLOY_PHYS_ADDR_START = 0x100000000"

definition DEPLOY_PHYS_ADDR_END :: u64 where
  [layout_simps]: "DEPLOY_PHYS_ADDR_END = 0x140000000"

definition DEPLOY_PHYS_MEM_SIZE :: u64 where
  [layout_simps]: "DEPLOY_PHYS_MEM_SIZE = DEPLOY_PHYS_ADDR_END - DEPLOY_PHYS_ADDR_START"

definition TRAMPOLINE_ADDR :: u64 where
  [layout_simps]: "TRAMPOLINE_ADDR = 0x70000"

definition TRAMPOLINE_SIZE :: u64 where
  [layout_simps]: "TRAMPOLINE_SIZE = 0x2000"

definition PAGE_SIZE :: u64 where
  [layout_simps]: "PAGE_SIZE = 0x1000"

definition TRAMPOLINE_ADDR_STR :: string where
  "TRAMPOLINE_ADDR_STR = ''0x70000''"

definition INITIAL_PML4T :: u64 where
  [layout_simps]: "INITIAL_PML4T = TRAMPOLINE_ADDR + PAGE_SIZE"

text \<open>The friend's memory, the range the ELF loader may write to.\<close>

abbreviation deploy_region :: "addr set" where
  "deploy_region \<equiv> region DEPLOY_PHYS_ADDR_START (unat DEPLOY_PHYS_MEM_SIZE)"

abbreviation trampoline_region :: "addr set" where
  "trampoline_region \<equiv> region TRAMPOLINE_ADDR (unat TRAMPOLINE_SIZE)"

lemma deploy_size [layout_simps]: "unat DEPLOY_PHYS_MEM_SIZE = 0x40000000"
  by (simp add: DEPLOY_PHYS_MEM_SIZE_def DEPLOY_PHYS_ADDR_START_def DEPLOY_PHYS_ADDR_END_def)

lemma in_deploy_region:
  "x \<in> deploy_region \<longleftrightarrow> DEPLOY_PHYS_ADDR_START \<le> x \<and> x < DEPLOY_PHYS_ADDR_END"
  by (simp add: region_interval deploy_size word_le_nat_alt word_less_nat_alt
      DEPLOY_PHYS_ADDR_START_def DEPLOY_PHYS_ADDR_END_def)

text \<open>
  The two ranges that the kernel's boot parameters set aside do not meet: a store to the
  trampoline never reaches the friend's memory and the other way round.
\<close>

lemma trampoline_deploy_disjoint: "trampoline_region \<inter> deploy_region = {}"
  by (rule region_disjoint)
    (simp_all add: TRAMPOLINE_ADDR_def TRAMPOLINE_SIZE_def deploy_size DEPLOY_PHYS_ADDR_START_def)

section \<open>align\<close>

text \<open>
  \<^verbatim>\<open>align\<close> divides by its second argument, so zero there is undefined
  (\<open>None\<close>). It is a template; the model is polymorphic in the width of the unsigned type.
\<close>

definition align :: "'a::len word \<Rightarrow> 'a word \<Rightarrow> 'a word option" where
  "align val align_val = (if align_val = 0 then None else Some ((val div align_val) * align_val))"

lemma unat_align: "align v a = Some r \<Longrightarrow> unat r = (unat v div unat a) * unat a"
proof -
  assume "align v a = Some r"
  then have r: "r = (v div a) * a" by (auto simp: align_def split: if_splits)
  have "(unat v div unat a) * unat a \<le> unat v" by (rule div_times_less_eq_dividend)
  also have "unat v < 2 ^ LENGTH('a)" by (rule unsigned_less)
  finally show ?thesis
    by (simp add: r unat_word_ariths unat_div mod_mult_left_eq)
qed

end
