(* ===== verification/Elf_Format.thy ===== *)
theory Elf_Format
  imports Toshokan_Prelude
begin

text \<open>
  The part of \<^verbatim>\<open>src/common/elfhead.h\<close> that the loader uses: the three headers of a
  64-bit ELF file and the constants they are compared with. A struct is the list of its fields in
  the order of the source; the offset of a field follows from the layout rule of the x86-64 ABI
  (every field at the next multiple of its alignment), so that reading \<^verbatim>\<open>_raw->f\<close>
  is a little-endian load of the field's bytes.
\<close>

section \<open>Struct layout\<close>

datatype ctype = U8 | U16 | U32 | U64 | U8_array nat

fun size_of :: "ctype \<Rightarrow> nat" where
  "size_of U8 = 1"
| "size_of U16 = 2"
| "size_of U32 = 4"
| "size_of U64 = 8"
| "size_of (U8_array n) = n"

fun align_of :: "ctype \<Rightarrow> nat" where
  "align_of (U8_array n) = 1"
| "align_of t = size_of t"

definition round_up :: "nat \<Rightarrow> nat \<Rightarrow> nat" where
  "round_up n k = ((n + k - 1) div k) * k"

fun layout :: "nat \<Rightarrow> ('f \<times> ctype) list \<Rightarrow> ('f \<times> nat \<times> ctype) list" where
  "layout off [] = []"
| "layout off ((f, t) # fs) =
     (let o' = round_up off (align_of t) in (f, o', t) # layout (o' + size_of t) fs)"

definition sizeof_struct :: "('f \<times> ctype) list \<Rightarrow> nat" where
  "sizeof_struct s = (case rev (layout 0 s) of [] \<Rightarrow> 0 | (f, o', t) # _ \<Rightarrow>
     round_up (o' + size_of t) (foldr (\<lambda>(_, t). max (align_of t)) s 1))"

text \<open>Reading a field through a pointer to the struct.\<close>

definition field :: "('f \<times> ctype) list \<Rightarrow> 'f \<Rightarrow> mem \<Rightarrow> addr \<Rightarrow> u64 option" where
  "field s f m raw = (case map_of (layout 0 s) f of
     None \<Rightarrow> None
   | Some (off, t) \<Rightarrow> read_le (size_of t) m (raw + of_nat off))"

section \<open>Elf64_Ehdr, Elf64_Phdr and Elf64_Shdr\<close>

datatype ehdr_field = e_ident | e_type | e_machine | e_version | e_entry | e_phoff | e_shoff
  | e_flags | e_ehsize | e_phentsize | e_phnum | e_shentsize | e_shnum | e_shstrndx

definition Elf64_Ehdr :: "(ehdr_field \<times> ctype) list" where
  "Elf64_Ehdr = [(e_ident, U8_array 16), (e_type, U16), (e_machine, U16), (e_version, U32),
     (e_entry, U64), (e_phoff, U64), (e_shoff, U64), (e_flags, U32), (e_ehsize, U16),
     (e_phentsize, U16), (e_phnum, U16), (e_shentsize, U16), (e_shnum, U16), (e_shstrndx, U16)]"

datatype shdr_field = sh_name | sh_type | sh_flags | sh_addr | sh_offset | sh_size | sh_link
  | sh_info | sh_addralign | sh_entsize

definition Elf64_Shdr :: "(shdr_field \<times> ctype) list" where
  "Elf64_Shdr = [(sh_name, U32), (sh_type, U32), (sh_flags, U64), (sh_addr, U64),
     (sh_offset, U64), (sh_size, U64), (sh_link, U32), (sh_info, U32), (sh_addralign, U64),
     (sh_entsize, U64)]"

datatype phdr_field = p_type | p_flags | p_offset | p_vaddr | p_paddr | p_filesz | p_memsz
  | p_align

definition Elf64_Phdr :: "(phdr_field \<times> ctype) list" where
  "Elf64_Phdr = [(p_type, U32), (p_flags, U32), (p_offset, U64), (p_vaddr, U64), (p_paddr, U64),
     (p_filesz, U64), (p_memsz, U64), (p_align, U64)]"

text \<open>The bytes of \<^verbatim>\<open>e_ident\<close> are read one at a time.\<close>

definition e_ident_byte :: "nat \<Rightarrow> mem \<Rightarrow> addr \<Rightarrow> u64 option" where
  "e_ident_byte i m raw = read_le 1 m (raw + of_nat i)"

text \<open>The fields' offsets, by evaluation of the layout rule.\<close>

lemma layout_Elf64:
  "layout 0 Elf64_Ehdr =
     [(e_ident, 0, U8_array 16), (e_type, 16, U16), (e_machine, 18, U16),
      (e_version, 20, U32), (e_entry, 24, U64), (e_phoff, 32, U64), (e_shoff, 40, U64),
      (e_flags, 48, U32), (e_ehsize, 52, U16), (e_phentsize, 54, U16), (e_phnum, 56, U16),
      (e_shentsize, 58, U16), (e_shnum, 60, U16), (e_shstrndx, 62, U16)]"
  "layout 0 Elf64_Shdr =
     [(sh_name, 0, U32), (sh_type, 4, U32), (sh_flags, 8, U64), (sh_addr, 16, U64),
      (sh_offset, 24, U64), (sh_size, 32, U64), (sh_link, 40, U32), (sh_info, 44, U32),
      (sh_addralign, 48, U64), (sh_entsize, 56, U64)]"
  "layout 0 Elf64_Phdr =
     [(p_type, 0, U32), (p_flags, 4, U32), (p_offset, 8, U64), (p_vaddr, 16, U64),
      (p_paddr, 24, U64), (p_filesz, 32, U64), (p_memsz, 40, U64), (p_align, 48, U64)]"
  by code_simp+

lemma sizeof_Elf64:
  "sizeof_struct Elf64_Ehdr = 64" "sizeof_struct Elf64_Shdr = 64" "sizeof_struct Elf64_Phdr = 56"
  by code_simp+

text \<open>Every field the loader reads, at the offset and width of the ELF-64 specification.\<close>

lemma ehdr_fields:
  "field Elf64_Ehdr e_type m a = read_le 2 m (a + 16)"
  "field Elf64_Ehdr e_entry m a = read_le 8 m (a + 24)"
  "field Elf64_Ehdr e_phoff m a = read_le 8 m (a + 32)"
  "field Elf64_Ehdr e_shoff m a = read_le 8 m (a + 40)"
  "field Elf64_Ehdr e_phentsize m a = read_le 2 m (a + 54)"
  "field Elf64_Ehdr e_phnum m a = read_le 2 m (a + 56)"
  "field Elf64_Ehdr e_shentsize m a = read_le 2 m (a + 58)"
  "field Elf64_Ehdr e_shnum m a = read_le 2 m (a + 60)"
  by (simp_all add: field_def layout_Elf64)

lemma phdr_fields:
  "field Elf64_Phdr p_type m a = read_le 4 m a"
  "field Elf64_Phdr p_offset m a = read_le 8 m (a + 8)"
  "field Elf64_Phdr p_vaddr m a = read_le 8 m (a + 16)"
  "field Elf64_Phdr p_filesz m a = read_le 8 m (a + 32)"
  by (simp_all add: field_def layout_Elf64)

lemma shdr_fields:
  "field Elf64_Shdr sh_type m a = read_le 4 m (a + 4)"
  "field Elf64_Shdr sh_flags m a = read_le 8 m (a + 8)"
  "field Elf64_Shdr sh_addr m a = read_le 8 m (a + 16)"
  "field Elf64_Shdr sh_size m a = read_le 8 m (a + 32)"
  by (simp_all add: field_def layout_Elf64)

section \<open>The constants the loader compares with\<close>

text \<open>Bytes of \<^verbatim>\<open>e_ident\<close>: indices and values.\<close>

definition ELFMAG0 :: u64 where "ELFMAG0 = 0x7f"
definition ELFMAG1 :: u64 where "ELFMAG1 = 0x45"
definition ELFMAG2 :: u64 where "ELFMAG2 = 0x4c"
definition ELFMAG3 :: u64 where "ELFMAG3 = 0x46"
definition EI_CLASS :: nat where "EI_CLASS = 4"
definition ELFCLASS64 :: u64 where "ELFCLASS64 = 2"
definition EI_OSABI :: nat where "EI_OSABI = 7"
definition ELFOSABI_SYSV :: u64 where "ELFOSABI_SYSV = 0"
definition ELFOSABI_GNU :: u64 where "ELFOSABI_GNU = 3"

text \<open>Values of \<^verbatim>\<open>e_type\<close>, \<^verbatim>\<open>sh_type\<close>, \<^verbatim>\<open>sh_flags\<close> and \<^verbatim>\<open>p_type\<close>.\<close>

definition ET_EXEC :: u64 where "ET_EXEC = 2"
definition SHT_NOBITS :: u64 where "SHT_NOBITS = 8"
definition SHF_ALLOC :: u64 where "SHF_ALLOC = push_bit 1 1"
definition SHF_EXECINSTR :: u64 where "SHF_EXECINSTR = push_bit 2 1"
definition PT_LOAD :: u64 where "PT_LOAD = 1"

lemmas elf_constants = ELFMAG0_def ELFMAG1_def ELFMAG2_def ELFMAG3_def EI_CLASS_def
  ELFCLASS64_def EI_OSABI_def ELFOSABI_SYSV_def ELFOSABI_GNU_def ET_EXEC_def SHT_NOBITS_def
  SHF_ALLOC_def SHF_EXECINSTR_def PT_LOAD_def

end
