(* ===== verification/Elf_Loader.thy ===== *)
theory Elf_Loader
  imports Memory_Map Elf_Format
begin

text \<open>
  The ELF loader of \<^verbatim>\<open>src/hakase/elf_loader.h\<close> and \<^verbatim>\<open>elf_loader.cc\<close>. It runs in the hakase
  process, whose memory holds both the friend's ELF file (at \<^verbatim>\<open>_addr\<close>) and, mapped at the same
  addresses as in the friend, the friend's memory. The result \<open>None\<close> is a fault: an access to an
  address that is not mapped, or an overflow of the signed product in the header tables.
\<close>

section \<open>The model\<close>

record ElfLoader =
  ld_addr :: addr
  ld_len :: u64

record SectionInfo =
  sec_vaddr :: u64
  sec_size :: u64

record PhdrInfo =
  seg_vaddr :: u64
  seg_file_offset :: u64
  seg_size :: u64

definition CheckMemoryRegion :: "u64 \<Rightarrow> u64 \<Rightarrow> bool" where
  "CheckMemoryRegion vaddr sz =
     (if vaddr < DEPLOY_PHYS_ADDR_START \<or> vaddr + sz > DEPLOY_PHYS_ADDR_END then False else True)"

subsection \<open>Shdr and Phdr\<close>

definition GetInfoIfBss :: "mem \<Rightarrow> addr \<Rightarrow> SectionInfo option option" where
  "GetInfoIfBss m raw = do {
     bss \<leftarrow> and_opt (map_option (\<lambda>t. t = SHT_NOBITS) (field Elf64_Shdr sh_type m raw))
                   (map_option (\<lambda>f. f AND SHF_ALLOC \<noteq> 0) (field Elf64_Shdr sh_flags m raw));
     if bss then do {
       vaddr \<leftarrow> field Elf64_Shdr sh_addr m raw;
       sz \<leftarrow> field Elf64_Shdr sh_size m raw;
       Some (Some \<lparr>sec_vaddr = vaddr, sec_size = sz\<rparr>)
     } else Some None }"

definition GetInfoIfExec :: "mem \<Rightarrow> addr \<Rightarrow> SectionInfo option option" where
  "GetInfoIfExec m raw = do {
     flags \<leftarrow> field Elf64_Shdr sh_flags m raw;
     if flags AND SHF_EXECINSTR \<noteq> 0 then do {
       vaddr \<leftarrow> field Elf64_Shdr sh_addr m raw;
       sz \<leftarrow> field Elf64_Shdr sh_size m raw;
       Some (Some \<lparr>sec_vaddr = vaddr, sec_size = sz\<rparr>)
     } else Some None }"

definition GetInfoIfLoad :: "mem \<Rightarrow> addr \<Rightarrow> PhdrInfo option option" where
  "GetInfoIfLoad m raw = do {
     type \<leftarrow> field Elf64_Phdr p_type m raw;
     if type = PT_LOAD then do {
       vaddr \<leftarrow> field Elf64_Phdr p_vaddr m raw;
       file_offset \<leftarrow> field Elf64_Phdr p_offset m raw;
       sz \<leftarrow> field Elf64_Phdr p_filesz m raw;
       Some (Some \<lparr>seg_vaddr = vaddr, seg_file_offset = file_offset, seg_size = sz\<rparr>)
     } else Some None }"

subsection \<open>Ehdr\<close>

definition IsElf :: "mem \<Rightarrow> addr \<Rightarrow> bool option" where
  "IsElf m raw =
     and_opt (map_option (\<lambda>b. b = ELFMAG0) (e_ident_byte 0 m raw))
    (and_opt (map_option (\<lambda>b. b = ELFMAG1) (e_ident_byte 1 m raw))
    (and_opt (map_option (\<lambda>b. b = ELFMAG2) (e_ident_byte 2 m raw))
             (map_option (\<lambda>b. b = ELFMAG3) (e_ident_byte 3 m raw))))"

definition IsElf64 :: "mem \<Rightarrow> addr \<Rightarrow> bool option" where
  "IsElf64 m raw = map_option (\<lambda>b. b = ELFCLASS64) (e_ident_byte EI_CLASS m raw)"

definition IsOsabiSysv :: "mem \<Rightarrow> addr \<Rightarrow> bool option" where
  "IsOsabiSysv m raw = map_option (\<lambda>b. b = ELFOSABI_SYSV) (e_ident_byte EI_OSABI m raw)"

definition IsOsabiGnu :: "mem \<Rightarrow> addr \<Rightarrow> bool option" where
  "IsOsabiGnu m raw = map_option (\<lambda>b. b = ELFOSABI_GNU) (e_ident_byte EI_OSABI m raw)"

definition IsExecutable :: "mem \<Rightarrow> addr \<Rightarrow> bool option" where
  "IsExecutable m raw = map_option (\<lambda>t. t = ET_EXEC) (field Elf64_Ehdr e_type m raw)"

definition Ehdr_GetEntry :: "mem \<Rightarrow> addr \<Rightarrow> u64 option" where
  "Ehdr_GetEntry m raw = field Elf64_Ehdr e_entry m raw"

text \<open>
  \<^verbatim>\<open>e_shentsize * index\<close> multiplies two values of type \<^verbatim>\<open>int\<close> (the 16-bit field is promoted): a
  product beyond 31 bits is undefined. The product is then widened to 64 bits for the sum.
\<close>

definition imul :: "int \<Rightarrow> int \<Rightarrow> int option" where
  "imul a b = (if - (2 ^ 31) \<le> a * b \<and> a * b < 2 ^ 31 then Some (a * b) else None)"

definition GetShdrOffset :: "mem \<Rightarrow> addr \<Rightarrow> int \<Rightarrow> u64 option" where
  "GetShdrOffset m raw index = do {
     num \<leftarrow> field Elf64_Ehdr e_shnum m raw;
     if uint num > index then do {
       off \<leftarrow> field Elf64_Ehdr e_shoff m raw;
       entsize \<leftarrow> field Elf64_Ehdr e_shentsize m raw;
       prod \<leftarrow> imul (uint entsize) index;
       Some (off + word_of_int prod)
     } else Some 0 }"

definition GetPhdrOffset :: "mem \<Rightarrow> addr \<Rightarrow> int \<Rightarrow> u64 option" where
  "GetPhdrOffset m raw index = do {
     num \<leftarrow> field Elf64_Ehdr e_phnum m raw;
     if uint num > index then do {
       off \<leftarrow> field Elf64_Ehdr e_phoff m raw;
       entsize \<leftarrow> field Elf64_Ehdr e_phentsize m raw;
       prod \<leftarrow> imul (uint entsize) index;
       Some (off + word_of_int prod)
     } else Some 0 }"

subsection \<open>ElfLoader\<close>

definition GetEntry :: "ElfLoader \<Rightarrow> mem \<Rightarrow> u64 option" where
  "GetEntry L m = Ehdr_GetEntry m (ld_addr L)"

text \<open>The null \<^verbatim>\<open>unique_ptr\<close> is \<open>None\<close>.\<close>

definition CreateShdr :: "ElfLoader \<Rightarrow> u64 \<Rightarrow> addr option" where
  "CreateShdr L off = (if off = 0 then None else Some (ld_addr L + off))"

definition CreatePhdr :: "ElfLoader \<Rightarrow> u64 \<Rightarrow> addr option" where
  "CreatePhdr L off = (if off = 0 then None else Some (ld_addr L + off))"

lemma table_offset_bound:
  assumes "field Elf64_Ehdr f m a = Some n" "f = e_phnum \<or> f = e_shnum" "uint n > int i"
  shows "i < 65536"
proof -
  from assms(1,2) obtain b where "read_le 2 m b = Some n"
    by (auto simp: ehdr_fields)
  then have "unat n < 65536" using read_le_bound [of 2 m b n] by simp
  moreover from assms(3) have "int i < int (unat n)" by simp
  ultimately show ?thesis by linarith
qed

lemma GetPhdrOffset_bound:
  assumes "GetPhdrOffset m a (int i) = Some off" "off \<noteq> 0"
  shows "i < 65536"
proof -
  from assms obtain n where "field Elf64_Ehdr e_phnum m a = Some n" "uint n > int i"
    by (auto simp: GetPhdrOffset_def bind_eq_Some_conv split: if_splits)
  then show ?thesis by (blast intro: table_offset_bound)
qed

lemma GetShdrOffset_bound:
  assumes "GetShdrOffset m a (int i) = Some off" "off \<noteq> 0"
  shows "i < 65536"
proof -
  from assms obtain n where "field Elf64_Ehdr e_shnum m a = Some n" "uint n > int i"
    by (auto simp: GetShdrOffset_def bind_eq_Some_conv split: if_splits)
  then show ?thesis by (blast intro: table_offset_bound)
qed

lemma CreatePhdr_Some: "CreatePhdr L off = Some p \<longleftrightarrow> off \<noteq> 0 \<and> p = ld_addr L + off"
  by (auto simp: CreatePhdr_def)

lemma CreateShdr_Some: "CreateShdr L off = Some p \<longleftrightarrow> off \<noteq> 0 \<and> p = ld_addr L + off"
  by (auto simp: CreateShdr_def)

text \<open>
  The two loops of \<^verbatim>\<open>Deploy\<close>, from index \<open>i\<close> on. Each reads its header table again in every round,
  from the memory the previous rounds left.
\<close>

function load_segments :: "ElfLoader \<Rightarrow> nat \<Rightarrow> mem \<Rightarrow> (bool \<times> mem) option" where
  "load_segments L i m =
     (case GetPhdrOffset m (ld_addr L) (int i) of None \<Rightarrow> None
      | Some off \<Rightarrow>
     (case CreatePhdr L off of None \<Rightarrow> Some (True, m)
      | Some phdr \<Rightarrow>
     (case GetInfoIfLoad m phdr of None \<Rightarrow> None
      | Some None \<Rightarrow> load_segments L (Suc i) m
      | Some (Some info) \<Rightarrow>
          if \<not> CheckMemoryRegion (seg_vaddr info) (seg_size info) then Some (False, m)
          else (case memcpy (unat (seg_size info)) m (seg_vaddr info)
                       (ld_addr L + seg_file_offset info) of
                  None \<Rightarrow> None
                | Some m' \<Rightarrow> load_segments L (Suc i) m'))))"
  by pat_completeness auto
termination
  by (relation "measure (\<lambda>(L, i, m). 65536 - i)")
    (auto simp: CreatePhdr_Some dest: GetPhdrOffset_bound)

function clear_bss :: "ElfLoader \<Rightarrow> nat \<Rightarrow> mem \<Rightarrow> (bool \<times> mem) option" where
  "clear_bss L i m =
     (case GetShdrOffset m (ld_addr L) (int i) of None \<Rightarrow> None
      | Some off \<Rightarrow>
     (case CreateShdr L off of None \<Rightarrow> Some (True, m)
      | Some shdr \<Rightarrow>
     (case GetInfoIfBss m shdr of None \<Rightarrow> None
      | Some None \<Rightarrow> clear_bss L (Suc i) m
      | Some (Some info) \<Rightarrow>
          if \<not> CheckMemoryRegion (sec_vaddr info) (sec_size info) then Some (False, m)
          else (case memset (unat (sec_size info)) m (sec_vaddr info) 0 of
                  None \<Rightarrow> None
                | Some m' \<Rightarrow> clear_bss L (Suc i) m'))))"
  by pat_completeness auto
termination
  by (relation "measure (\<lambda>(L, i, m). 65536 - i)")
    (auto simp: CreateShdr_Some dest: GetShdrOffset_bound)

declare load_segments.simps [simp del] clear_bss.simps [simp del]

text \<open>
  The destinations and lengths that the loops hand to \<^verbatim>\<open>memcpy\<close> and \<^verbatim>\<open>memset\<close>, in the order of the
  calls. A call that faults is in the list, as the last one: it may have stored anywhere in its
  range before the fault.
\<close>

function copy_calls :: "ElfLoader \<Rightarrow> nat \<Rightarrow> mem \<Rightarrow> (u64 \<times> u64) list" where
  "copy_calls L i m =
     (case GetPhdrOffset m (ld_addr L) (int i) of None \<Rightarrow> []
      | Some off \<Rightarrow>
     (case CreatePhdr L off of None \<Rightarrow> []
      | Some phdr \<Rightarrow>
     (case GetInfoIfLoad m phdr of None \<Rightarrow> []
      | Some None \<Rightarrow> copy_calls L (Suc i) m
      | Some (Some info) \<Rightarrow>
          if \<not> CheckMemoryRegion (seg_vaddr info) (seg_size info) then []
          else (seg_vaddr info, seg_size info) #
            (case memcpy (unat (seg_size info)) m (seg_vaddr info)
                    (ld_addr L + seg_file_offset info) of
               None \<Rightarrow> []
             | Some m' \<Rightarrow> copy_calls L (Suc i) m'))))"
  by pat_completeness auto
termination
  by (relation "measure (\<lambda>(L, i, m). 65536 - i)")
    (auto simp: CreatePhdr_Some dest: GetPhdrOffset_bound)

function zero_calls :: "ElfLoader \<Rightarrow> nat \<Rightarrow> mem \<Rightarrow> (u64 \<times> u64) list" where
  "zero_calls L i m =
     (case GetShdrOffset m (ld_addr L) (int i) of None \<Rightarrow> []
      | Some off \<Rightarrow>
     (case CreateShdr L off of None \<Rightarrow> []
      | Some shdr \<Rightarrow>
     (case GetInfoIfBss m shdr of None \<Rightarrow> []
      | Some None \<Rightarrow> zero_calls L (Suc i) m
      | Some (Some info) \<Rightarrow>
          if \<not> CheckMemoryRegion (sec_vaddr info) (sec_size info) then []
          else (sec_vaddr info, sec_size info) #
            (case memset (unat (sec_size info)) m (sec_vaddr info) 0 of
               None \<Rightarrow> []
             | Some m' \<Rightarrow> zero_calls L (Suc i) m'))))"
  by pat_completeness auto
termination
  by (relation "measure (\<lambda>(L, i, m). 65536 - i)")
    (auto simp: CreateShdr_Some dest: GetShdrOffset_bound)

declare copy_calls.simps [simp del] zero_calls.simps [simp del]

definition Deploy :: "ElfLoader \<Rightarrow> mem \<Rightarrow> (bool \<times> mem) option" where
  "Deploy L m = do {
     bad \<leftarrow> or_opt (not_opt (IsElf m (ld_addr L)))
           (or_opt (not_opt (IsElf64 m (ld_addr L)))
             (and_opt (not_opt (IsOsabiSysv m (ld_addr L))) (not_opt (IsOsabiGnu m (ld_addr L)))));
     if bad then Some (False, m)
     else do {
       exec \<leftarrow> IsExecutable m (ld_addr L);
       if \<not> exec then Some (False, m)
       else do {
         (ok, m1) \<leftarrow> load_segments L 0 m;
         if \<not> ok then Some (False, m1)
         else clear_bss L 0 m1 } } }"

text \<open>The calls of \<^verbatim>\<open>memcpy\<close> and \<^verbatim>\<open>memset\<close> in a run of \<^verbatim>\<open>Deploy\<close>, whether it returns or faults.\<close>

definition Deploy_calls :: "ElfLoader \<Rightarrow> mem \<Rightarrow> (u64 \<times> u64) list" where
  "Deploy_calls L m =
     (case or_opt (not_opt (IsElf m (ld_addr L)))
           (or_opt (not_opt (IsElf64 m (ld_addr L)))
             (and_opt (not_opt (IsOsabiSysv m (ld_addr L))) (not_opt (IsOsabiGnu m (ld_addr L))))) of
        Some False \<Rightarrow>
          (if IsExecutable m (ld_addr L) = Some True
           then copy_calls L 0 m @
             (case load_segments L 0 m of Some (True, m1) \<Rightarrow> zero_calls L 0 m1 | _ \<Rightarrow> [])
           else [])
      | _ \<Rightarrow> [])"

section \<open>The loops write only where they checked\<close>

text \<open>
  What a round of either loop finds in its header table: the end, a header to pass over, or a
  range to fill.
\<close>

datatype 'i fetched = Stop | Skip | Item 'i

definition fetch_phdr :: "ElfLoader \<Rightarrow> nat \<Rightarrow> mem \<Rightarrow> PhdrInfo fetched option" where
  "fetch_phdr L i m = do {
     off \<leftarrow> GetPhdrOffset m (ld_addr L) (int i);
     case CreatePhdr L off of None \<Rightarrow> Some Stop
     | Some p \<Rightarrow> map_option (case_option Skip Item) (GetInfoIfLoad m p) }"

definition fetch_shdr :: "ElfLoader \<Rightarrow> nat \<Rightarrow> mem \<Rightarrow> SectionInfo fetched option" where
  "fetch_shdr L i m = do {
     off \<leftarrow> GetShdrOffset m (ld_addr L) (int i);
     case CreateShdr L off of None \<Rightarrow> Some Stop
     | Some p \<Rightarrow> map_option (case_option Skip Item) (GetInfoIfBss m p) }"

definition copy_segment :: "ElfLoader \<Rightarrow> PhdrInfo \<Rightarrow> mem \<Rightarrow> mem option" where
  "copy_segment L x m = memcpy (unat (seg_size x)) m (seg_vaddr x) (ld_addr L + seg_file_offset x)"

definition zero_section :: "SectionInfo \<Rightarrow> mem \<Rightarrow> mem option" where
  "zero_section x m = memset (unat (sec_size x)) m (sec_vaddr x) 0"

text \<open>
  A range that passes the check lies in the friend's memory, or its end wraps around the address
  space.
\<close>

definition wraps :: "u64 \<Rightarrow> u64 \<Rightarrow> bool" where
  "wraps v s \<longleftrightarrow> 2 ^ 64 \<le> unat v + unat s"

lemma checked_region:
  assumes check: "CheckMemoryRegion v s" and nowrap: "\<not> wraps v s"
  shows "region v (unat s) \<subseteq> deploy_region"
proof -
  have "unat (v + s) = unat v + unat s" using nowrap by (simp add: wraps_def unat_word_ariths)
  with check show ?thesis
    by (intro region_subset)
      (auto simp: CheckMemoryRegion_def word_less_nat_alt deploy_size DEPLOY_PHYS_ADDR_START_def
        DEPLOY_PHYS_ADDR_END_def split: if_splits)
qed

locale header_loop =
  fixes loop :: "nat \<Rightarrow> mem \<Rightarrow> (bool \<times> mem) option"
    and fetch :: "nat \<Rightarrow> mem \<Rightarrow> 'i fetched option"
    and va :: "'i \<Rightarrow> u64"
    and sz :: "'i \<Rightarrow> u64"
    and act :: "'i \<Rightarrow> mem \<Rightarrow> mem option"
    and calls :: "nat \<Rightarrow> mem \<Rightarrow> (u64 \<times> u64) list"
  assumes loop_unfold: "loop i m = (case fetch i m of
        None \<Rightarrow> None
      | Some Stop \<Rightarrow> Some (True, m)
      | Some Skip \<Rightarrow> loop (Suc i) m
      | Some (Item x) \<Rightarrow>
          if \<not> CheckMemoryRegion (va x) (sz x) then Some (False, m)
          else (case act x m of None \<Rightarrow> None | Some m' \<Rightarrow> loop (Suc i) m'))"
    and fetch_bound: "fetch i m = Some r \<Longrightarrow> r \<noteq> Stop \<Longrightarrow> i < 65536"
    and act_dom: "act x m = Some m' \<Longrightarrow> dom m' = dom m"
    and act_frame: "act x m = Some m' \<Longrightarrow> a \<notin> region (va x) (unat (sz x)) \<Longrightarrow> m' a = m a"
    and calls_unfold: "calls i m = (case fetch i m of
        Some Skip \<Rightarrow> calls (Suc i) m
      | Some (Item x) \<Rightarrow>
          if \<not> CheckMemoryRegion (va x) (sz x) then []
          else (va x, sz x) # (case act x m of None \<Rightarrow> [] | Some m' \<Rightarrow> calls (Suc i) m')
      | _ \<Rightarrow> [])"
begin

lemma loop_induct:
  assumes step: "\<And>i m. (\<And>m'. i < 65536 \<Longrightarrow> P (Suc i) m') \<Longrightarrow> P i m"
  shows "P i m"
proof (induction "65536 - i" arbitrary: i m rule: less_induct)
  case less
  show ?case
  proof (rule step)
    fix m'
    assume "i < 65536"
    then show "P (Suc i) m'" by (intro less) simp
  qed
qed

text \<open>The four things that can happen in a round.\<close>

lemma round_cases:
  obtains (stop) "\<And>b. loop i m = Some b \<Longrightarrow> snd b = m" "calls i m = []"
  | (skip) "i < 65536" "loop i m = loop (Suc i) m" "calls i m = calls (Suc i) m"
  | (fault) x where "CheckMemoryRegion (va x) (sz x)" "loop i m = None" "calls i m = [(va x, sz x)]"
  | (run) x m' where "i < 65536" "CheckMemoryRegion (va x) (sz x)" "act x m = Some m'"
      "loop i m = loop (Suc i) m'" "calls i m = (va x, sz x) # calls (Suc i) m'"
proof (cases "fetch i m")
  case None
  then show ?thesis by (intro stop) (simp_all add: loop_unfold [of i m] calls_unfold [of i m])
next
  case (Some r)
  show ?thesis
  proof (cases r)
    case Stop
    with Some show ?thesis by (intro stop) (auto simp: loop_unfold [of i m] calls_unfold [of i m])
  next
    case Skip
    with Some show ?thesis
      by (intro skip) (auto simp: loop_unfold [of i m] calls_unfold [of i m] intro: fetch_bound)
  next
    case (Item x)
    with Some have lt: "i < 65536" by (auto intro: fetch_bound)
    note u = loop_unfold [of i m] calls_unfold [of i m] Some Item
    show ?thesis
    proof (cases "CheckMemoryRegion (va x) (sz x)")
      case False
      then show ?thesis by (intro stop) (auto simp: u)
    next
      case True
      then show ?thesis using lt by (cases "act x m") (auto simp: u intro: fault run)
    qed
  qed
qed

lemma calls_checked: "(v, n) \<in> set (calls i m) \<Longrightarrow> CheckMemoryRegion v n"
proof (induction i m rule: loop_induct)
  case (1 i m)
  show ?case by (cases i m rule: round_cases) (use 1 in auto)
qed

lemma loop_confined:
  "loop i m = Some b \<Longrightarrow> dom (snd b) = dom m \<and>
     (\<forall>a. (\<forall>(v, n) \<in> set (calls i m). a \<notin> region v (unat n)) \<longrightarrow> snd b a = m a)"
proof (induction i m rule: loop_induct)
  case (1 i m)
  show ?case
  proof (cases i m rule: round_cases)
    case (run x m')
    have d: "dom m' = dom m" using run(3) by (rule act_dom)
    have "dom (snd b) = dom m' \<and>
        (\<forall>a. (\<forall>(v, n) \<in> set (calls (Suc i) m'). a \<notin> region v (unat n)) \<longrightarrow> snd b a = m' a)"
      using 1 run(1,4) by simp
    then show ?thesis using d act_frame [OF run(3)] run(5) by auto
  qed (use 1 in auto)
qed

end

interpretation seg: header_loop "load_segments L" "fetch_phdr L" seg_vaddr seg_size "copy_segment L"
  "copy_calls L" for L
proof
  show "load_segments L i m = (case fetch_phdr L i m of
        None \<Rightarrow> None
      | Some Stop \<Rightarrow> Some (True, m)
      | Some Skip \<Rightarrow> load_segments L (Suc i) m
      | Some (Item x) \<Rightarrow>
          if \<not> CheckMemoryRegion (seg_vaddr x) (seg_size x) then Some (False, m)
          else (case copy_segment L x m of None \<Rightarrow> None | Some m' \<Rightarrow> load_segments L (Suc i) m'))"
    for i m
    by (simp add: load_segments.simps [of L i m] fetch_phdr_def copy_segment_def split: option.split)
  show "fetch_phdr L i m = Some r \<Longrightarrow> r \<noteq> Stop \<Longrightarrow> i < 65536" for i m r
    by (auto simp: fetch_phdr_def bind_eq_Some_conv CreatePhdr_Some split: option.splits
        dest: GetPhdrOffset_bound)
  show "copy_calls L i m = (case fetch_phdr L i m of
        Some Skip \<Rightarrow> copy_calls L (Suc i) m
      | Some (Item x) \<Rightarrow>
          if \<not> CheckMemoryRegion (seg_vaddr x) (seg_size x) then []
          else (seg_vaddr x, seg_size x) #
            (case copy_segment L x m of None \<Rightarrow> [] | Some m' \<Rightarrow> copy_calls L (Suc i) m')
      | _ \<Rightarrow> [])"
    for i m
    by (simp add: copy_calls.simps [of L i m] fetch_phdr_def copy_segment_def split: option.split)
qed (unfold copy_segment_def, (erule memcpy_dom | erule (1) memcpy_frame)+)

interpretation bss: header_loop "clear_bss L" "fetch_shdr L" sec_vaddr sec_size zero_section
  "zero_calls L" for L
proof
  show "clear_bss L i m = (case fetch_shdr L i m of
        None \<Rightarrow> None
      | Some Stop \<Rightarrow> Some (True, m)
      | Some Skip \<Rightarrow> clear_bss L (Suc i) m
      | Some (Item x) \<Rightarrow>
          if \<not> CheckMemoryRegion (sec_vaddr x) (sec_size x) then Some (False, m)
          else (case zero_section x m of None \<Rightarrow> None | Some m' \<Rightarrow> clear_bss L (Suc i) m'))"
    for i m
    by (simp add: clear_bss.simps [of L i m] fetch_shdr_def zero_section_def split: option.split)
  show "fetch_shdr L i m = Some r \<Longrightarrow> r \<noteq> Stop \<Longrightarrow> i < 65536" for i m r
    by (auto simp: fetch_shdr_def bind_eq_Some_conv CreateShdr_Some split: option.splits
        dest: GetShdrOffset_bound)
  show "zero_calls L i m = (case fetch_shdr L i m of
        Some Skip \<Rightarrow> zero_calls L (Suc i) m
      | Some (Item x) \<Rightarrow>
          if \<not> CheckMemoryRegion (sec_vaddr x) (sec_size x) then []
          else (sec_vaddr x, sec_size x) #
            (case zero_section x m of None \<Rightarrow> [] | Some m' \<Rightarrow> zero_calls L (Suc i) m')
      | _ \<Rightarrow> [])"
    for i m
    by (simp add: zero_calls.simps [of L i m] fetch_shdr_def zero_section_def split: option.split)
qed (unfold zero_section_def, (erule memset_dom | erule (1) memset_frame)+)

section \<open>The loops implement the load map of the file\<close>

text \<open>
  The loops read headers and data from the memory they write to. As long as the file lies outside
  the friend's memory, each round still sees the file as it was before, and the loop is a fold over
  the headers of the file.
\<close>

definition items :: "(nat \<Rightarrow> mem \<Rightarrow> 'i fetched option) \<Rightarrow> mem \<Rightarrow> nat \<Rightarrow> nat \<Rightarrow> 'i list" where
  "items fetch m i n = List.map_filter
     (\<lambda>j. case fetch j m of Some (Item x) \<Rightarrow> Some x | _ \<Rightarrow> None) [i..<n]"

definition same_image :: "ElfLoader \<Rightarrow> mem \<Rightarrow> mem \<Rightarrow> bool" where
  "same_image L m0 m \<longleftrightarrow> dom m = dom m0 \<and> (\<forall>a \<in> region (ld_addr L) (unat (ld_len L)). m a = m0 a)"

definition entry_ok :: "(nat \<Rightarrow> mem \<Rightarrow> 'i fetched option) \<Rightarrow> (mem \<Rightarrow> nat \<Rightarrow> bool) \<Rightarrow>
    ('i \<Rightarrow> bool) \<Rightarrow> mem \<Rightarrow> nat \<Rightarrow> bool" where
  "entry_ok fetch inside ok m j \<longleftrightarrow> inside m j \<and>
     (case fetch j m of Some Skip \<Rightarrow> True | Some (Item x) \<Rightarrow> ok x | _ \<Rightarrow> False)"

locale header_loop_image = header_loop +
  fixes L :: ElfLoader
    and good :: "mem \<Rightarrow> bool"
    and inside :: "mem \<Rightarrow> nat \<Rightarrow> bool"
    and ok :: "'a \<Rightarrow> bool"
    and eff :: "mem \<Rightarrow> 'a \<Rightarrow> mem \<Rightarrow> mem"
  assumes fetch_stable: "inside m0 i \<Longrightarrow> same_image L m0 m \<Longrightarrow> fetch i m = fetch i m0"
    and act_eff: "good m0 \<Longrightarrow> ok x \<Longrightarrow> same_image L m0 m \<Longrightarrow> act x m = Some (eff m0 x m)"
    and eff_same: "good m0 \<Longrightarrow> ok x \<Longrightarrow> same_image L m0 m \<Longrightarrow> same_image L m0 (eff m0 x m)"
    and ok_check: "ok x \<Longrightarrow> CheckMemoryRegion (va x) (sz x)"
begin

lemma loop_refines:
  assumes "good m0" "inside m0 n" "fetch n m0 = Some Stop"
  shows "i \<le> n \<Longrightarrow> \<forall>j. i \<le> j \<and> j < n \<longrightarrow> entry_ok fetch inside ok m0 j \<Longrightarrow> same_image L m0 m \<Longrightarrow>
     loop i m = Some (True, fold (eff m0) (items fetch m0 i n) m) \<and>
     same_image L m0 (fold (eff m0) (items fetch m0 i n) m)"
proof (induction "n - i" arbitrary: i m)
  case 0
  then have "i = n" by simp
  moreover have "fetch n m = Some Stop" using assms(2,3) 0(4) fetch_stable by simp
  ultimately show ?case using 0(4) by (simp add: loop_unfold [of n m] items_def map_filter_simps)
next
  case (Suc d)
  then have lt: "i < n" by simp
  then have up: "[i..<n] = i # [Suc i..<n]" by (rule upt_conv_Cons)
  have ok_i: "entry_ok fetch inside ok m0 i" using Suc.prems(2) lt by simp
  then have f: "fetch i m = fetch i m0" using fetch_stable Suc.prems(3) by (simp add: entry_ok_def)
  have rest: "\<forall>j. Suc i \<le> j \<and> j < n \<longrightarrow> entry_ok fetch inside ok m0 j" using Suc.prems(2) by simp
  from ok_i consider "fetch i m0 = Some Skip" | x where "fetch i m0 = Some (Item x)" "ok x"
    by (auto simp: entry_ok_def split: option.splits fetched.splits)
  then show ?case
  proof cases
    case 1
    with Suc.hyps(1) [of "Suc i" m] Suc.hyps(2) lt rest Suc.prems(3) f up show ?thesis
      by (simp add: loop_unfold [of i m] items_def map_filter_simps)
  next
    case 2
    let ?m = "eff m0 x m"
    have s: "same_image L m0 ?m" and a: "act x m = Some ?m"
      using eff_same act_eff assms(1) 2(2) Suc.prems(3) by blast+
    have "loop (Suc i) ?m = Some (True, fold (eff m0) (items fetch m0 (Suc i) n) ?m) \<and>
        same_image L m0 (fold (eff m0) (items fetch m0 (Suc i) n) ?m)"
      by (rule Suc.hyps(1)) (use Suc.hyps(2) lt rest s in auto)
    with 2 a f up ok_check [OF 2(2)] show ?thesis
      by (simp add: loop_unfold [of i m] items_def map_filter_simps)
  qed
qed

end

subsection \<open>When the file is well formed\<close>

text \<open>
  The file and the friend's memory are mapped and apart; a header that the loops read is inside
  the file; what a segment copies is inside the file and goes to the friend's memory.
\<close>

definition image_apart :: "ElfLoader \<Rightarrow> mem \<Rightarrow> bool" where
  "image_apart L m \<longleftrightarrow> region (ld_addr L) (unat (ld_len L)) \<subseteq> dom m \<and> deploy_region \<subseteq> dom m \<and>
     region (ld_addr L) (unat (ld_len L)) \<inter> deploy_region = {}"

definition in_friend_memory :: "u64 \<Rightarrow> u64 \<Rightarrow> bool" where
  "in_friend_memory v s \<longleftrightarrow> DEPLOY_PHYS_ADDR_START \<le> v \<and> unat v + unat s \<le> unat DEPLOY_PHYS_ADDR_END"

definition phdr_inside :: "ElfLoader \<Rightarrow> mem \<Rightarrow> nat \<Rightarrow> bool" where
  "phdr_inside L m i \<longleftrightarrow> 64 \<le> unat (ld_len L) \<and>
     (case GetPhdrOffset m (ld_addr L) (int i) of None \<Rightarrow> False
      | Some off \<Rightarrow> off = 0 \<or> unat off + 56 \<le> unat (ld_len L))"

definition shdr_inside :: "ElfLoader \<Rightarrow> mem \<Rightarrow> nat \<Rightarrow> bool" where
  "shdr_inside L m i \<longleftrightarrow> 64 \<le> unat (ld_len L) \<and>
     (case GetShdrOffset m (ld_addr L) (int i) of None \<Rightarrow> False
      | Some off \<Rightarrow> off = 0 \<or> unat off + 64 \<le> unat (ld_len L))"

definition segment_ok :: "ElfLoader \<Rightarrow> PhdrInfo \<Rightarrow> bool" where
  "segment_ok L x \<longleftrightarrow> in_friend_memory (seg_vaddr x) (seg_size x) \<and>
     unat (seg_file_offset x) + unat (seg_size x) \<le> unat (ld_len L)"

definition section_ok :: "SectionInfo \<Rightarrow> bool" where
  "section_ok x \<longleftrightarrow> in_friend_memory (sec_vaddr x) (sec_size x)"

text \<open>What one round leaves, as a function of the address.\<close>

definition load_effect :: "ElfLoader \<Rightarrow> mem \<Rightarrow> PhdrInfo \<Rightarrow> mem \<Rightarrow> mem" where
  "load_effect L m0 x m = (\<lambda>a. if a \<in> region (seg_vaddr x) (unat (seg_size x))
     then m0 (ld_addr L + seg_file_offset x + (a - seg_vaddr x)) else m a)"

definition zero_effect :: "mem \<Rightarrow> SectionInfo \<Rightarrow> mem \<Rightarrow> mem" where
  "zero_effect m0 x m = (\<lambda>a. if a \<in> region (sec_vaddr x) (unat (sec_size x)) then Some 0 else m a)"

lemma in_friend_memory_region:
  "in_friend_memory v s \<Longrightarrow> region v (unat s) \<subseteq> deploy_region"
  by (intro region_subset)
    (auto simp: in_friend_memory_def word_le_nat_alt deploy_size DEPLOY_PHYS_ADDR_START_def
      DEPLOY_PHYS_ADDR_END_def)

lemma in_friend_memory_check: "in_friend_memory v s \<Longrightarrow> CheckMemoryRegion v s"
proof -
  assume a: "in_friend_memory v s"
  then have "unat (v + s) = unat v + unat s"
    by (simp add: in_friend_memory_def unat_word_ariths DEPLOY_PHYS_ADDR_END_def)
  with a show ?thesis
    by (auto simp: in_friend_memory_def CheckMemoryRegion_def word_less_nat_alt word_le_nat_alt)
qed

lemma read_stable:
  assumes "same_image L m0 m" "unat k + n \<le> unat (ld_len L)"
  shows "read_le n m (ld_addr L + k) = read_le n m0 (ld_addr L + k)"
proof (rule read_le_cong)
  fix x
  assume "x \<in> region (ld_addr L + k) n"
  then have "x \<in> region (ld_addr L) (unat (ld_len L))" using region_shift [OF assms(2)] by blast
  with assms(1) show "m x = m0 x" by (simp add: same_image_def)
qed

lemma header_stable:
  assumes "same_image L m0 m" "64 \<le> unat (ld_len L)"
  shows "GetPhdrOffset m (ld_addr L) = GetPhdrOffset m0 (ld_addr L)"
    and "GetShdrOffset m (ld_addr L) = GetShdrOffset m0 (ld_addr L)"
  using assms(2) by (auto simp: fun_eq_iff GetPhdrOffset_def GetShdrOffset_def ehdr_fields
      read_stable [OF assms(1)] cong: if_cong)

lemma entry_stable:
  assumes "same_image L m0 m" "unat off + k \<le> unat (ld_len L)" "unat j + n \<le> k" "k \<le> 64"
  shows "read_le n m (ld_addr L + off + j) = read_le n m0 (ld_addr L + off + j)"
proof -
  have "unat (off + j) \<le> unat off + unat j"
    by (metis unat_word_ariths(1) mod_less_eq_dividend)
  with assms(2,3) have "unat (off + j) + n \<le> unat (ld_len L)" by simp
  from read_stable [OF assms(1) this] show ?thesis by (simp add: add.assoc)
qed

lemma GetInfoIfLoad_stable:
  assumes "same_image L m0 m" "unat off + 56 \<le> unat (ld_len L)"
  shows "GetInfoIfLoad m (ld_addr L + off) = GetInfoIfLoad m0 (ld_addr L + off)"
  using entry_stable [OF assms, of 0 4] entry_stable [OF assms, of 8 8]
    entry_stable [OF assms, of 16 8] entry_stable [OF assms, of 32 8]
  by (simp add: GetInfoIfLoad_def phdr_fields cong: if_cong)

lemma GetInfoIfBss_stable:
  assumes "same_image L m0 m" "unat off + 64 \<le> unat (ld_len L)"
  shows "GetInfoIfBss m (ld_addr L + off) = GetInfoIfBss m0 (ld_addr L + off)"
  using entry_stable [OF assms, of 4 4] entry_stable [OF assms, of 8 8]
    entry_stable [OF assms, of 16 8] entry_stable [OF assms, of 32 8]
  by (simp add: GetInfoIfBss_def shdr_fields cong: if_cong)

lemma fetch_phdr_stable:
  "phdr_inside L m0 i \<Longrightarrow> same_image L m0 m \<Longrightarrow> fetch_phdr L i m = fetch_phdr L i m0"
  by (auto simp: phdr_inside_def fetch_phdr_def header_stable CreatePhdr_def GetInfoIfLoad_stable
      split: option.splits)

lemma fetch_shdr_stable:
  "shdr_inside L m0 i \<Longrightarrow> same_image L m0 m \<Longrightarrow> fetch_shdr L i m = fetch_shdr L i m0"
  by (auto simp: shdr_inside_def fetch_shdr_def header_stable CreateShdr_def GetInfoIfBss_stable
      split: option.splits)

lemma copy_segment_effect:
  assumes apart: "image_apart L m0" and ok: "segment_ok L x" and same: "same_image L m0 m"
  shows "copy_segment L x m = Some (load_effect L m0 x m)"
proof -
  let ?n = "unat (seg_size x)" and ?d = "seg_vaddr x" and ?s = "ld_addr L + seg_file_offset x"
  have dst: "region ?d ?n \<subseteq> deploy_region"
    using ok by (intro in_friend_memory_region) (simp add: segment_ok_def)
  have src: "region ?s ?n \<subseteq> region (ld_addr L) (unat (ld_len L))"
    using ok by (intro region_shift) (simp add: segment_ok_def)
  have "region ?d ?n \<subseteq> dom m" "region ?s ?n \<subseteq> dom m"
    using dst src apart same by (auto simp: image_apart_def same_image_def)
  then obtain m' where m': "memcpy ?n m ?d ?s = Some m'" using memcpy_defined by blast
  have disj: "region ?d ?n \<inter> region ?s ?n = {}"
    using dst src apart by (auto simp: image_apart_def)
  have "m' = load_effect L m0 x m"
  proof
    fix a
    show "m' a = load_effect L m0 x m a"
    proof (cases "a \<in> region ?d ?n")
      case True
      then have "?s + (a - ?d) \<in> region ?s ?n" by (simp add: in_region_iff)
      with src same have "m (?s + (a - ?d)) = m0 (?s + (a - ?d))" by (auto simp: same_image_def)
      moreover have "m' a = m (?s + (a - ?d))"
        using m' _ disj True by (rule memcpy_value) (use unat64_less [of "seg_size x"] in simp)
      ultimately show ?thesis using True by (simp add: load_effect_def)
    next
      case False
      with m' have "m' a = m a" by (rule memcpy_frame)
      with False show ?thesis by (simp add: load_effect_def)
    qed
  qed
  with m' show ?thesis by (simp add: copy_segment_def)
qed

lemma load_effect_same:
  assumes apart: "image_apart L m0" and ok: "segment_ok L x" and same: "same_image L m0 m"
  shows "same_image L m0 (load_effect L m0 x m)"
proof -
  have d: "dom (load_effect L m0 x m) = dom m"
    using copy_segment_effect [OF assms] by (simp add: copy_segment_def memcpy_dom)
  have "region (seg_vaddr x) (unat (seg_size x)) \<subseteq> deploy_region"
    using ok by (intro in_friend_memory_region) (simp add: segment_ok_def)
  with d apart same show ?thesis
    by (auto simp: same_image_def image_apart_def load_effect_def)
qed

lemma zero_section_effect:
  assumes apart: "image_apart L m0" and ok: "section_ok x" and same: "same_image L m0 m"
  shows "zero_section x m = Some (zero_effect m0 x m)"
proof -
  let ?n = "unat (sec_size x)" and ?d = "sec_vaddr x"
  have dst: "region ?d ?n \<subseteq> deploy_region"
    using ok by (intro in_friend_memory_region) (simp add: section_ok_def)
  then have "region ?d ?n \<subseteq> dom m" using apart same by (auto simp: image_apart_def same_image_def)
  then obtain m' where m': "memset ?n m ?d 0 = Some m'" using memset_defined by blast
  have "m' a = zero_effect m0 x m a" for a
    using m' memset_value [OF m', of a] memset_frame [OF m', of a] unat64_less [of "sec_size x"]
    by (auto simp: zero_effect_def)
  then have "m' = zero_effect m0 x m" by (rule ext)
  with m' show ?thesis by (simp add: zero_section_def)
qed

lemma zero_effect_same:
  assumes apart: "image_apart L m0" and ok: "section_ok x" and same: "same_image L m0 m"
  shows "same_image L m0 (zero_effect m0 x m)"
proof -
  have d: "dom (zero_effect m0 x m) = dom m"
    using zero_section_effect [OF assms] by (simp add: zero_section_def memset_dom)
  have "region (sec_vaddr x) (unat (sec_size x)) \<subseteq> deploy_region"
    using ok by (intro in_friend_memory_region) (simp add: section_ok_def)
  with d apart same show ?thesis
    by (auto simp: same_image_def image_apart_def zero_effect_def)
qed

interpretation seg_img: header_loop_image "load_segments L" "fetch_phdr L" seg_vaddr seg_size
  "copy_segment L" "copy_calls L" L "image_apart L" "phdr_inside L" "segment_ok L" "load_effect L"
  for L
  by unfold_locales
    (auto simp: copy_segment_effect load_effect_same segment_ok_def in_friend_memory_check
      intro: fetch_phdr_stable)

interpretation bss_img: header_loop_image "clear_bss L" "fetch_shdr L" sec_vaddr sec_size
  zero_section "zero_calls L" L "image_apart L" "shdr_inside L" section_ok zero_effect
  for L
  by unfold_locales
    (auto simp: zero_section_effect zero_effect_same section_ok_def in_friend_memory_check
      intro: fetch_shdr_stable)

section \<open>What Deploy does\<close>

definition phnum :: "ElfLoader \<Rightarrow> mem \<Rightarrow> nat" where
  "phnum L m = (case field Elf64_Ehdr e_phnum m (ld_addr L) of None \<Rightarrow> 0 | Some n \<Rightarrow> unat n)"

definition shnum :: "ElfLoader \<Rightarrow> mem \<Rightarrow> nat" where
  "shnum L m = (case field Elf64_Ehdr e_shnum m (ld_addr L) of None \<Rightarrow> 0 | Some n \<Rightarrow> unat n)"

definition segments :: "ElfLoader \<Rightarrow> mem \<Rightarrow> PhdrInfo list" where
  "segments L m = items (fetch_phdr L) m 0 (phnum L m)"

definition bss_sections :: "ElfLoader \<Rightarrow> mem \<Rightarrow> SectionInfo list" where
  "bss_sections L m = items (fetch_shdr L) m 0 (shnum L m)"

definition header_ok :: "ElfLoader \<Rightarrow> mem \<Rightarrow> bool" where
  "header_ok L m \<longleftrightarrow> IsElf m (ld_addr L) = Some True \<and> IsElf64 m (ld_addr L) = Some True \<and>
     (IsOsabiSysv m (ld_addr L) = Some True \<or> IsOsabiGnu m (ld_addr L) = Some True) \<and>
     IsExecutable m (ld_addr L) = Some True"

definition tables_ok :: "ElfLoader \<Rightarrow> mem \<Rightarrow> bool" where
  "tables_ok L m \<longleftrightarrow> 64 \<le> unat (ld_len L) \<and>
     (\<forall>j < phnum L m. entry_ok (fetch_phdr L) (phdr_inside L) (segment_ok L) m j) \<and>
     (\<forall>j < shnum L m. entry_ok (fetch_shdr L) (shdr_inside L) section_ok m j)"

text \<open>
  The abstract result: a byte of a .bss section is zero, a byte of a segment is the byte of the
  file that the last segment over it names, every other byte is as it was.
\<close>

definition deployed :: "ElfLoader \<Rightarrow> mem \<Rightarrow> mem" where
  "deployed L m = (\<lambda>a.
     if \<exists>x \<in> set (bss_sections L m). a \<in> region (sec_vaddr x) (unat (sec_size x)) then Some 0
     else case find (\<lambda>x. a \<in> region (seg_vaddr x) (unat (seg_size x))) (rev (segments L m)) of
            None \<Rightarrow> m a
          | Some x \<Rightarrow> m (ld_addr L + seg_file_offset x + (a - seg_vaddr x)))"

lemma fold_load_effect:
  "fold (load_effect L m0) xs m a =
     (case find (\<lambda>x. a \<in> region (seg_vaddr x) (unat (seg_size x))) (rev xs) of
        None \<Rightarrow> m a | Some x \<Rightarrow> m0 (ld_addr L + seg_file_offset x + (a - seg_vaddr x)))"
  by (induction xs rule: rev_induct) (auto simp: load_effect_def)

lemma fold_zero_effect:
  "fold (zero_effect m0) xs m a =
     (if \<exists>x \<in> set xs. a \<in> region (sec_vaddr x) (unat (sec_size x)) then Some 0 else m a)"
  by (induction xs rule: rev_induct) (auto simp: zero_effect_def)

lemma phdr_table_end:
  assumes "image_apart L m" "64 \<le> unat (ld_len L)"
  shows "phdr_inside L m (phnum L m)" "fetch_phdr L (phnum L m) m = Some Stop"
proof -
  have "region (ld_addr L + 56) 2 \<subseteq> dom m"
    using region_shift [of 56 2 "unat (ld_len L)" "ld_addr L"] assms by (auto simp: image_apart_def)
  then obtain n where n: "field Elf64_Ehdr e_phnum m (ld_addr L) = Some n"
    using read_le_defined by (fastforce simp: ehdr_fields)
  then have "GetPhdrOffset m (ld_addr L) (int (phnum L m)) = Some 0"
    by (simp add: GetPhdrOffset_def phnum_def)
  then show "phdr_inside L m (phnum L m)" "fetch_phdr L (phnum L m) m = Some Stop"
    using assms(2) by (simp_all add: phdr_inside_def fetch_phdr_def CreatePhdr_def)
qed

lemma shdr_table_end:
  assumes "image_apart L m" "64 \<le> unat (ld_len L)"
  shows "shdr_inside L m (shnum L m)" "fetch_shdr L (shnum L m) m = Some Stop"
proof -
  have "region (ld_addr L + 60) 2 \<subseteq> dom m"
    using region_shift [of 60 2 "unat (ld_len L)" "ld_addr L"] assms by (auto simp: image_apart_def)
  then obtain n where n: "field Elf64_Ehdr e_shnum m (ld_addr L) = Some n"
    using read_le_defined by (fastforce simp: ehdr_fields)
  then have "GetShdrOffset m (ld_addr L) (int (shnum L m)) = Some 0"
    by (simp add: GetShdrOffset_def shnum_def)
  then show "shdr_inside L m (shnum L m)" "fetch_shdr L (shnum L m) m = Some Stop"
    using assms(2) by (simp_all add: shdr_inside_def fetch_shdr_def CreateShdr_def)
qed

lemma header_ok_checks:
  assumes "header_ok L m"
  shows "or_opt (not_opt (IsElf m (ld_addr L)))
      (or_opt (not_opt (IsElf64 m (ld_addr L)))
        (and_opt (not_opt (IsOsabiSysv m (ld_addr L))) (not_opt (IsOsabiGnu m (ld_addr L))))) = Some False"
    and "IsExecutable m (ld_addr L) = Some True"
proof -
  have "and_opt (not_opt (IsOsabiSysv m (ld_addr L))) (not_opt (IsOsabiGnu m (ld_addr L))) = Some False"
    using assms by (auto simp: header_ok_def cond_opt_defs IsOsabiSysv_def IsOsabiGnu_def
        split: option.splits)
  with assms show "or_opt (not_opt (IsElf m (ld_addr L)))
      (or_opt (not_opt (IsElf64 m (ld_addr L)))
        (and_opt (not_opt (IsOsabiSysv m (ld_addr L))) (not_opt (IsOsabiGnu m (ld_addr L))))) = Some False"
    by (simp add: header_ok_def cond_opt_defs)
qed (use assms in \<open>simp add: header_ok_def\<close>)

lemma Deploy_header_ok:
  assumes "header_ok L m"
  shows "Deploy L m = do { (ok, m1) \<leftarrow> load_segments L 0 m;
     if \<not> ok then Some (False, m1) else clear_bss L 0 m1 }"
  using header_ok_checks [OF assms] by (simp add: Deploy_def)

lemma Deploy_run:
  assumes "image_apart L m" "header_ok L m" "tables_ok L m"
  shows "Deploy L m = Some (True, deployed L m)" "same_image L m (deployed L m)"
proof -
  let ?m1 = "fold (load_effect L m) (segments L m) m"
  have len: "64 \<le> unat (ld_len L)" using assms(3) by (simp add: tables_ok_def)
  have "same_image L m m" by (simp add: same_image_def)
  then have l: "load_segments L 0 m = Some (True, ?m1)" "same_image L m ?m1"
    using seg_img.loop_refines [OF assms(1) phdr_table_end [OF assms(1) len], of 0 m] assms(3)
    by (simp_all add: tables_ok_def segments_def)
  have c: "clear_bss L 0 ?m1 = Some (True, fold (zero_effect m) (bss_sections L m) ?m1)"
    "same_image L m (fold (zero_effect m) (bss_sections L m) ?m1)"
    using bss_img.loop_refines [OF assms(1) shdr_table_end [OF assms(1) len], of 0 ?m1] assms(3) l(2)
    by (simp_all add: tables_ok_def bss_sections_def)
  have d: "fold (zero_effect m) (bss_sections L m) ?m1 = deployed L m"
    by (simp add: fun_eq_iff fold_zero_effect fold_load_effect deployed_def)
  show "Deploy L m = Some (True, deployed L m)" using l(1) c(1) d by (simp add: Deploy_header_ok [OF assms(2)])
  show "same_image L m (deployed L m)" using c(2) d by simp
qed

lemma items_ok: "\<forall>j < n. entry_ok fetch inside ok m j \<Longrightarrow> x \<in> set (items fetch m 0 n) \<Longrightarrow> ok x"
  by (fastforce simp: items_def List.map_filter_def entry_ok_def split: option.splits fetched.splits)

lemma deployed_outside:
  assumes "tables_ok L m" "a \<notin> deploy_region"
  shows "deployed L m a = m a"
proof -
  have "a \<notin> region (sec_vaddr x) (unat (sec_size x))" if "x \<in> set (bss_sections L m)" for x
    using items_ok [of "shnum L m" "fetch_shdr L" "shdr_inside L" section_ok m x] that assms
      in_friend_memory_region [of "sec_vaddr x" "sec_size x"]
    by (auto simp: tables_ok_def bss_sections_def section_ok_def)
  moreover have "a \<notin> region (seg_vaddr x) (unat (seg_size x))" if "x \<in> set (segments L m)" for x
    using items_ok [of "phnum L m" "fetch_phdr L" "phdr_inside L" "segment_ok L" m x] that assms
      in_friend_memory_region [of "seg_vaddr x" "seg_size x"]
    by (auto simp: tables_ok_def segments_def segment_ok_def)
  then have "find (\<lambda>x. a \<in> region (seg_vaddr x) (unat (seg_size x))) (rev (segments L m)) = None"
    by (simp add: find_None_iff)
  ultimately show ?thesis by (simp add: deployed_def)
qed

lemma Deploy_frame:
  assumes "Deploy L m = Some (ok, m')"
  shows "dom m' = dom m"
    and "\<forall>(v, n) \<in> set (Deploy_calls L m). a \<notin> region v (unat n) \<Longrightarrow> m' a = m a"
proof -
  from assms consider "m' = m"
    | m1 where "load_segments L 0 m = Some (False, m1)" "m' = m1" "set (copy_calls L 0 m) \<subseteq> set (Deploy_calls L m)"
    | m1 where "load_segments L 0 m = Some (True, m1)" "clear_bss L 0 m1 = Some (ok, m')"
        "set (copy_calls L 0 m) \<union> set (zero_calls L 0 m1) \<subseteq> set (Deploy_calls L m)"
    by (auto simp: Deploy_def Deploy_calls_def bind_eq_Some_conv split: if_splits)
  note c = this
  from c show "dom m' = dom m"
    by cases (use seg.loop_confined bss.loop_confined in force)+
  assume a: "\<forall>(v, n) \<in> set (Deploy_calls L m). a \<notin> region v (unat n)"
  from c show "m' a = m a"
  proof cases
    case 2
    have "\<forall>(v, n) \<in> set (copy_calls L 0 m). a \<notin> region v (unat n)" using a 2(3) by blast
    then show ?thesis using seg.loop_confined [OF 2(1)] 2(2) by simp
  next
    case 3
    have "\<forall>(v, n) \<in> set (copy_calls L 0 m). a \<notin> region v (unat n)"
      "\<forall>(v, n) \<in> set (zero_calls L 0 m1). a \<notin> region v (unat n)" using a 3(3) by blast+
    then have "m1 a = m a" "m' a = m1 a"
      using seg.loop_confined [OF 3(1)] bss.loop_confined [OF 3(2)] by simp_all
    then show ?thesis by simp
  qed simp
qed

text \<open>
  C5: Deploy of a well-formed ELF file (its header passes the checks, its header tables and the
  data of its segments are inside the file, its segments and .bss sections are inside the friend's
  memory, and the file lies outside it) does not fault, returns true, and leaves exactly the
  memory that the file describes: .bss bytes zero, segment bytes from the file, all else unchanged.
\<close>

theorem Deploy_correct:
  assumes "image_apart L m" "header_ok L m" "tables_ok L m"
  shows "Deploy L m = Some (True, deployed L m)"
  using assms by (rule Deploy_run(1))

text \<open>
  C15: whatever the file holds and whether Deploy returns or faults, every range it hands to memcpy
  or memset starts at or after the start of the friend's memory, and it lies entirely in the friend's
  memory unless its end wraps around the address space (which the region check accepts). If Deploy
  returns, no mapping changed and every byte outside these ranges is as it was.
\<close>

theorem Deploy_confined:
  "(\<forall>(v, n) \<in> set (Deploy_calls L m). DEPLOY_PHYS_ADDR_START \<le> v \<and>
      (region v (unat n) \<subseteq> deploy_region \<or> 2 ^ 64 \<le> unat v + unat n)) \<and>
   (\<forall>ok m'. Deploy L m = Some (ok, m') \<longrightarrow> dom m' = dom m \<and>
      (\<forall>a. (\<forall>(v, n) \<in> set (Deploy_calls L m). a \<notin> region v (unat n)) \<longrightarrow> m' a = m a))"
proof (intro conjI allI impI ballI, goal_cases)
  case (1 x)
  then have "CheckMemoryRegion (fst x) (snd x)"
    using seg.calls_checked [of "fst x" "snd x" L] bss.calls_checked [of "fst x" "snd x" L]
    by (auto simp: Deploy_calls_def split: option.splits bool.splits prod.splits if_splits)
  moreover from this have "DEPLOY_PHYS_ADDR_START \<le> fst x" by (auto simp: CheckMemoryRegion_def split: if_splits)
  ultimately show ?case using checked_region [of "fst x" "snd x"] by (auto simp: wraps_def case_prod_unfold)
next
  case (2 ok m')
  then show ?case by (rule Deploy_frame(1))
next
  case (3 ok m' a)
  then show ?case by (rule Deploy_frame(2))
qed

text \<open>
  C16: the region check accepts exactly the ranges that start at or after the friend's memory and
  whose end, computed modulo 2^64, is at most the end of that memory. So it also accepts a range
  whose end wraps around the address space.
\<close>

theorem CheckMemoryRegion_iff:
  "CheckMemoryRegion v s \<longleftrightarrow> DEPLOY_PHYS_ADDR_START \<le> v \<and>
     (unat v + unat s \<le> 0x140000000 \<or>
      2 ^ 64 \<le> unat v + unat s \<and> unat v + unat s \<le> 2 ^ 64 + 0x140000000)"
proof -
  have "unat (v + s) = (if unat v + unat s < 2 ^ 64 then unat v + unat s else unat v + unat s - 2 ^ 64)"
    using unat64_less [of v] unat64_less [of s] by (simp add: unat_word_ariths mod_if)
  then show ?thesis
    by (auto simp: CheckMemoryRegion_def word_less_nat_alt word_le_nat_alt DEPLOY_PHYS_ADDR_END_def)
qed

lemma header_type: "(ucast (b :: u8) OR push_bit 8 (ucast (c :: u8)) :: u64) = 2 \<longleftrightarrow> b = 2 \<and> c = 0"
proof
  let ?x = "ucast b OR push_bit 8 (ucast c) :: u64"
  assume x: "?x = 2"
  have "b = ucast ?x" "c = ucast (drop_bit 8 ?x)"
    by (rule bit_word_eqI, auto simp: bit_simps dest: bit_imp_le_length)+
  then have "b = ucast (2 :: u64)" "c = ucast (drop_bit 8 (2 :: u64))" unfolding x by blast+
  then show "b = 2 \<and> c = 0" by simp
qed simp

lemma byte_const: "n < 256 \<Longrightarrow> (ucast (b :: u8) :: u64) = n \<longleftrightarrow> b = ucast n"
proof
  assume n: "n < 256" and b: "b = ucast n"
  have "ucast (ucast n :: u8) = take_bit 8 n" by (simp add: unsigned_ucast_eq)
  also have "\<dots> = n" using n unat_less_iff_take_bit [of n 8] by (simp add: word_less_nat_alt)
  finally show "ucast b = n" using b by simp
next
  assume "ucast b = n"
  then show "b = ucast n" by (auto intro!: bit_word_eqI simp: bit_simps dest: bit_imp_le_length)
qed

text \<open>
  C17: Deploy looks at the first bytes of the file: unless they are 0x7F, E, L, F, class 2 (64 bit),
  ABI 0 (System V) or 3 (GNU) and type 2 (executable), it returns false and has written nothing;
  if they are, its result is that of the loop over the segments and, when this one passes, of the
  loop over the .bss sections.
\<close>

theorem Deploy_refuses:
  assumes "region (ld_addr L) 18 \<subseteq> dom m"
  shows "Deploy L m =
    (if map (\<lambda>i. m (ld_addr L + i)) [0, 1, 2, 3, 4, 16, 17] = map Some [0x7F, 0x45, 0x4C, 0x46, 2, 2, 0] \<and>
        m (ld_addr L + 7) \<in> {Some 0, Some 3}
     then (case load_segments L 0 m of None \<Rightarrow> None
           | Some (ok, m1) \<Rightarrow> if ok then clear_bss L 0 m1 else Some (False, m1))
     else Some (False, m))"
proof -
  have some: "\<exists>b. m (ld_addr L + i) = Some b" if "unat i < 18" for i
    using assms that by (auto simp: in_region_iff subset_iff dest!: spec [of _ "ld_addr L + i"])
  obtain b0 b1 b2 b3 b4 b7 b16 b17 where b: "m (ld_addr L) = Some b0" "m (ld_addr L + 1) = Some b1"
    "m (ld_addr L + 2) = Some b2" "m (ld_addr L + 3) = Some b3" "m (ld_addr L + 4) = Some b4"
    "m (ld_addr L + 7) = Some b7" "m (ld_addr L + 16) = Some b16" "m (ld_addr L + 17) = Some b17"
    using some [of 0] some [of 1] some [of 2] some [of 3] some [of 4] some [of 7] some [of 16] some [of 17]
    by auto
  have b17: "m (17 + ld_addr L) = Some b17" using b(8) by (simp only: add.commute)
  have "IsElf m (ld_addr L) = Some (b0 = 0x7F \<and> b1 = 0x45 \<and> b2 = 0x4C \<and> b3 = 0x46)"
    "IsElf64 m (ld_addr L) = Some (b4 = 2)" "IsOsabiSysv m (ld_addr L) = Some (b7 = 0)"
    "IsOsabiGnu m (ld_addr L) = Some (b7 = 3)" "IsExecutable m (ld_addr L) = Some (b16 = 2 \<and> b17 = 0)"
    using b b17 by (simp_all add: IsElf_def IsElf64_def IsOsabiSysv_def IsOsabiGnu_def IsExecutable_def
        e_ident_byte_def ehdr_fields and_opt_def elf_constants read_le_numeral header_type byte_const)
  then show ?thesis using b by (auto simp: Deploy_def cond_opt_defs split: option.split)
qed

section \<open>An example file\<close>

text \<open>
  A file of 186 bytes: the ELF header, one PT_LOAD header (two bytes of code, to the start of the
  friend's memory), one .bss section of three bytes, and the code.
\<close>

definition example_file :: "u8 list" where
  "example_file =
     [127, 69, 76, 70, 2, 1, 1, 0, 0, 0, 0, 0, 0, 0, 0, 0, 2, 0, 62, 0, 1, 0, 0, 0,
      0, 0, 0, 0, 1, 0, 0, 0, 64, 0, 0, 0, 0, 0, 0, 0, 120, 0, 0, 0, 0, 0, 0, 0,
      0, 0, 0, 0, 64, 0, 56, 0, 1, 0, 64, 0, 1, 0, 0, 0, 1, 0, 0, 0, 5, 0, 0, 0,
      184, 0, 0, 0, 0, 0, 0, 0, 0, 0, 0, 0, 1, 0, 0, 0, 0, 0, 0, 0, 1, 0, 0, 0,
      2, 0, 0, 0, 0, 0, 0, 0, 2, 0, 0, 0, 0, 0, 0, 0, 1, 0, 0, 0, 0, 0, 0, 0,
      0, 0, 0, 0, 8, 0, 0, 0, 2, 0, 0, 0, 0, 0, 0, 0, 16, 0, 0, 0, 1, 0, 0, 0,
      186, 0, 0, 0, 0, 0, 0, 0, 3, 0, 0, 0, 0, 0, 0, 0, 0, 0, 0, 0, 0, 0, 0, 0,
      1, 0, 0, 0, 0, 0, 0, 0, 0, 0, 0, 0, 0, 0, 0, 0, 144, 244]"

definition example_loader :: ElfLoader where
  "example_loader = \<lparr>ld_addr = 0x1000, ld_len = 186\<rparr>"

definition example_mem_with :: "(addr \<Rightarrow> u8) \<Rightarrow> mem" where
  "example_mem_with f a = (if unat (a - 0x1000) < 186 then Some (example_file ! unat (a - 0x1000))
     else if DEPLOY_PHYS_ADDR_START \<le> a \<and> a < DEPLOY_PHYS_ADDR_END then Some (f a) else None)"

lemmas example_defs = example_loader_def example_mem_with_def example_file_def

lemma example_header: "header_ok example_loader (example_mem_with f)"
  by (simp add: header_ok_def IsElf_def IsElf64_def IsOsabiSysv_def IsOsabiGnu_def IsExecutable_def
      e_ident_byte_def ehdr_fields cond_opt_defs elf_constants read_le_numeral example_defs)

lemma example_phdr:
  "phnum example_loader (example_mem_with f) = 1"
  "GetPhdrOffset (example_mem_with f) (ld_addr example_loader) 0 = Some 64"
  "GetInfoIfLoad (example_mem_with f) 0x1040 =
     Some (Some \<lparr>seg_vaddr = 0x100000000, seg_file_offset = 184, seg_size = 2\<rparr>)"
  by (simp_all add: phnum_def GetPhdrOffset_def GetInfoIfLoad_def imul_def ehdr_fields phdr_fields
      elf_constants read_le_numeral example_defs)

lemma example_shdr:
  "shnum example_loader (example_mem_with f) = 1"
  "GetShdrOffset (example_mem_with f) (ld_addr example_loader) 0 = Some 120"
  "GetInfoIfBss (example_mem_with f) 0x1078 = Some (Some \<lparr>sec_vaddr = 0x100000010, sec_size = 3\<rparr>)"
  by (simp_all add: shnum_def GetShdrOffset_def GetInfoIfBss_def imul_def ehdr_fields shdr_fields
      and_opt_def elf_constants read_le_numeral example_defs)

lemma example_tables: "tables_ok example_loader (example_mem_with f)"
  using example_phdr example_shdr
  by (simp add: tables_ok_def entry_ok_def phdr_inside_def shdr_inside_def fetch_phdr_def
      fetch_shdr_def CreatePhdr_def CreateShdr_def segment_ok_def section_ok_def
      in_friend_memory_def layout_simps example_loader_def)

lemma example_apart: "image_apart example_loader (example_mem_with f)"
proof -
  have "region 0x1000 186 \<subseteq> dom (example_mem_with f)"
    by (auto simp: in_region_iff example_mem_with_def dom_def)
  moreover have "deploy_region \<subseteq> dom (example_mem_with f)"
    by (auto simp: in_deploy_region example_mem_with_def dom_def)
  moreover have "region 0x1000 186 \<inter> deploy_region = {}"
    by (rule region_disjoint) (simp_all add: deploy_size DEPLOY_PHYS_ADDR_START_def)
  ultimately show ?thesis by (simp add: image_apart_def example_loader_def)
qed

definition example_mem :: mem where
  "example_mem = example_mem_with (\<lambda>_. 0xAA)"

theorem Deploy_correct_witness:
  "image_apart example_loader example_mem \<and> header_ok example_loader example_mem \<and>
   tables_ok example_loader example_mem \<and>
   Deploy example_loader example_mem = Some (True, deployed example_loader example_mem)"
  unfolding example_mem_def
  using Deploy_correct [OF example_apart example_header example_tables]
    example_apart example_header example_tables by simp

lemma example_deploys: "\<exists>m'. Deploy example_loader example_mem = Some (True, m')"
  unfolding example_mem_def using Deploy_run(1) [OF example_apart example_header example_tables] by blast

lemma example_calls: "(0x100000000, 2) \<in> set (Deploy_calls example_loader example_mem)"
  using header_ok_checks [OF example_header [of "\<lambda>_. 0xAA"]] example_phdr(2,3) [of "\<lambda>_. 0xAA"]
  by (auto simp: Deploy_calls_def example_mem_def CreatePhdr_def
      copy_calls.simps [of _ 0] CheckMemoryRegion_def layout_simps example_loader_def split: option.splits)

theorem Deploy_confined_witness:
  "\<exists>m'. Deploy example_loader example_mem = Some (True, m') \<and> dom m' = dom example_mem \<and>
     DEPLOY_PHYS_ADDR_START \<le> (0x100000000 :: u64) \<and> region 0x100000000 2 \<subseteq> deploy_region"
proof -
  obtain m' where d: "Deploy example_loader example_mem = Some (True, m')" using example_deploys by blast
  note c = Deploy_confined [of example_loader example_mem]
  have "DEPLOY_PHYS_ADDR_START \<le> (0x100000000 :: u64) \<and>
      (region 0x100000000 (unat (2 :: u64)) \<subseteq> deploy_region \<or> 2 ^ 64 \<le> unat (0x100000000 :: u64) + unat (2 :: u64))"
    using conjunct1 [OF c] example_calls by blast
  moreover have "dom m' = dom example_mem" using conjunct2 [OF c] d by blast
  ultimately show ?thesis using d by simp
qed

text \<open>
  A segment of 2^64 - 2 bytes at the start of the friend's memory plus 3 passes the check, although
  its range covers almost the whole address space.
\<close>

lemma wrapped_range_passes:
  "CheckMemoryRegion 0x100000003 0xFFFFFFFFFFFFFFFE \<and> 0 \<in> region 0x100000003 (unat (0xFFFFFFFFFFFFFFFE :: u64))"
  by (simp add: CheckMemoryRegion_def layout_simps in_region_iff)

definition not_elf_mem :: mem where
  "not_elf_mem a = (if unat (a - 0x1000) < 64 then Some 0 else None)"

theorem Deploy_refuses_witness:
  "region 0x1000 18 \<subseteq> dom not_elf_mem \<and>
   Deploy \<lparr>ld_addr = 0x1000, ld_len = 64\<rparr> not_elf_mem = Some (False, not_elf_mem)"
proof -
  let ?L = "\<lparr>ld_addr = 0x1000, ld_len = 64\<rparr> :: ElfLoader"
  have h: "region (ld_addr ?L) 18 \<subseteq> dom not_elf_mem"
    by (auto simp: in_region_iff not_elf_mem_def dom_def)
  from Deploy_refuses [OF h] h show ?thesis by (simp add: not_elf_mem_def)
qed

end
