(* ===== verification/Word_Memory.thy ===== *)
theory Word_Memory
  imports Toshokan_Prelude
begin

text \<open>
  The memory as an array of aligned 64-bit words. Page tables, jump buffers and exported symbol
  pointers are only ever accessed as such words; the locale states what those clients rely on, and
  its interpretation discharges the laws for the byte memory.
\<close>

definition aligned8 :: "addr \<Rightarrow> bool" where
  "aligned8 a \<longleftrightarrow> take_bit 3 a = 0"

text \<open>A sequence of word stores.\<close>

primrec write_all :: "('m \<Rightarrow> addr \<Rightarrow> u64 \<Rightarrow> 'm option) \<Rightarrow> 'm \<Rightarrow> (addr \<times> u64) list \<Rightarrow> 'm option" where
  "write_all wr m [] = Some m"
| "write_all wr m (w # ws) = do { m' \<leftarrow> wr m (fst w) (snd w); write_all wr m' ws }"

lemma write_all_append:
  "write_all wr m (xs @ ys) = do { m' \<leftarrow> write_all wr m xs; write_all wr m' ys }"
  by (induction xs arbitrary: m) auto

locale word_memory =
  fixes rd :: "'m \<Rightarrow> addr \<Rightarrow> u64 option"
    and wr :: "'m \<Rightarrow> addr \<Rightarrow> u64 \<Rightarrow> 'm option"
  assumes rd_wr: "aligned8 a \<Longrightarrow> aligned8 b \<Longrightarrow> wr m a v = Some m' \<Longrightarrow>
      rd m' b = (if b = a then Some v else rd m b)"
    and wr_defined: "rd m a \<noteq> None \<Longrightarrow> \<exists>m'. wr m a v = Some m'"
begin

lemma rd_write_all:
  assumes "\<forall>w \<in> set ws. aligned8 (fst w)" "aligned8 b"
  shows "write_all wr m ws = Some m' \<Longrightarrow>
     rd m' b = (case map_of (rev ws) b of Some v \<Rightarrow> Some v | None \<Rightarrow> rd m b)"
  using assms(1)
proof (induction ws arbitrary: m)
  case Nil
  then show ?case by simp
next
  case (Cons w ws)
  then obtain m1 where w: "wr m (fst w) (snd w) = Some m1" and r: "write_all wr m1 ws = Some m'"
    by (auto simp: bind_eq_Some_conv)
  have "rd m' b = (case map_of (rev ws) b of Some v \<Rightarrow> Some v | None \<Rightarrow> rd m1 b)"
    using Cons.prems(2) by (intro Cons.IH [OF r]) simp
  moreover have "rd m1 b = (if b = fst w then Some (snd w) else rd m b)"
    using Cons.prems(2) assms(2) w by (intro rd_wr) auto
  ultimately show ?case by (cases w) (auto simp: map_add_def split: option.splits)
qed

lemma write_all_defined:
  assumes "\<forall>w \<in> set ws. aligned8 (fst w)" "\<forall>w \<in> set ws. rd m (fst w) \<noteq> None"
  shows "\<exists>m'. write_all wr m ws = Some m'"
  using assms
proof (induction ws arbitrary: m)
  case Nil
  then show ?case by simp
next
  case (Cons w ws)
  then obtain m1 where w: "wr m (fst w) (snd w) = Some m1" using wr_defined by fastforce
  have "\<forall>x \<in> set ws. rd m1 (fst x) \<noteq> None"
    using Cons.prems rd_wr [OF _ _ w] by auto
  then obtain m' where "write_all wr m1 ws = Some m'" using Cons.IH [of m1] Cons.prems(1) by auto
  with w show ?case by simp
qed

text \<open>Stores to pairwise different words can be read back one by one.\<close>

lemma rd_write_all_distinct:
  assumes "\<forall>w \<in> set ws. aligned8 (fst w)" "distinct (map fst ws)" "write_all wr m ws = Some m'"
    and "(a, v) \<in> set ws"
  shows "rd m' a = Some v"
proof -
  have "aligned8 a" using assms(1,4) by force
  moreover have "map_of (rev ws) a = Some v"
    using assms(2,4) by (simp add: map_of_eq_Some_iff rev_map [symmetric])
  ultimately show ?thesis using rd_write_all [OF assms(1)] assms(3) by simp
qed

lemma rd_write_all_other:
  assumes "\<forall>w \<in> set ws. aligned8 (fst w)" "write_all wr m ws = Some m'" "aligned8 b" "b \<notin> fst ` set ws"
  shows "rd m' b = rd m b"
proof -
  have "map_of (rev ws) b = None" using assms(4) by (simp add: map_of_eq_None_iff)
  then show ?thesis using rd_write_all [OF assms(1,3)] assms(2) by simp
qed

end

lemma aligned8_iff: "aligned8 a \<longleftrightarrow> unat a mod 8 = 0"
proof -
  have "aligned8 a \<longleftrightarrow> unat (take_bit 3 a) = 0"
    by (simp only: aligned8_def unsigned_eq_0_iff)
  also have "unat (take_bit 3 a) = unat a mod 8" by (simp add: unat_take_bit)
  finally show ?thesis .
qed

lemma aligned8_disjoint:
  assumes "aligned8 a" "aligned8 b" "a \<noteq> b"
  shows "region a 8 \<inter> region b 8 = {}"
proof -
  have al: "unat c + 8 \<le> 2 ^ 64" if "aligned8 c" for c
    using that unat64_less [of c] by (simp add: aligned8_iff) presburger
  have "unat a \<noteq> unat b" using assms(3) by (simp add: word_unat_eq_iff)
  then consider "unat a < unat b" | "unat b < unat a" by linarith
  then show ?thesis
  proof cases
    case 1
    with assms(1,2) have "unat a + 8 \<le> unat b" by (simp add: aligned8_iff) presburger
    then show ?thesis by (rule region_disjoint) (rule al [OF assms(2)])
  next
    case 2
    with assms(1,2) have "unat b + 8 \<le> unat a" by (simp add: aligned8_iff) presburger
    then have "region b 8 \<inter> region a 8 = {}" by (rule region_disjoint) (rule al [OF assms(1)])
    then show ?thesis by blast
  qed
qed

lemma read64_mapped: "read64 m a \<noteq> None \<Longrightarrow> region a 8 \<subseteq> dom m"
proof -
  have "read_le n m a \<noteq> None \<Longrightarrow> region a n \<subseteq> dom m" for n
    by (induction n arbitrary: a) (auto simp: region_Suc bind_eq_None_conv)
  then show "read64 m a \<noteq> None \<Longrightarrow> region a 8 \<subseteq> dom m" by blast
qed

interpretation wm: word_memory read64 write64
proof
  show "read64 m' b = (if b = a then Some v else read64 m b)"
    if "aligned8 a" "aligned8 b" "write64 m a v = Some m'" for a b m v m'
  proof (cases "b = a")
    case True
    with that show ?thesis by (simp add: read64_write64_same)
  next
    case False
    then have "region b 8 \<inter> region a 8 = {}" using that(1,2) by (intro aligned8_disjoint) auto
    with that(3) have "read64 m' b = read64 m b" by (rule read_le_write_le_disjoint)
    with False show ?thesis by simp
  qed
  show "\<exists>m'. write64 m a v = Some m'" if "read64 m a \<noteq> None" for m a v
    using read64_mapped [OF that] by (rule write_le_defined)
qed

lemma write_all_dom: "write_all write64 m ws = Some m' \<Longrightarrow> dom m' = dom m"
proof (induction ws arbitrary: m)
  case Nil
  then show ?case by simp
next
  case (Cons w ws)
  then obtain m1 where "write64 m (fst w) (snd w) = Some m1" "write_all write64 m1 ws = Some m'"
    by (auto simp: bind_eq_Some_conv)
  then show ?case using Cons.IH write_le_dom by metis
qed

lemma write_all_frame:
  "write_all write64 m ws = Some m' \<Longrightarrow> \<forall>w \<in> set ws. x \<notin> region (fst w) 8 \<Longrightarrow> m' x = m x"
proof (induction ws arbitrary: m)
  case Nil
  then show ?case by simp
next
  case (Cons w ws)
  then obtain m1 where w: "write64 m (fst w) (snd w) = Some m1" and r: "write_all write64 m1 ws = Some m'"
    by (auto simp: bind_eq_Some_conv)
  have "m1 x = m x" using w by (rule write_le_frame) (use Cons.prems in simp)
  moreover have "m' x = m1 x" using Cons.prems(2) by (intro Cons.IH [OF r]) simp
  ultimately show ?case by simp
qed

end
