(* ===== verification/Paging.thy ===== *)
theory Paging
  imports Word_Memory
begin

text \<open>
  Address translation of the processor in long mode: the four-level page table walk from CR3 with
  4KB, 2MB and 1GB pages, the present, writable and page-size bits, and the write-protect bit of
  CR0. It is the hardware that the page-table code of \<^verbatim>\<open>hakase/loader16.cc\<close>, of the tutorials and
  of the samples programs, and the reference their theorems are stated against.
\<close>

section \<open>Entries\<close>

definition pte_present :: "u64 \<Rightarrow> bool" where
  "pte_present e = bit e 0"

definition pte_writable :: "u64 \<Rightarrow> bool" where
  "pte_writable e = bit e 1"

definition pte_huge :: "u64 \<Rightarrow> bool" where
  "pte_huge e = bit e 7"

text \<open>Bits \<open>n\<close> to 51 of an entry: the frame it points to, \<open>n\<close> being 12, 21 or 30.\<close>

definition pte_frame :: "nat \<Rightarrow> u64 \<Rightarrow> addr" where
  "pte_frame n e = push_bit n (take_bit (52 - n) (drop_bit n e))"

text \<open>The index into the table of a level: nine bits of the virtual address from bit \<open>n\<close> on.\<close>

definition pt_index :: "nat \<Rightarrow> addr \<Rightarrow> u64" where
  "pt_index n v = take_bit 9 (drop_bit n v)"

definition canonical :: "addr \<Rightarrow> bool" where
  "canonical v \<longleftrightarrow> signed_take_bit 47 v = v"

section \<open>The walk\<close>

text \<open>
  The entry of a level, with the walk's accumulated write permission; \<open>None\<close> is a page
  fault (or an access to absent physical memory).
\<close>

definition pt_entry :: "mem \<Rightarrow> addr \<Rightarrow> nat \<Rightarrow> addr \<Rightarrow> u64 option" where
  "pt_entry pm table n v = do {
     e \<leftarrow> read64 pm (table + 8 * pt_index n v);
     (if pte_present e then Some e else None) }"

definition walk :: "mem \<Rightarrow> addr \<Rightarrow> addr \<Rightarrow> (addr \<times> bool) option" where
  "walk pm cr3 v = (if \<not> canonical v then None else do {
     e4 \<leftarrow> pt_entry pm (pte_frame 12 cr3) 39 v;
     e3 \<leftarrow> pt_entry pm (pte_frame 12 e4) 30 v;
     let w3 = pte_writable e4 \<and> pte_writable e3;
     (if pte_huge e3 then Some (pte_frame 30 e3 + take_bit 30 v, w3) else do {
        e2 \<leftarrow> pt_entry pm (pte_frame 12 e3) 21 v;
        let w2 = w3 \<and> pte_writable e2;
        (if pte_huge e2 then Some (pte_frame 21 e2 + take_bit 21 v, w2) else do {
           e1 \<leftarrow> pt_entry pm (pte_frame 12 e2) 12 v;
           Some (pte_frame 12 e1 + take_bit 12 v, w2 \<and> pte_writable e1) }) }) })"

definition translate_read :: "mem \<Rightarrow> addr \<Rightarrow> addr \<Rightarrow> addr option" where
  "translate_read pm cr3 v = map_option fst (walk pm cr3 v)"

text \<open>
  A store by supervisor code: a read-only page stops it only when CR0.WP (bit 16) is set.
\<close>

definition translate_write :: "u32 \<Rightarrow> mem \<Rightarrow> addr \<Rightarrow> addr \<Rightarrow> addr option" where
  "translate_write cr0 pm cr3 v =
     (case walk pm cr3 v of None \<Rightarrow> None
      | Some (p, w) \<Rightarrow> if bit cr0 16 \<and> \<not> w then None else Some p)"

section \<open>Entries built by or-ing flags into an address\<close>

definition aligned_to :: "nat \<Rightarrow> addr \<Rightarrow> bool" where
  "aligned_to n a \<longleftrightarrow> take_bit n a = 0"

lemma aligned_to_mono: "aligned_to n a \<Longrightarrow> k \<le> n \<Longrightarrow> aligned_to k a"
  using take_bit_take_bit [of k n a] by (simp add: aligned_to_def min_def)

lemma pte_frame_or:
  assumes "aligned_to n a" "a < 2 ^ 52" "drop_bit n f = 0" "n \<le> 52"
  shows "pte_frame n (a OR f) = a"
proof -
  have lt: "take_bit 52 a = a"
    using assms(2) by (rule take_bit_less) simp
  have "pte_frame n (a OR f) = push_bit n (take_bit (52 - n) (drop_bit n a))"
    by (simp add: pte_frame_def assms(3))
  also have "\<dots> = push_bit n (drop_bit n (take_bit 52 a))"
    using assms(4) by (simp add: drop_bit_take_bit)
  also have "\<dots> = push_bit n (drop_bit n a)" by (simp only: lt)
  also have "\<dots> = a" using assms(1) bits_ident [of n a] by (simp add: aligned_to_def)
  finally show ?thesis .
qed

lemma pte_bits_or:
  assumes "aligned_to n a" "k < n"
  shows "bit (a OR f) k = bit f k"
proof -
  have "bit (take_bit n a) k = False" using assms(1) by (simp add: aligned_to_def)
  with assms(2) show ?thesis by (simp add: bit_take_bit_iff bit_or_iff)
qed

lemma canonical_low: "v < 2 ^ 47 \<Longrightarrow> canonical v"
proof -
  assume "v < 2 ^ 47"
  then have t: "take_bit 47 v = v" by (rule take_bit_less) simp
  then have "bit v 47 \<longleftrightarrow> bit (take_bit 47 v) 47" by simp
  then have "\<not> bit v 47" by (simp add: bit_take_bit_iff)
  then show ?thesis using t by (simp add: canonical_def signed_take_bit_eq_if_positive)
qed

lemma pt_index_bound: "unat (pt_index n v) < 512"
proof -
  have "unat (pt_index n v) = unat (drop_bit n v) mod 2 ^ 9"
    by (simp only: pt_index_def unat_take_bit)
  then show ?thesis by simp
qed

text \<open>
  An entry address determines the table and the index, so entries of different tables, or
  different entries of one table, are different words.
\<close>

lemma entry_aligned8: "aligned_to 12 t \<Longrightarrow> aligned8 (t + 8 * i)"
proof -
  assume "aligned_to 12 t"
  then have "take_bit 3 t = 0" using aligned_to_mono [of 12 t 3] by (simp add: aligned_to_def)
  moreover have "take_bit 3 (8 * i) = 0"
    using take_bit_push_bit [of 3 3 i] by (simp add: push_bit_eq_mult mult.commute)
  ultimately have "take_bit 3 (t + 8 * i) = 0"
    by (simp add: take_bit_add_aligned)
  then show ?thesis by (simp add: aligned8_def)
qed

lemma entry_eq_iff:
  assumes "aligned_to 12 t" "aligned_to 12 u" "unat i < 512" "unat j < 512"
  shows "t + 8 * i = u + 8 * j \<longleftrightarrow> t = u \<and> i = j"
proof
  have drop: "take_bit 12 (s + 8 * k) = 8 * k" if "aligned_to 12 s" "unat k < 512" for s k :: u64
  proof -
    have n: "unat (8 * k) = 8 * unat k" using that(2) by (simp add: unat_word_ariths)
    have "take_bit 12 (8 * k) = 8 * k"
      using that(2) n by (simp add: unat_less_iff_take_bit [symmetric])
    then show ?thesis using that(1) by (simp add: aligned_to_def take_bit_add_aligned)
  qed
  assume eq: "t + 8 * i = u + 8 * j"
  then have e8: "8 * i = 8 * j" using drop [OF assms(1,3)] drop [OF assms(2,4)] by simp
  then have "unat (8 * i) = unat (8 * j)" by simp
  then have "unat i = unat j" using assms(3,4) by (simp add: unat_word_ariths)
  then have "i = j" by (simp only: word_unat_eq_iff)
  with eq show "t = u \<and> i = j" by simp
qed simp

section \<open>Walks through tables with present, writable, user entries\<close>

text \<open>A table entry with the flags \<open>P\<close>, \<open>RW\<close>, \<open>US\<close> or-ed into the address of the next table.\<close>

lemma table_entry:
  assumes "aligned_to 12 t" "t < 2 ^ 52"
  shows "pte_frame 12 (t OR 7) = t" "pte_present (t OR 7)" "pte_writable (t OR 7)"
    "\<not> pte_huge (t OR 7)"
proof -
  have "drop_bit 12 (7::u64) = 0" by simp
  with assms show "pte_frame 12 (t OR 7) = t" by (rule pte_frame_or) simp
  show "pte_present (t OR 7)" "pte_writable (t OR 7)" "\<not> pte_huge (t OR 7)"
    using pte_bits_or [OF assms(1)]
    by (simp_all add: pte_present_def pte_writable_def pte_huge_def)
qed

text \<open>A 2MB page: the same flags and the page-size bit.\<close>

lemma huge_entry:
  assumes "aligned_to 21 b" "b < 2 ^ 52"
  shows "pte_frame 21 (b OR 0x87) = b" "pte_present (b OR 0x87)" "pte_writable (b OR 0x87)"
    "pte_huge (b OR 0x87)"
proof -
  have "drop_bit 21 (0x87::u64) = 0" by simp
  with assms show "pte_frame 21 (b OR 0x87) = b" by (rule pte_frame_or) simp
  show "pte_present (b OR 0x87)" "pte_writable (b OR 0x87)" "pte_huge (b OR 0x87)"
    using pte_bits_or [OF assms(1)]
    by (simp_all add: pte_present_def pte_writable_def pte_huge_def)
qed

lemma walk_2MB:
  assumes "canonical v"
    and "aligned_to 12 t4" "t4 < 2 ^ 52" "aligned_to 12 t3" "t3 < 2 ^ 52" "aligned_to 12 t2" "t2 < 2 ^ 52"
    and "aligned_to 21 b" "b < 2 ^ 52"
    and "read64 pm (t4 + 8 * pt_index 39 v) = Some (t3 OR 7)"
    and "read64 pm (t3 + 8 * pt_index 30 v) = Some (t2 OR 7)"
    and "read64 pm (t2 + 8 * pt_index 21 v) = Some (b OR 0x87)"
  shows "walk pm t4 v = Some (b + take_bit 21 v, True)"
proof -
  have "pte_frame 12 t4 = t4" using pte_frame_or [OF assms(2,3), of 0] by simp
  then show ?thesis
    using assms table_entry [OF assms(4,5)] table_entry [OF assms(6,7)] huge_entry [OF assms(8,9)]
    by (simp add: walk_def pt_entry_def)
qed

lemma walk_not_present:
  assumes "aligned_to 12 t4" "t4 < 2 ^ 52" "read64 pm (t4 + 8 * pt_index 39 v) = Some e"
    "\<not> pte_present e"
  shows "walk pm t4 v = None"
proof -
  have "pte_frame 12 t4 = t4" using pte_frame_or [OF assms(1,2), of 0] by simp
  then show ?thesis using assms(3,4) by (simp add: walk_def pt_entry_def)
qed

end
