(* ===== verification/External_Calls.thy ===== *)
theory External_Calls
  imports Toshokan_Prelude
begin

text \<open>
  Calls to code outside the repository: the system calls and stdio calls of hakase and the kernel
  functions of the FriendLoader module. The environment is a parameter that answers each call from
  the calls made so far; the model keeps that history, so what the program asks for, in which
  order, and what it still holds at the end are statements about its final history.
\<close>

section \<open>Histories\<close>

type_synonym ('c, 'a) history = "('c \<times> 'a) list"
type_synonym ('c, 'a) env = "('c, 'a) history \<Rightarrow> 'c \<Rightarrow> 'a"

definition call :: "('c, 'a) env \<Rightarrow> 'c \<Rightarrow> ('c, 'a) history \<Rightarrow> 'a \<times> ('c, 'a) history" where
  "call E c h = (let a = E h c in (a, h @ [(c, a)]))"

section \<open>The process environment of hakase\<close>

text \<open>
  A \<open>Mmap\<close> has the arguments of the call in its order: address, length, protection, flags, descriptor
  and offset. A \<open>Munmap\<close> carries the contents of the pages it gives back: the mapping is shared, so
  these are the contents of the device memory when the process has let go of it.
\<close>

datatype os_call =
    Open string
  | Close int
  | Read int nat
  | Fopen string
  | Fread int nat
  | Fclose int
  | Mmap addr u64 u32 u32 int u64
  | Munmap addr u64 mem
  | Print string

text \<open>
  An answer: an integer result (a descriptor, a count, or a negative error), an address, the
  bytes read, and the pages that appear in the address space.
\<close>

record os_ans =
  ret :: int
  ptr :: addr
  data :: string
  pages :: mem

definition PROT_READ :: u32 where "PROT_READ = 1"
definition PROT_WRITE :: u32 where "PROT_WRITE = 2"
definition PROT_EXEC :: u32 where "PROT_EXEC = 4"
definition MAP_SHARED :: u32 where "MAP_SHARED = 1"
definition MAP_FIXED :: u32 where "MAP_FIXED = 0x10"

definition MAP_FAILED :: addr where
  "MAP_FAILED = - 1"

record proc =
  pmem :: mem
  phist :: "(os_call, os_ans) history"

type_synonym os_env = "(os_call, os_ans) env"

fun os_effect :: "os_call \<Rightarrow> os_ans \<Rightarrow> mem \<Rightarrow> mem" where
  "os_effect (Mmap _ _ _ _ _ _) a m = (if ptr a = MAP_FAILED then m else m ++ pages a)"
| "os_effect (Munmap p n _) _ m = m |` (- region p (unat n))"
| "os_effect _ _ m = m"

definition os :: "os_env \<Rightarrow> os_call \<Rightarrow> proc \<Rightarrow> os_ans \<times> proc" where
  "os E c p = (let (a, h) = call E c (phist p) in
     (a, p\<lparr>pmem := os_effect c a (pmem p), phist := h\<rparr>))"

lemma os_simps [simp]:
  "fst (os E c p) = E (phist p) c"
  "pmem (snd (os E c p)) = os_effect c (E (phist p) c) (pmem p)"
  "phist (snd (os E c p)) = phist p @ [(c, E (phist p) c)]"
  by (simp_all add: os_def call_def Let_def)

text \<open>The descriptors a history has opened and not closed again.\<close>

fun fd_step :: "int set \<Rightarrow> os_call \<times> os_ans \<Rightarrow> int set" where
  "fd_step F (Open _, a) = (if ret a < 0 then F else insert (ret a) F)"
| "fd_step F (Close fd, _) = F - {fd}"
| "fd_step F _ = F"

definition open_fds :: "(os_call, os_ans) history \<Rightarrow> int set" where
  "open_fds h = foldl fd_step {} h"

lemma open_fds_append [simp]: "open_fds (h @ [c]) = fd_step (open_fds h) c"
  by (simp add: open_fds_def)

lemma open_fds_appends [simp]: "open_fds (h @ g) = foldl fd_step (open_fds h) g"
  by (simp add: open_fds_def)

end
