(* ===== verification/Loader16.thy ===== *)
theory Loader16
  imports Memory_Map Paging External_Calls
begin

text \<open>
  \<^verbatim>\<open>src/hakase/loader16.cc\<close>: the 16-bit boot code is copied to the trampoline together with the
  entry address, and the initial page tables are written. The theorems read the result through
  the page table walk of the processor that will be started on them.
\<close>

section \<open>InitPageTables\<close>

definition k256TB :: u64 where "k256TB = 256 * 1024 * 1024 * 1024 * 1024"
definition k512GB :: u64 where "k512GB = 512 * 1024 * 1024 * 1024"
definition k1GB :: u64 where "k1GB = 1024 * 1024 * 1024"
definition k2MB :: u64 where "k2MB = 2 * 1024 * 1024"

definition kPageTableEntryFlags :: u64 where
  "kPageTableEntryFlags = push_bit 0 1 OR push_bit 1 1 OR push_bit 2 1"

definition kHugePageTableEntryFlags :: u64 where
  "kHugePageTableEntryFlags = push_bit 0 1 OR push_bit 1 1 OR push_bit 2 1 OR push_bit 7 1"

text \<open>The address of \<open>entry[i]\<close> of a page, and a store to it.\<close>

definition page_entry :: "addr \<Rightarrow> u64 \<Rightarrow> addr" where
  "page_entry page i = page + 8 * i"

definition set_entry :: "mem \<Rightarrow> addr \<Rightarrow> u64 \<Rightarrow> u64 \<Rightarrow> mem option" where
  "set_entry m page i v = write64 m (page_entry page i) v"

text \<open>The symbols that hakase shares with the friend binary.\<close>

record page_symbols =
  toshokan_pdpt :: addr
  toshokan_pd1 :: addr
  toshokan_pd2 :: addr

function fill_pd2 :: "page_symbols \<Rightarrow> mem \<Rightarrow> u64 \<Rightarrow> mem option" where
  "fill_pd2 S m a = (if a < DEPLOY_PHYS_ADDR_END then do {
      m' \<leftarrow> set_entry m (toshokan_pd2 S) ((a mod k1GB) div k2MB) (a OR kHugePageTableEntryFlags);
      fill_pd2 S m' (a + k2MB) }
    else Some m)"
  by auto

termination
proof (relation "measure (\<lambda>(S, m, a). unat DEPLOY_PHYS_ADDR_END - unat a)")
  fix S :: page_symbols and m m' :: mem and a :: u64
  assume "a < DEPLOY_PHYS_ADDR_END"
  then have "unat a < unat DEPLOY_PHYS_ADDR_END" by (simp add: word_less_nat_alt)
  moreover from this have "unat (a + k2MB) = unat a + unat k2MB"
    by (simp add: unat_word_ariths k2MB_def DEPLOY_PHYS_ADDR_END_def)
  ultimately show "((S, m', a + k2MB), S, m, a) \<in> measure (\<lambda>(S, m, a). unat DEPLOY_PHYS_ADDR_END - unat a)"
    by (simp add: k2MB_def)
qed simp

declare fill_pd2.simps [simp del]

definition InitPageTables :: "page_symbols \<Rightarrow> mem \<Rightarrow> addr \<Rightarrow> mem option" where
  "InitPageTables S m pml4t = do {
     m \<leftarrow> set_entry m pml4t ((DEPLOY_PHYS_ADDR_START mod k256TB) div k512GB)
            (toshokan_pdpt S OR kPageTableEntryFlags);
     m \<leftarrow> set_entry m (toshokan_pdpt S) ((TRAMPOLINE_ADDR mod k512GB) div k1GB)
            (toshokan_pd1 S OR kPageTableEntryFlags);
     m \<leftarrow> set_entry m (toshokan_pdpt S) ((DEPLOY_PHYS_ADDR_START mod k512GB) div k1GB)
            (toshokan_pd2 S OR kPageTableEntryFlags);
     let trampoline_aligned_addr = (TRAMPOLINE_ADDR div k2MB) * k2MB;
     m \<leftarrow> set_entry m (toshokan_pd1 S) ((trampoline_aligned_addr mod k1GB) div k2MB)
            (trampoline_aligned_addr OR kHugePageTableEntryFlags);
     fill_pd2 S m DEPLOY_PHYS_ADDR_START }"

section \<open>Init\<close>

definition bootmem_path :: string where
  "bootmem_path = ''/dev/friend_bootmem'' @ TRAMPOLINE_ADDR_STR"

text \<open>\<open>bin\<close> and \<open>bin_size\<close> are the start and the size of the linked-in 16-bit binary.\<close>

definition Init :: "os_env \<Rightarrow> page_symbols \<Rightarrow> addr \<Rightarrow> u64 \<Rightarrow> u64 \<Rightarrow> proc \<Rightarrow> (int \<times> proc) option" where
  "Init E S bin bin_size entry p = (
     if bin_size > PAGE_SIZE then Some (- 1, p)
     else let (a, p) = os E (Open bootmem_path) p;
              bootmem_fd = ret a in
     if bootmem_fd < 0 then let (_, p) = os E (Print ''Open call failed'') p in Some (- 1, p)
     else let (a, p) = os E (Mmap 0 TRAMPOLINE_SIZE (PROT_READ OR PROT_WRITE) MAP_SHARED bootmem_fd 0) p;
              bootmem = ptr a in
     if bootmem = MAP_FAILED then let (_, p) = os E (Print ''mmap operation failed...'') p in Some (- 1, p)
     else let (_, p) = os E (Close bootmem_fd) p in do {
       m \<leftarrow> memcpy (unat bin_size) (pmem p) bootmem bin;
       m \<leftarrow> write64 m (bootmem + 8) entry;
       m \<leftarrow> InitPageTables S m (bootmem + PAGE_SIZE);
       let (_, p) = os E (Munmap bootmem TRAMPOLINE_SIZE (m |` region bootmem (unat TRAMPOLINE_SIZE)))
                      (p\<lparr>pmem := m\<rparr>);
       Some (0, p) })"

section \<open>The page table stores as one sequence\<close>

definition pd2_writes :: "page_symbols \<Rightarrow> nat \<Rightarrow> (addr \<times> u64) list" where
  "pd2_writes S i = map (\<lambda>k. (page_entry (toshokan_pd2 S) (of_nat k),
      (DEPLOY_PHYS_ADDR_START + of_nat k * k2MB) OR kHugePageTableEntryFlags)) [i..<512]"

definition table_writes :: "page_symbols \<Rightarrow> addr \<Rightarrow> (addr \<times> u64) list" where
  "table_writes S pml4t =
     [(page_entry pml4t 0, toshokan_pdpt S OR kPageTableEntryFlags),
      (page_entry (toshokan_pdpt S) 0, toshokan_pd1 S OR kPageTableEntryFlags),
      (page_entry (toshokan_pdpt S) 4, toshokan_pd2 S OR kPageTableEntryFlags),
      (page_entry (toshokan_pd1 S) 0, kHugePageTableEntryFlags)] @ pd2_writes S 0"

lemma unat_of_nat_small: "k < 512 \<Longrightarrow> unat (of_nat k :: u64) = k"
  by (simp add: unat_of_nat take_bit_nat_eq_self)

lemma unat_pd2_addr:
  "k \<le> 512 \<Longrightarrow> unat (DEPLOY_PHYS_ADDR_START + of_nat k * k2MB) = 0x100000000 + k * 0x200000"
  by (simp add: DEPLOY_PHYS_ADDR_START_def k2MB_def unat_word_ariths unat_of_nat take_bit_nat_eq_self)

lemma fill_pd2_writes:
  "k \<le> 512 \<Longrightarrow> fill_pd2 S m (DEPLOY_PHYS_ADDR_START + of_nat k * k2MB) =
     write_all write64 m (pd2_writes S k)"
proof (induction "512 - k" arbitrary: k m)
  case 0
  then have "\<not> DEPLOY_PHYS_ADDR_START + of_nat k * k2MB < DEPLOY_PHYS_ADDR_END"
    by (simp add: DEPLOY_PHYS_ADDR_START_def DEPLOY_PHYS_ADDR_END_def k2MB_def)
  with 0 show ?case by (subst fill_pd2.simps) (simp add: pd2_writes_def)
next
  case (Suc d)
  then have k: "k < 512" and d: "d = 512 - Suc k" by simp_all
  let ?a = "DEPLOY_PHYS_ADDR_START + of_nat k * k2MB"
  have un: "unat ?a = 0x100000000 + k * 0x200000" using k by (simp add: unat_pd2_addr)
  have lt: "?a < DEPLOY_PHYS_ADDR_END"
    using k un by (simp add: word_less_nat_alt) (simp add: DEPLOY_PHYS_ADDR_END_def)
  have sz: "unat k1GB = 0x40000000" "unat k2MB = 0x200000" by (simp_all add: k1GB_def k2MB_def)
  have "(0x100000000::nat) = 4 * 0x40000000" by simp
  then have "unat ((?a mod k1GB) div k2MB) = (k * 0x200000 + 4 * 0x40000000) mod 0x40000000 div 0x200000"
    by (simp only: unat_div unat_mod un sz add.commute)
  also have "\<dots> = (k * 0x200000) div 0x200000" using k by (simp only: mod_mult_self1) simp
  also have "\<dots> = k" by simp
  finally have ix: "(?a mod k1GB) div k2MB = of_nat k"
    by (simp only: word_unat_eq_iff unat_of_nat_small [OF k])
  have next_a: "?a + k2MB = DEPLOY_PHYS_ADDR_START + of_nat (Suc k) * k2MB"
    by (simp add: algebra_simps)
  have "[k..<512] = k # [Suc k..<512]" using k by (simp add: upt_conv_Cons)
  then have ws: "pd2_writes S k = (page_entry (toshokan_pd2 S) (of_nat k), ?a OR kHugePageTableEntryFlags)
      # pd2_writes S (Suc k)"
    by (simp add: pd2_writes_def)
  show ?case
    using lt k Suc.hyps(1) [OF d]
    by (subst fill_pd2.simps) (simp only: ix ws next_a set_entry_def write_all.simps fst_conv snd_conv if_True)
qed

lemma InitPageTables_writes: "InitPageTables S m pml4t = write_all write64 m (table_writes S pml4t)"
proof -
  have ix: "(DEPLOY_PHYS_ADDR_START mod k256TB) div k512GB = 0" "(TRAMPOLINE_ADDR mod k512GB) div k1GB = 0"
    "(DEPLOY_PHYS_ADDR_START mod k512GB) div k1GB = 4" "(TRAMPOLINE_ADDR div k2MB) * k2MB = 0"
    "(0::u64) mod k1GB div k2MB = 0"
    by (simp_all add: DEPLOY_PHYS_ADDR_START_def TRAMPOLINE_ADDR_def k256TB_def k512GB_def k1GB_def k2MB_def)
  have pd2: "fill_pd2 S m' DEPLOY_PHYS_ADDR_START = write_all write64 m' (pd2_writes S 0)" for m'
    using fill_pd2_writes [of 0 S m'] by simp
  show ?thesis
    by (simp add: InitPageTables_def table_writes_def ix pd2 set_entry_def)
qed

section \<open>What the tables translate\<close>

text \<open>
  The tables hakase and the friend share: pages of the friend's memory, all different from each
  other and from the page the PML4 is written to.
\<close>

definition tables_ok :: "page_symbols \<Rightarrow> addr \<Rightarrow> bool" where
  "tables_ok S pml4t \<longleftrightarrow>
     distinct [pml4t, toshokan_pdpt S, toshokan_pd1 S, toshokan_pd2 S] \<and>
     list_all (aligned_to 12) [pml4t, toshokan_pdpt S, toshokan_pd1 S, toshokan_pd2 S] \<and>
     list_all (\<lambda>t. DEPLOY_PHYS_ADDR_START \<le> t \<and> t < DEPLOY_PHYS_ADDR_END)
       [toshokan_pdpt S, toshokan_pd1 S, toshokan_pd2 S]"

lemma table_writes_aligned:
  assumes "tables_ok S pml4t"
  shows "\<forall>w \<in> set (table_writes S pml4t). aligned8 (fst w)"
proof -
  have "aligned_to 12 t \<Longrightarrow> aligned8 (page_entry t i)" for t i
    unfolding page_entry_def by (rule entry_aligned8)
  then show ?thesis using assms by (auto simp: tables_ok_def table_writes_def pd2_writes_def)
qed

lemma page_entry_eq_iff:
  assumes "aligned_to 12 t" "aligned_to 12 u" "unat i < 512" "unat j < 512"
  shows "page_entry t i = page_entry u j \<longleftrightarrow> t = u \<and> i = j"
  unfolding page_entry_def by (rule entry_eq_iff [OF assms])

lemma table_writes_distinct:
  assumes "tables_ok S pml4t"
  shows "distinct (map fst (table_writes S pml4t))"
proof -
  have k: "(of_nat k :: u64) = of_nat l \<longleftrightarrow> k = l" if "k < 512" "l < 512" for k l
    using that by (metis unat_of_nat_small)
  have "distinct (map fst (pd2_writes S 0))"
    using assms by (auto simp: pd2_writes_def distinct_map inj_on_def tables_ok_def
        page_entry_eq_iff unat_of_nat_small k)
  then show ?thesis
    using assms by (auto simp: tables_ok_def table_writes_def pd2_writes_def page_entry_eq_iff
        unat_of_nat_small)
qed

lemma table_reads:
  assumes ok: "tables_ok S pml4t" and init: "InitPageTables S m pml4t = Some m'"
  shows "read64 m' (page_entry pml4t 0) = Some (toshokan_pdpt S OR 7)"
    "read64 m' (page_entry (toshokan_pdpt S) 0) = Some (toshokan_pd1 S OR 7)"
    "read64 m' (page_entry (toshokan_pdpt S) 4) = Some (toshokan_pd2 S OR 7)"
    "read64 m' (page_entry (toshokan_pd1 S) 0) = Some (0 OR 0x87)"
    "k < 512 \<Longrightarrow> read64 m' (page_entry (toshokan_pd2 S) (of_nat k)) =
        Some ((DEPLOY_PHYS_ADDR_START + of_nat k * k2MB) OR 0x87)"
proof -
  have flags: "kPageTableEntryFlags = 7" "kHugePageTableEntryFlags = 0x87"
    by (simp_all add: kPageTableEntryFlags_def kHugePageTableEntryFlags_def)
  note rd = wm.rd_write_all_distinct [OF table_writes_aligned [OF ok] table_writes_distinct [OF ok]
      init [unfolded InitPageTables_writes]]
  show "read64 m' (page_entry pml4t 0) = Some (toshokan_pdpt S OR 7)"
    by (rule rd) (simp add: table_writes_def flags)
  show "read64 m' (page_entry (toshokan_pdpt S) 0) = Some (toshokan_pd1 S OR 7)"
    by (rule rd) (simp add: table_writes_def flags)
  show "read64 m' (page_entry (toshokan_pdpt S) 4) = Some (toshokan_pd2 S OR 7)"
    by (rule rd) (simp add: table_writes_def flags)
  show "read64 m' (page_entry (toshokan_pd1 S) 0) = Some (0 OR 0x87)"
    by (rule rd) (simp add: table_writes_def flags)
  show "read64 m' (page_entry (toshokan_pd2 S) (of_nat k)) =
        Some ((DEPLOY_PHYS_ADDR_START + of_nat k * k2MB) OR 0x87)" if "k < 512"
    using that by (intro rd) (auto simp: table_writes_def pd2_writes_def flags)
qed

text \<open>The indices of an address of the friend's memory, and of one of the first 2MB.\<close>

lemma unat_pt_index: "unat (pt_index n v) = unat v div 2 ^ n mod 512"
  unfolding pt_index_def unat_take_bit unat_drop_bit by simp

lemma deploy_index:
  assumes "v \<in> deploy_region"
  obtains k where "k < 512" "pt_index 39 v = 0" "pt_index 30 v = 4" "pt_index 21 v = of_nat k"
    "DEPLOY_PHYS_ADDR_START + of_nat k * k2MB + take_bit 21 v = v"
proof -
  define r where "r = unat v - 0x100000000"
  have v: "unat v = 0x100000000 + r" and r: "r < 0x40000000"
    using assms [unfolded in_deploy_region]
    by (auto simp: word_le_nat_alt word_less_nat_alt r_def
        DEPLOY_PHYS_ADDR_START_def DEPLOY_PHYS_ADDR_END_def)
  have "unat v div 2 ^ 39 = 0" using v r by simp
  then have i39: "pt_index 39 v = 0" by (simp add: word_unat_eq_iff unat_pt_index)
  have "unat v div 2 ^ 30 = (r + 4 * 0x40000000) div 0x40000000" using v by simp
  also have "\<dots> = 4" using r by simp
  finally have i30: "pt_index 30 v = 4" by (simp add: word_unat_eq_iff unat_pt_index)
  let ?k = "r div 0x200000"
  have k: "?k < 512" using r by (simp add: less_mult_imp_div_less)
  have "unat v div 2 ^ 21 = (r + 2048 * 0x200000) div 0x200000" using v by simp
  also have "\<dots> = ?k + 4 * 512" by simp
  finally have "unat (pt_index 21 v) = ?k" using k by (simp only: unat_pt_index mod_mult_self1) simp
  then have i21: "pt_index 21 v = of_nat ?k" by (simp only: word_unat_eq_iff unat_of_nat_small [OF k])
  have "unat (take_bit 21 v) = (r + 2048 * 0x200000) mod 0x200000"
    using v by (simp add: unat_take_bit add.commute)
  also have "\<dots> = r mod 0x200000" by (simp only: mod_mult_self1)
  finally have t: "unat (take_bit 21 v) = r mod 0x200000" .
  let ?b = "DEPLOY_PHYS_ADDR_START + of_nat ?k * k2MB"
  have b: "unat ?b = 0x100000000 + ?k * 0x200000" using k by (intro unat_pd2_addr) simp
  have "?k * 0x200000 + r mod 0x200000 = r" by (rule div_mult_mod_eq)
  then have "unat ?b + unat (take_bit 21 v) = unat v" using v t b by simp
  then have "unat (?b + take_bit 21 v) = unat v"
    using unat64_less [of v] by (simp add: unat_word_ariths)
  then have "?b + take_bit 21 v = v" by (simp only: word_unat_eq_iff)
  with k i39 i30 i21 show ?thesis by (rule that)
qed

lemma low_index:
  assumes "v < 0x200000"
  shows "pt_index 39 v = 0" "pt_index 30 v = 0" "pt_index 21 v = 0" "take_bit 21 v = v"
proof -
  have v: "unat v < 2 ^ 21" using assms by (simp add: word_less_nat_alt)
  then show "take_bit 21 v = v" by (simp only: unat_less_iff_take_bit)
  show "pt_index 39 v = 0" "pt_index 30 v = 0" "pt_index 21 v = 0"
    using v by (simp_all add: word_unat_eq_iff unat_pt_index)
qed

lemma boot_walk:
  assumes ok: "tables_ok S pml4t" and init: "InitPageTables S m pml4t = Some m'"
    and cr3: "read64 pm INITIAL_PML4T = read64 m' (page_entry pml4t 0)"
    and deploy: "\<And>t i. t \<in> {toshokan_pdpt S, toshokan_pd1 S, toshokan_pd2 S} \<Longrightarrow> unat i < 512 \<Longrightarrow>
        read64 pm (page_entry t i) = read64 m' (page_entry t i)"
  shows "v \<in> deploy_region \<Longrightarrow> walk pm INITIAL_PML4T v = Some (v, True)"
    and "v < 0x200000 \<Longrightarrow> walk pm INITIAL_PML4T v = Some (v, True)"
proof -
  note rd = table_reads [OF ok init]
  have sym: "toshokan_pdpt S \<in> deploy_region" "toshokan_pd1 S \<in> deploy_region"
    "toshokan_pd2 S \<in> deploy_region" "aligned_to 12 (toshokan_pdpt S)" "aligned_to 12 (toshokan_pd1 S)"
    "aligned_to 12 (toshokan_pd2 S)"
    using ok unfolding in_deploy_region by (simp_all add: tables_ok_def)
  have small: "t < 2 ^ 52" if "t \<in> deploy_region" for t
    using that [unfolded in_deploy_region] by (simp add: word_less_nat_alt DEPLOY_PHYS_ADDR_END_def)
  have less_47: "t < 2 ^ 47" if "t \<in> deploy_region" for t
    using that [unfolded in_deploy_region] by (simp add: word_less_nat_alt DEPLOY_PHYS_ADDR_END_def)
  have cr3_ok: "aligned_to 12 INITIAL_PML4T" "INITIAL_PML4T < 2 ^ 52"
    by (simp_all add: aligned_to_def INITIAL_PML4T_def TRAMPOLINE_ADDR_def PAGE_SIZE_def)
  have t: "read64 pm (INITIAL_PML4T + 8 * 0) = Some (toshokan_pdpt S OR 7)"
    "read64 pm (toshokan_pdpt S + 8 * 0) = Some (toshokan_pd1 S OR 7)"
    "read64 pm (toshokan_pdpt S + 8 * 4) = Some (toshokan_pd2 S OR 7)"
    "read64 pm (toshokan_pd1 S + 8 * 0) = Some (0 OR 0x87)"
    using rd(1) cr3 rd(2) deploy [of "toshokan_pdpt S" 0] rd(3) deploy [of "toshokan_pdpt S" 4]
      rd(4) deploy [of "toshokan_pd1 S" 0]
    unfolding page_entry_def by simp_all
  show "walk pm INITIAL_PML4T v = Some (v, True)" if d: "v \<in> deploy_region"
  proof -
    obtain k where k: "k < 512" "pt_index 39 v = 0" "pt_index 30 v = 4" "pt_index 21 v = of_nat k"
      and v: "DEPLOY_PHYS_ADDR_START + of_nat k * k2MB + take_bit 21 v = v"
      using d by (rule deploy_index)
    let ?b = "DEPLOY_PHYS_ADDR_START + of_nat k * k2MB"
    have un: "unat ?b = 0x100000000 + k * 0x200000" using k(1) by (intro unat_pd2_addr) simp
    have "unat (take_bit 21 ?b) = (2048 + k) * 0x200000 mod 0x200000"
      unfolding unat_take_bit un by (simp add: algebra_simps)
    then have al: "aligned_to 21 ?b" "?b < 2 ^ 52"
      using un k(1) by (simp_all add: aligned_to_def word_unat_eq_iff word_less_nat_alt del: mult_Suc)
    have "read64 pm (page_entry (toshokan_pd2 S) (of_nat k)) = Some (?b OR 0x87)"
      using rd(5) [OF k(1)] deploy [of "toshokan_pd2 S" "of_nat k"] k(1) by (simp add: unat_of_nat_small)
    then have "walk pm INITIAL_PML4T v = Some (?b + take_bit 21 v, True)"
      using t k sym small cr3_ok al less_47 [OF d]
      by (intro walk_2MB [of v INITIAL_PML4T "toshokan_pdpt S" "toshokan_pd2 S"] canonical_low)
        (simp_all add: page_entry_def)
    with v show ?thesis by simp
  qed
  show "walk pm INITIAL_PML4T v = Some (v, True)" if "v < 0x200000"
  proof -
    have "walk pm INITIAL_PML4T v = Some (0 + take_bit 21 v, True)"
      using t low_index [OF that] sym small cr3_ok that
      by (intro walk_2MB [of v INITIAL_PML4T "toshokan_pdpt S" "toshokan_pd1 S"] canonical_low)
        (simp_all add: aligned_to_def word_less_nat_alt)
    then show ?thesis using low_index(4) [OF that] by simp
  qed
qed

section \<open>The memory the friend boots on\<close>

text \<open>
  The physical memory a started processor sees after \<^verbatim>\<open>Init\<close>: the trampoline holds what was
  in the mapping of the boot memory device when it was given back, and the friend's memory is the
  mapping at the same address in hakase.
\<close>

definition boot_phys :: "mem \<Rightarrow> addr \<Rightarrow> mem \<Rightarrow> mem" where
  "boot_phys m bootmem boot = (\<lambda>a.
     if a \<in> trampoline_region then boot (bootmem + (a - TRAMPOLINE_ADDR))
     else if a \<in> deploy_region then m a else None)"

definition booted :: "proc \<Rightarrow> mem" where
  "booted p = (case last (phist p) of
      (Munmap b _ boot, _) \<Rightarrow> boot_phys (pmem p) b boot | _ \<Rightarrow> Map.empty)"

lemma boot_phys_trampoline:
  assumes "region a n \<subseteq> trampoline_region"
  shows "read_le n (boot_phys m b boot) a = read_le n boot (b + (a - TRAMPOLINE_ADDR))"
proof -
  have "read_le n (boot_phys m b boot) a = read_le n boot (a + (b - TRAMPOLINE_ADDR))"
    by (rule read_le_shift) (use assms in \<open>auto simp: boot_phys_def algebra_simps\<close>)
  then show ?thesis by (simp add: algebra_simps)
qed

lemma boot_phys_deploy:
  assumes "region a n \<subseteq> deploy_region"
  shows "read_le n (boot_phys m b boot) a = read_le n m a"
  by (rule read_le_cong) (use assms trampoline_deploy_disjoint in \<open>auto simp: boot_phys_def\<close>)

lemma deploy_entry_inside:
  assumes "t \<in> deploy_region" "aligned_to 12 t" "unat i < 512"
  shows "region (page_entry t i) 8 \<subseteq> deploy_region"
proof -
  have "unat t mod 4096 = 0" using assms(2) unat_take_bit [of 12 t] by (simp add: aligned_to_def)
  moreover have t: "0x100000000 \<le> unat t" "unat t < 0x140000000"
    using assms(1) [unfolded in_deploy_region]
    by (simp_all add: word_le_nat_alt word_less_nat_alt DEPLOY_PHYS_ADDR_START_def DEPLOY_PHYS_ADDR_END_def)
  ultimately obtain q where "unat t = 4096 * q" by auto
  with t have "unat t + 4096 \<le> 0x140000000" by simp
  moreover have "unat (page_entry t i) = unat t + 8 * unat i"
    using assms(3) t(2) by (simp add: page_entry_def unat_word_ariths)
  ultimately show ?thesis
    using t(1) assms(3) by (intro region_subset) (simp_all add: deploy_size DEPLOY_PHYS_ADDR_START_def)
qed

text \<open>
  What \<^verbatim>\<open>Init\<close> relies on. The device opens, and the mapping is a page-aligned range that is not
  in use; the 16-bit binary and the friend's memory are mapped.
\<close>

definition boot_dev :: os_call where
  "boot_dev = Open bootmem_path"

abbreviation boot_map :: "int \<Rightarrow> os_call" where
  "boot_map fd \<equiv> Mmap 0 TRAMPOLINE_SIZE (PROT_READ OR PROT_WRITE) MAP_SHARED fd 0"

definition bootmem_of :: "os_env \<Rightarrow> proc \<Rightarrow> os_ans" where
  "bootmem_of E p = (let a = E (phist p) boot_dev in
     E (phist p @ [(boot_dev, a)]) (boot_map (ret a)))"

definition bootmem_maps :: "os_env \<Rightarrow> proc \<Rightarrow> bool" where
  "bootmem_maps E p \<longleftrightarrow> 0 \<le> ret (E (phist p) boot_dev) \<and>
     (let b = bootmem_of E p in
        ptr b \<noteq> MAP_FAILED \<and> aligned_to 12 (ptr b) \<and> dom (pages b) = region (ptr b) 0x2000 \<and>
        region (ptr b) 0x2000 \<inter> dom (pmem p) = {})"

definition symbols_ok :: "page_symbols \<Rightarrow> bool" where
  "symbols_ok S \<longleftrightarrow> distinct [toshokan_pdpt S, toshokan_pd1 S, toshokan_pd2 S] \<and>
     list_all (\<lambda>t. aligned_to 12 t \<and> DEPLOY_PHYS_ADDR_START \<le> t \<and> t < DEPLOY_PHYS_ADDR_END)
       [toshokan_pdpt S, toshokan_pd1 S, toshokan_pd2 S]"

lemma aligned_add_page: "aligned_to 12 b \<Longrightarrow> aligned_to 12 (b + PAGE_SIZE)"
  by (simp add: aligned_to_def take_bit_add_aligned PAGE_SIZE_def)

lemma tables_ok_outside:
  assumes "symbols_ok S" "aligned_to 12 t" "t \<notin> deploy_region"
  shows "tables_ok S t"
proof -
  have "t \<noteq> u" if "DEPLOY_PHYS_ADDR_START \<le> u \<and> u < DEPLOY_PHYS_ADDR_END" for u
    using assms(3) that unfolding in_deploy_region by blast
  then show ?thesis using assms(1,2) by (simp add: tables_ok_def symbols_ok_def)
qed

lemma trampoline_size: "unat TRAMPOLINE_SIZE = 0x2000"
  by (simp add: TRAMPOLINE_SIZE_def)

lemma bootmem_parts:
  "region b 0x1000 \<subseteq> region b 0x2000" "region (b + 8) 8 \<subseteq> region b 0x1000"
  "region (b + PAGE_SIZE) 0x1000 \<subseteq> region b 0x2000"
  by (simp_all add: region_mono region_shift PAGE_SIZE_def)

text \<open>The pages of the friend's memory that hold the three lower tables.\<close>

definition table_pages :: "page_symbols \<Rightarrow> addr set" where
  "table_pages S = region (toshokan_pdpt S) 0x1000 \<union> region (toshokan_pd1 S) 0x1000 \<union>
     region (toshokan_pd2 S) 0x1000"

lemma page_entry_region: "unat i < 512 \<Longrightarrow> region (page_entry t i) 8 \<subseteq> region t 0x1000"
  unfolding page_entry_def by (intro region_shift) (simp add: unat_word_ariths)

lemma table_pages_deploy:
  assumes "tables_ok S pml4t"
  shows "table_pages S \<subseteq> deploy_region"
proof -
  have "region t 0x1000 \<subseteq> deploy_region" if "aligned_to 12 t" "t \<in> deploy_region" for t
  proof -
    have "unat t mod 4096 = 0" using that(1) unat_take_bit [of 12 t] by (simp add: aligned_to_def)
    moreover have t: "0x100000000 \<le> unat t" "unat t < 0x140000000"
      using that(2) [unfolded in_deploy_region]
      by (simp_all add: word_le_nat_alt word_less_nat_alt DEPLOY_PHYS_ADDR_START_def DEPLOY_PHYS_ADDR_END_def)
    ultimately obtain q where "unat t = 4096 * q" by auto
    with t have "unat t + 4096 \<le> 0x140000000" by simp
    then show ?thesis using t(1)
      by (intro region_subset) (simp_all add: deploy_size DEPLOY_PHYS_ADDR_START_def)
  qed
  moreover have "t \<in> deploy_region" if "t \<in> {toshokan_pdpt S, toshokan_pd1 S, toshokan_pd2 S}" for t
    using assms that unfolding in_deploy_region by (auto simp: tables_ok_def)
  ultimately show ?thesis using assms by (simp add: table_pages_def tables_ok_def)
qed

lemma table_writes_pages:
  assumes "w \<in> set (table_writes S pml4t)"
  shows "region (fst w) 8 \<subseteq> region pml4t 0x1000 \<union> table_pages S"
proof -
  have "\<forall>w \<in> set (table_writes S pml4t). \<exists>t i. fst w = page_entry t i \<and> unat i < 512 \<and>
      t \<in> {pml4t, toshokan_pdpt S, toshokan_pd1 S, toshokan_pd2 S}"
    by (auto simp: table_writes_def pd2_writes_def unat_of_nat_small intro!: exI)
  with assms obtain t i where "fst w = page_entry t i" "unat i < 512"
    "t \<in> {pml4t, toshokan_pdpt S, toshokan_pd1 S, toshokan_pd2 S}" by blast
  then show ?thesis using page_entry_region [of i t] by (auto simp: table_pages_def)
qed

lemma InitPageTables_defined:
  assumes ok: "tables_ok S pml4t" and "region pml4t 0x1000 \<subseteq> dom m" "deploy_region \<subseteq> dom m"
  shows "\<exists>m'. InitPageTables S m pml4t = Some m'"
proof -
  have "read64 m (fst w) \<noteq> None" if "w \<in> set (table_writes S pml4t)" for w
  proof -
    have "region (fst w) 8 \<subseteq> dom m"
      using table_writes_pages [OF that] table_pages_deploy [OF ok] assms(2,3) by blast
    then show ?thesis using read_le_defined by fastforce
  qed
  then show ?thesis
    unfolding InitPageTables_writes by (intro wm.write_all_defined table_writes_aligned [OF ok]) blast
qed

lemma InitPageTables_frame:
  assumes "InitPageTables S m pml4t = Some m'" "x \<notin> region pml4t 0x1000" "x \<notin> table_pages S"
  shows "m' x = m x"
  using assms(1) unfolding InitPageTables_writes
  by (rule write_all_frame) (use table_writes_pages assms(2,3) in blast)

lemma os_effect_boot_dev: "os_effect boot_dev a m = m"
  by (simp add: boot_dev_def)

lemma Init_run:
  fixes E p
  defines "b \<equiv> ptr (bootmem_of E p)" and "m0 \<equiv> pmem p ++ pages (bootmem_of E p)"
  assumes maps: "bootmem_maps E p" and S: "symbols_ok S" and deploy: "deploy_region \<subseteq> dom (pmem p)"
    and bin: "region bin (unat bin_size) \<subseteq> dom (pmem p)" and sz: "bin_size \<le> PAGE_SIZE"
  obtains m1 m2 m3 p' where
    "memcpy (unat bin_size) m0 b bin = Some m1" "write64 m1 (b + 8) ent = Some m2"
    "InitPageTables S m2 (b + PAGE_SIZE) = Some m3" "Init E S bin bin_size ent p = Some (0, p')"
    "pmem p' = m3 |` (- region b 0x2000)"
    "\<And>m. booted (p'\<lparr>pmem := m\<rparr>) = boot_phys m b (m3 |` region b 0x2000)" "tables_ok S (b + PAGE_SIZE)"
proof -
  have fd: "\<not> ret (E (phist p) boot_dev) < 0" and nf: "b \<noteq> MAP_FAILED" and al: "aligned_to 12 b"
    and pages: "dom (pages (bootmem_of E p)) = region b 0x2000"
    and free: "region b 0x2000 \<inter> dom (pmem p) = {}"
    using maps by (auto simp: bootmem_maps_def b_def Let_def)
  have dom0: "dom m0 = region b 0x2000 \<union> dom (pmem p)" using pages by (simp add: m0_def Un_commute)
  have n: "unat bin_size \<le> 0x1000" using sz by (simp add: word_le_nat_alt PAGE_SIZE_def)
  have "region b (unat bin_size) \<subseteq> dom m0"
    using region_mono [OF n, of b] bootmem_parts(1) [of b] dom0 by blast
  then obtain m1 where m1: "memcpy (unat bin_size) m0 b bin = Some m1"
    using memcpy_defined [of b "unat bin_size" m0 bin] bin dom0 by blast
  then have dom1: "dom m1 = dom m0" by (rule memcpy_dom)
  have "region (b + 8) 8 \<subseteq> dom m1" using bootmem_parts dom0 dom1 by blast
  then obtain m2 where m2: "write64 m1 (b + 8) ent = Some m2" using write_le_defined by blast
  then have dom2: "dom m2 = dom m0" using write_le_dom dom1 by simp
  have "b + PAGE_SIZE \<in> region b 0x2000" by (simp add: in_region_iff PAGE_SIZE_def)
  then have tables: "tables_ok S (b + PAGE_SIZE)"
    using free deploy by (intro tables_ok_outside S aligned_add_page al) blast
  then obtain m3 where m3: "InitPageTables S m2 (b + PAGE_SIZE) = Some m3"
    using InitPageTables_defined [OF tables, of m2] bootmem_parts(3) [of b] dom0 dom2 deploy by blast
  let ?h = "phist p @ [(boot_dev, E (phist p) boot_dev)]"
  have mm: "E ?h (boot_map (ret (E (phist p) boot_dev))) = bootmem_of E p"
    by (simp add: bootmem_of_def Let_def)
  show ?thesis
  proof (rule that [OF m1 m2 m3 _ _ _ tables])
    show "Init E S bin bin_size ent p = Some (0,
        snd (os E (Munmap b TRAMPOLINE_SIZE (m3 |` region b 0x2000)) ((snd (os E
          (Close (ret (E (phist p) boot_dev))) (snd (os E (boot_map
            (ret (E (phist p) boot_dev))) (snd (os E boot_dev p))))))\<lparr>pmem := m3\<rparr>)))"
      using fd nf sz m1 m2 m3 mm
      by (simp add: Init_def Let_def case_prod_unfold boot_dev_def [symmetric] b_def m0_def
          trampoline_size os_effect_boot_dev not_less)
  qed (simp_all add: booted_def trampoline_size)
qed

lemma bootmem_pages_disjoint: "region b 0x1000 \<inter> region (b + PAGE_SIZE) 0x1000 = {}"
proof -
  have "unat (y - PAGE_SIZE) \<ge> 0x1000" if "unat y < 0x1000" for y :: addr
    using that unat_sub_if' [of y PAGE_SIZE] by (simp add: PAGE_SIZE_def word_le_nat_alt)
  moreover have "x - (b + PAGE_SIZE) = (x - b) - PAGE_SIZE" for x by simp
  ultimately have "unat (x - (b + PAGE_SIZE)) \<ge> 0x1000" if "unat (x - b) < 0x1000" for x
    using that by (simp only:)
  then show ?thesis by (force simp: in_region_iff)
qed

text \<open>
  Reads of the booted memory: in the trampoline they see the mapping, in the friend's memory they
  see hakase's memory.
\<close>

lemma booted_trampoline:
  assumes "booted p' = boot_phys m b (m3 |` region b 0x2000)" "x \<in> trampoline_region"
  shows "booted p' x = m3 (b + (x - TRAMPOLINE_ADDR))"
  using assms by (simp add: boot_phys_def in_region_iff trampoline_size)

lemma booted_trampoline_read:
  assumes boot: "booted p' = boot_phys m b (m3 |` region b 0x2000)" and "unat k + n \<le> 0x2000"
  shows "read_le n (booted p') (TRAMPOLINE_ADDR + k) = read_le n m3 (b + k)"
proof -
  have "read_le n (booted p') (TRAMPOLINE_ADDR + k) = read_le n m3 (TRAMPOLINE_ADDR + k + (b - TRAMPOLINE_ADDR))"
  proof (rule read_le_shift)
    fix x assume "x \<in> region (TRAMPOLINE_ADDR + k) n"
    moreover have "region (TRAMPOLINE_ADDR + k) n \<subseteq> trampoline_region"
      using assms(2) by (intro region_shift) (simp add: trampoline_size)
    ultimately show "booted p' x = m3 (x + (b - TRAMPOLINE_ADDR))"
      using booted_trampoline [OF boot, of x] by (simp add: algebra_simps subset_iff)
  qed
  then show ?thesis by (simp add: algebra_simps)
qed

lemma booted_table_read:
  assumes "booted p' = boot_phys m b boot" "tables_ok S pml4t" "\<And>x. x \<in> table_pages S \<Longrightarrow> m x = m3 x"
    "t \<in> {toshokan_pdpt S, toshokan_pd1 S, toshokan_pd2 S}" "unat i < 512"
  shows "read64 (booted p') (page_entry t i) = read64 m3 (page_entry t i)"
proof (rule read_le_cong)
  fix x assume "x \<in> region (page_entry t i) 8"
  then have x: "x \<in> table_pages S" using page_entry_region [OF assms(5), of t] assms(4) by (auto simp: table_pages_def)
  then have "x \<in> deploy_region" using table_pages_deploy [OF assms(2)] by blast
  moreover from this have "x \<notin> trampoline_region" using trampoline_deploy_disjoint by blast
  ultimately show "booted p' x = m3 x" using assms(3) [OF x] by (simp add: assms(1) boot_phys_def)
qed

text \<open>The bytes the two stores of \<^verbatim>\<open>Init\<close> leave in the first page of the mapping.\<close>

lemma copied_code:
  assumes m1: "memcpy n (m ++ pg) b bin = Some m1" and m2: "write64 m1 (b + 8) ent = Some m2"
    and n: "n \<le> 0x1000" and pg: "dom pg = region b 0x2000" "region b 0x2000 \<inter> dom m = {}"
    and bin: "region bin n \<subseteq> dom m" and y: "y \<in> region b n" "y \<notin> region (b + 8) 8"
  shows "m2 y = m (bin + (y - b))"
proof -
  have "region b n \<inter> region bin n = {}"
    using pg bin region_mono [OF n, of b] bootmem_parts(1) [of b] by blast
  then have "m1 y = (m ++ pg) (bin + (y - b))" using y(1) n by (intro memcpy_value [OF m1]) simp_all
  moreover have "bin + (y - b) \<in> region bin n" using y(1) by (simp add: in_region_iff)
  then have "bin + (y - b) \<notin> dom pg" using bin pg by blast
  moreover have "m2 y = m1 y" using m2 y(2) by (rule write_le_frame)
  ultimately show ?thesis by (simp add: map_add_dom_app_simps)
qed

text \<open>
  What a started processor needs: the entry address, the boot code, and page tables in which the
  friend's memory and the first 2MB are mapped to themselves.
\<close>

definition boot_ready :: "u64 \<Rightarrow> mem \<Rightarrow> addr \<Rightarrow> nat \<Rightarrow> mem \<Rightarrow> bool" where
  "boot_ready ent m bin n pm \<longleftrightarrow> read64 pm (TRAMPOLINE_ADDR + 8) = Some ent \<and>
     (\<forall>x \<in> region TRAMPOLINE_ADDR n - region (TRAMPOLINE_ADDR + 8) 8. pm x = m (bin + (x - TRAMPOLINE_ADDR))) \<and>
     (\<forall>v \<in> deploy_region. walk pm INITIAL_PML4T v = Some (v, True)) \<and>
     (\<forall>v. v < 0x200000 \<longrightarrow> walk pm INITIAL_PML4T v = Some (v, True))"

text \<open>
  The core of the correctness of \<^verbatim>\<open>Init\<close>: the trampoline is ready, and stays so as long as the
  pages of the tables are not written to.
\<close>

lemma Init_ready:
  assumes maps: "bootmem_maps E p" and S: "symbols_ok S" and deploy: "deploy_region \<subseteq> dom (pmem p)"
    and bin: "region bin (unat bin_size) \<subseteq> dom (pmem p)" and sz: "bin_size \<le> PAGE_SIZE"
  obtains p' where "Init E S bin bin_size ent p = Some (0, p')" "dom (pmem p') = dom (pmem p)"
    "\<forall>x. x \<notin> table_pages S \<longrightarrow> pmem p' x = pmem p x"
    "\<forall>m. (\<forall>x \<in> table_pages S. m x = pmem p' x) \<longrightarrow>
       boot_ready ent (pmem p) bin (unat bin_size) (booted (p'\<lparr>pmem := m\<rparr>))"
    "\<forall>m. \<forall>x \<in> deploy_region. booted (p'\<lparr>pmem := m\<rparr>) x = m x"
proof -
  define b where "b = ptr (bootmem_of E p)"
  have free: "region b 0x2000 \<inter> dom (pmem p) = {}" and pages: "dom (pages (bootmem_of E p)) = region b 0x2000"
    using maps by (auto simp: bootmem_maps_def b_def Let_def)
  obtain m1 m2 m3 p' where m1: "memcpy (unat bin_size) (pmem p ++ pages (bootmem_of E p)) b bin = Some m1"
    and m2: "write64 m1 (b + 8) ent = Some m2" and m3: "InitPageTables S m2 (b + PAGE_SIZE) = Some m3"
    and run: "Init E S bin bin_size ent p = Some (0, p')" and mem: "pmem p' = m3 |` (- region b 0x2000)"
    and boot: "\<And>m. booted (p'\<lparr>pmem := m\<rparr>) = boot_phys m b (m3 |` region b 0x2000)"
    and tables: "tables_ok S (b + PAGE_SIZE)"
    using Init_run [OF assms, where ent = ent] unfolding b_def by metis
  have n: "unat bin_size \<le> 0x1000" using sz by (simp add: word_le_nat_alt PAGE_SIZE_def)
  have doms: "dom m1 = region b 0x2000 \<union> dom (pmem p)" "dom m2 = dom m1" "dom m3 = dom m2"
    using memcpy_dom [OF m1] write_le_dom [OF m2] write_all_dom [OF m3 [unfolded InitPageTables_writes]] pages
    by auto
  have pages_b: "table_pages S \<inter> region b 0x2000 = {}"
    using table_pages_deploy [OF tables] free deploy by blast
  have keep: "m3 x = m2 x" if "x \<in> region b 0x1000" for x
    using that bootmem_pages_disjoint [of b] bootmem_parts(1) [of b] pages_b
    by (intro InitPageTables_frame [OF m3]) blast+
  have frame: "pmem p' x = pmem p x" if x: "x \<notin> table_pages S" for x
  proof (cases "x \<in> region b 0x2000")
    case True
    then have "x \<notin> dom (pmem p)" using free by blast
    then show ?thesis using True mem by (simp add: domIff)
  next
    case False
    then have "x \<notin> region (b + PAGE_SIZE) 0x1000" "x \<notin> region b (unat bin_size)" "x \<notin> region (b + 8) 8"
      using bootmem_parts [of b] region_mono [OF n, of b] by blast+
    then have "m3 x = (pmem p ++ pages (bootmem_of E p)) x"
      using InitPageTables_frame [OF m3 _ x] write_le_frame [OF m2] memcpy_frame [OF m1] by simp
    then show ?thesis using False pages mem by (simp add: map_add_dom_app_simps)
  qed
  show ?thesis
  proof (rule that [OF run], goal_cases)
    case 1
    show ?case using mem doms free by auto
  next
    case 2
    show ?case using frame by blast
  next
    case 3
    show ?case
    proof (intro allI impI)
    fix m assume m: "\<forall>x \<in> table_pages S. m x = pmem p' x"
    let ?q = "p'\<lparr>pmem := m\<rparr>"
    have "read64 (booted ?q) (TRAMPOLINE_ADDR + 8) = read64 m2 (b + 8)"
      using booted_trampoline_read [OF boot, of 8 8] read_le_cong [of "b + 8" 8 m3 m2] keep
        bootmem_parts(2) [of b] by auto
    also have "\<dots> = Some ent" using m2 by (rule read64_write64_same)
    finally have ent: "read64 (booted ?q) (TRAMPOLINE_ADDR + 8) = Some ent" .
    have code: "booted ?q x = pmem p (bin + (x - TRAMPOLINE_ADDR))"
      if x: "x \<in> region TRAMPOLINE_ADDR (unat bin_size) - region (TRAMPOLINE_ADDR + 8) 8" for x
    proof -
      let ?y = "b + (x - TRAMPOLINE_ADDR)"
      have y: "?y \<in> region b (unat bin_size)" "?y \<notin> region (b + 8) 8"
        using x by (simp_all add: in_region_iff algebra_simps)
      have "booted ?q x = m2 ?y"
        using x n keep [of ?y] booted_trampoline [OF boot, of x] by (simp add: in_region_iff trampoline_size)
      then show ?thesis using copied_code [OF m1 m2 n pages free bin y] by simp
    qed
    have cr3: "read64 (booted ?q) INITIAL_PML4T = read64 m3 (page_entry (b + PAGE_SIZE) 0)"
      using booted_trampoline_read [OF boot, of PAGE_SIZE 8]
      by (simp add: page_entry_def INITIAL_PML4T_def PAGE_SIZE_def)
    have "m x = m3 x" if "x \<in> table_pages S" for x
      using m mem that pages_b by (auto simp: restrict_map_def)
    note same = booted_table_read [OF boot tables this]
    show "boot_ready ent (pmem p) bin (unat bin_size) (booted ?q)"
      unfolding boot_ready_def using ent code boot_walk [OF tables m3 cr3 same] by blast
    qed
  next
    case 4
    show ?case unfolding boot using trampoline_deploy_disjoint by (auto simp: boot_phys_def)
  qed
qed

text \<open>
  C6: When the boot memory device can be mapped and the 16-bit binary fits in a page, Init returns
  0 and the memory the processors boot on is complete: the trampoline holds the binary (with bytes
  8 to 15 replaced), the entry address is in the slot that the boot code jumps through, and in the
  page tables that the boot code loads every address of the friend's memory and of the first 2MB
  translates to itself, writable.
\<close>

theorem Init_boots:
  assumes maps: "bootmem_maps E p" and S: "symbols_ok S" and deploy: "deploy_region \<subseteq> dom (pmem p)"
    and bin: "region bin (unat bin_size) \<subseteq> dom (pmem p)" and sz: "bin_size \<le> PAGE_SIZE"
  shows "\<exists>p'. Init E S bin bin_size ent p = Some (0, p') \<and>
     read64 (booted p') (TRAMPOLINE_ADDR + 8) = Some ent \<and>
     (\<forall>x \<in> region TRAMPOLINE_ADDR (unat bin_size) - region (TRAMPOLINE_ADDR + 8) 8.
        booted p' x = pmem p (bin + (x - TRAMPOLINE_ADDR))) \<and>
     (\<forall>v \<in> deploy_region. walk (booted p') INITIAL_PML4T v = Some (v, True)) \<and>
     (\<forall>v. v < 0x200000 \<longrightarrow> walk (booted p') INITIAL_PML4T v = Some (v, True))"
proof -
  obtain p' where run: "Init E S bin bin_size ent p = Some (0, p')"
    and ready: "\<forall>m. (\<forall>x \<in> table_pages S. m x = pmem p' x) \<longrightarrow>
       boot_ready ent (pmem p) bin (unat bin_size) (booted (p'\<lparr>pmem := m\<rparr>))"
    by (rule Init_ready [OF assms]) (rule that)
  from ready [rule_format, of "pmem p'"] run show ?thesis by (simp add: boot_ready_def)
qed

text \<open>A process with the friend's memory and a 16-byte binary mapped, and a kernel that serves it.\<close>

definition demo_symbols :: page_symbols where
  "demo_symbols = \<lparr>toshokan_pdpt = 0x100001000, toshokan_pd1 = 0x100002000, toshokan_pd2 = 0x100003000\<rparr>"

definition demo_proc :: proc where
  "demo_proc = \<lparr>pmem = (\<lambda>x. if x \<in> deploy_region \<or> x \<in> region 0x10000 16 then Some 0 else None), phist = []\<rparr>"

definition demo_env :: os_env where
  "demo_env h c = (case c of
      Mmap _ _ _ _ _ _ \<Rightarrow> \<lparr>ret = 0, ptr = 0x7f0000000000, data = [],
        pages = (\<lambda>x. if x \<in> region 0x7f0000000000 0x2000 then Some 0 else None)\<rparr>
    | _ \<Rightarrow> \<lparr>ret = 3, ptr = 0, data = [], pages = Map.empty\<rparr>)"

lemma demo_maps: "bootmem_maps demo_env demo_proc"
proof -
  have "region 0x7f0000000000 0x2000 \<inter> deploy_region = {}"
    by (subst Int_commute, rule region_disjoint) (simp_all add: deploy_size DEPLOY_PHYS_ADDR_START_def)
  moreover have "region 0x7f0000000000 0x2000 \<inter> region 0x10000 16 = {}"
    by (subst Int_commute, rule region_disjoint) simp_all
  moreover have "dom (pmem demo_proc) = deploy_region \<union> region 0x10000 16"
    by (auto simp: demo_proc_def dom_def)
  moreover have b: "bootmem_of demo_env demo_proc = \<lparr>ret = 0, ptr = 0x7f0000000000, data = [],
        pages = (\<lambda>x. if x \<in> region 0x7f0000000000 0x2000 then Some 0 else None)\<rparr>"
    by (simp add: bootmem_of_def demo_env_def Let_def)
  ultimately show ?thesis
    unfolding bootmem_maps_def b Let_def
    by (simp add: Int_Un_distrib) (simp add: demo_env_def boot_dev_def MAP_FAILED_def aligned_to_def dom_def)
qed

theorem Init_boots_witness:
  "\<exists>p'. Init demo_env demo_symbols 0x10000 16 0x100004000 demo_proc = Some (0, p') \<and>
     read64 (booted p') 0x70008 = Some 0x100004000 \<and>
     walk (booted p') INITIAL_PML4T 0x100002345 = Some (0x100002345, True)"
proof -
  have "symbols_ok demo_symbols"
    by (simp add: symbols_ok_def demo_symbols_def aligned_to_def DEPLOY_PHYS_ADDR_START_def DEPLOY_PHYS_ADDR_END_def)
  moreover have "deploy_region \<subseteq> dom (pmem demo_proc)" "region 0x10000 (unat (16 :: u64)) \<subseteq> dom (pmem demo_proc)"
    by (auto simp: demo_proc_def dom_def)
  moreover have "(16::u64) \<le> PAGE_SIZE" by (simp add: PAGE_SIZE_def)
  moreover have "0x100002345 \<in> deploy_region"
    unfolding in_deploy_region by (simp add: DEPLOY_PHYS_ADDR_START_def DEPLOY_PHYS_ADDR_END_def)
  moreover have "TRAMPOLINE_ADDR + 8 = 0x70008" by (simp add: TRAMPOLINE_ADDR_def)
  ultimately show ?thesis
    using Init_boots [OF demo_maps, of demo_symbols "0x10000" 16 "0x100004000"] by metis
qed

text \<open>The system calls of a successful run.\<close>

lemma Init_calls:
  assumes "Init E S bin bin_size ent p = Some (0, p')"
  obtains a b c d m where "phist p' = phist p @ [(Open bootmem_path, a), (boot_map (ret a), b), (Close (ret a), c),
      (Munmap (ptr b) TRAMPOLINE_SIZE m, d)]"
proof -
  let ?o = "snd (os E (Open bootmem_path) p)" and ?a = "E (phist p) (Open bootmem_path)"
  let ?m = "snd (os E (boot_map (ret ?a)) ?o)" and ?b = "E (phist ?o) (boot_map (ret ?a))"
  let ?c = "snd (os E (Close (ret ?a)) ?m)"
  from assms obtain m r where "p' = snd (os E (Munmap (ptr ?b) TRAMPOLINE_SIZE r) (?c\<lparr>pmem := m\<rparr>))"
    by (auto simp: Init_def Let_def case_prod_unfold bind_eq_Some_conv split: if_splits)
  then show ?thesis by (intro that) simp
qed

text \<open>
  C14: Init fails with -1 and leaves the memory alone when the binary is larger than a page (nothing
  is called), when the device does not open, and when the mapping fails; in the last case the
  descriptor of the device stays open.
\<close>

theorem Init_errors:
  "(PAGE_SIZE < bin_size \<longrightarrow> Init E S bin bin_size ent p = Some (- 1, p)) \<and>
   (bin_size \<le> PAGE_SIZE \<and> ret (E (phist p) boot_dev) < 0 \<longrightarrow>
      (\<exists>p'. Init E S bin bin_size ent p = Some (- 1, p') \<and> pmem p' = pmem p \<and>
        open_fds (phist p') = open_fds (phist p))) \<and>
   (bin_size \<le> PAGE_SIZE \<and> 0 \<le> ret (E (phist p) boot_dev) \<and> ptr (bootmem_of E p) = MAP_FAILED \<longrightarrow>
      (\<exists>p'. Init E S bin bin_size ent p = Some (- 1, p') \<and> pmem p' = pmem p \<and>
        open_fds (phist p') = insert (ret (E (phist p) boot_dev)) (open_fds (phist p))))"
proof (intro conjI impI)
  assume "PAGE_SIZE < bin_size"
  then show "Init E S bin bin_size ent p = Some (- 1, p)" by (simp add: Init_def)
next
  assume "bin_size \<le> PAGE_SIZE \<and> ret (E (phist p) boot_dev) < 0"
  then have "Init E S bin bin_size ent p = Some (- 1, snd (os E (Print ''Open call failed'') (snd (os E boot_dev p))))"
    "open_fds (phist p @ [(boot_dev, E (phist p) boot_dev)]) = open_fds (phist p)"
    by (auto simp: Init_def Let_def case_prod_unfold boot_dev_def)
  then show "\<exists>p'. Init E S bin bin_size ent p = Some (- 1, p') \<and> pmem p' = pmem p \<and>
      open_fds (phist p') = open_fds (phist p)"
    by (simp add: os_effect_boot_dev)
next
  let ?fd = "ret (E (phist p) boot_dev)"
  let ?h = "phist p @ [(boot_dev, E (phist p) boot_dev)]"
  let ?q = "snd (os E (Print ''mmap operation failed...'') (snd (os E (boot_map ?fd) (snd (os E boot_dev p)))))"
  assume a: "bin_size \<le> PAGE_SIZE \<and> 0 \<le> ?fd \<and> ptr (bootmem_of E p) = MAP_FAILED"
  then have mm: "ptr (E (phist p @ [(boot_dev, E (phist p) boot_dev)]) (boot_map ?fd)) = MAP_FAILED"
    by (simp add: bootmem_of_def Let_def)
  have "Init E S bin bin_size ent p = Some (- 1, ?q)" using a mm
    by (auto simp: Init_def Let_def case_prod_unfold boot_dev_def [symmetric])
  moreover have "pmem ?q = pmem p" using mm by (simp add: os_effect_boot_dev)
  moreover have "open_fds (phist ?q) = insert ?fd (open_fds (phist p))"
  proof -
    have "open_fds ?h = insert ?fd (open_fds (phist p))"
      using a by (simp only: open_fds_append fd_step.simps) (simp add: boot_dev_def)
    moreover have "open_fds (phist ?q) = open_fds ?h" by (simp add: open_fds_def)
    ultimately show ?thesis by simp
  qed
  ultimately show "\<exists>p'. Init E S bin bin_size ent p = Some (- 1, p') \<and> pmem p' = pmem p \<and>
      open_fds (phist p') = insert ?fd (open_fds (phist p))" by blast
qed

definition no_map_env :: os_env where
  "no_map_env h c = (case c of Mmap _ _ _ _ _ _ \<Rightarrow> \<lparr>ret = 0, ptr = MAP_FAILED, data = [], pages = Map.empty\<rparr>
    | _ \<Rightarrow> \<lparr>ret = 3, ptr = 0, data = [], pages = Map.empty\<rparr>)"

theorem Init_errors_witness:
  "\<exists>p'. Init no_map_env demo_symbols 0x10000 16 0x100004000 demo_proc = Some (- 1, p') \<and>
     3 \<in> open_fds (phist p')"
proof -
  have fd: "ret (no_map_env (phist demo_proc) boot_dev) = 3" by (simp add: no_map_env_def boot_dev_def)
  moreover have "ptr (bootmem_of no_map_env demo_proc) = MAP_FAILED"
    by (simp add: bootmem_of_def no_map_env_def Let_def)
  moreover have "(16::u64) \<le> PAGE_SIZE" by (simp add: PAGE_SIZE_def)
  ultimately show ?thesis
    using Init_errors [of 16 no_map_env demo_symbols "0x10000" "0x100004000" demo_proc]
    by (metis insertI1 zero_le_numeral)
qed

end
