(* ===== verification/X86_Code.thy ===== *)
theory X86_Code
  imports Word_Memory
begin

text \<open>
  The straight-line x86-64 instructions of the repository's assembly files, over the general
  purpose registers and the byte memory: moves, address computation, push, pop and return.
  \<open>None\<close> is an access to unmapped memory.
\<close>

datatype reg = RAX | RBX | RCX | RDX | RSI | RDI | RBP | RSP
  | R8 | R9 | R10 | R11 | R12 | R13 | R14 | R15

record mach =
  gpr :: "reg \<Rightarrow> u64"
  rip :: addr
  cmem :: mem

text \<open>Operands in the order of the AT\&T syntax; an offset and a base make a memory operand.\<close>

datatype instr =
    MovRR reg reg
  | MovRM reg u64 reg
  | MovMR u64 reg reg
  | MovIR u64 reg
  | MovIM u64 u64 reg
  | Lea u64 reg reg
  | AddIR u64 reg
  | PushR reg
  | PushM u64 reg
  | PopR reg
  | Ret

definition set_reg :: "reg \<Rightarrow> u64 \<Rightarrow> mach \<Rightarrow> mach" where
  "set_reg r v s = s\<lparr>gpr := (gpr s)(r := v)\<rparr>"

definition push_word :: "u64 \<Rightarrow> mach \<Rightarrow> mach option" where
  "push_word v s = do {
     m \<leftarrow> write64 (cmem s) (gpr s RSP - 8) v;
     Some (set_reg RSP (gpr s RSP - 8) (s\<lparr>cmem := m\<rparr>)) }"

definition pop_word :: "mach \<Rightarrow> (u64 \<times> mach) option" where
  "pop_word s = do {
     v \<leftarrow> read64 (cmem s) (gpr s RSP);
     Some (v, set_reg RSP (gpr s RSP + 8) s) }"

fun exec_instr :: "instr \<Rightarrow> mach \<Rightarrow> mach option" where
  "exec_instr (MovRR a b) s = Some (set_reg b (gpr s a) s)"
| "exec_instr (MovRM a off b) s = do { m \<leftarrow> write64 (cmem s) (gpr s b + off) (gpr s a); Some (s\<lparr>cmem := m\<rparr>) }"
| "exec_instr (MovMR off b r) s = do { v \<leftarrow> read64 (cmem s) (gpr s b + off); Some (set_reg r v s) }"
| "exec_instr (MovIR i r) s = Some (set_reg r i s)"
| "exec_instr (MovIM i off b) s = do { m \<leftarrow> write64 (cmem s) (gpr s b + off) i; Some (s\<lparr>cmem := m\<rparr>) }"
| "exec_instr (Lea off b r) s = Some (set_reg r (gpr s b + off) s)"
| "exec_instr (AddIR i r) s = Some (set_reg r (gpr s r + i) s)"
| "exec_instr (PushR r) s = push_word (gpr s r) s"
| "exec_instr (PushM off b) s = do { v \<leftarrow> read64 (cmem s) (gpr s b + off); push_word v s }"
| "exec_instr (PopR r) s = do { (v, s') \<leftarrow> pop_word s; Some (set_reg r v s') }"
| "exec_instr Ret s = do { (v, s') \<leftarrow> pop_word s; Some (s'\<lparr>rip := v\<rparr>) }"

primrec exec :: "instr list \<Rightarrow> mach \<Rightarrow> mach option" where
  "exec [] s = Some s"
| "exec (i # is) s = do { s' \<leftarrow> exec_instr i s; exec is s' }"

lemma exec_append: "exec (xs @ ys) s = do { s' \<leftarrow> exec xs s; exec ys s' }"
  by (induction xs arbitrary: s) auto

lemma aligned8_add: "aligned8 a \<Longrightarrow> aligned8 b \<Longrightarrow> aligned8 (a + b)"
  by (simp add: aligned8_def take_bit_add_aligned)

lemma aligned8_diff8: "aligned8 a \<Longrightarrow> aligned8 (a - 8)"
  using aligned8_add [of a "- 8"] by (simp add: aligned8_def)

text \<open>The words of an object of \<open>n\<close> 64-bit words.\<close>

definition word_addrs :: "addr \<Rightarrow> nat \<Rightarrow> addr set" where
  "word_addrs a n = (\<lambda>k. a + 8 * of_nat k) ` {..<n}"

end
