(* ===== verification/Setjmp.thy ===== *)
theory Setjmp
  imports X86_Code
begin

text \<open>
  \<^verbatim>\<open>src/common/offload.S\<close>: the context switch of the offload mechanism. A \<^verbatim>\<open>toshokan_jmp_buf\<close>
  is ten words: six callee-saved registers, the stack pointer and return address of the caller,
  the request flag and the completion flag.
\<close>

section \<open>The code\<close>

definition toshokan_setjmp :: "instr list" where
  "toshokan_setjmp = [
     MovRM RBX 0 RDI,
     MovRM RBP 8 RDI,
     MovRM R12 16 RDI,
     MovRM R13 24 RDI,
     MovRM R14 32 RDI,
     MovRM R15 40 RDI,
     Lea 8 RSP RAX,
     MovRM RAX 48 RDI,
     MovMR 0 RSP RAX,
     MovRM RAX 56 RDI,
     MovIR 0 RAX,
     Ret]"

text \<open>
  \<^verbatim>\<open>toshokan_setjmp_with_wait\<close> in three parts: up to the store of the request flag, one turn of
  the waiting loop (whether it leaves the loop), and the part after it.
\<close>

definition setjmp_wait_enter :: "instr list" where
  "setjmp_wait_enter = [
     MovRM RBX 0 RDI,
     MovRM RBP 8 RDI,
     MovRM R12 16 RDI,
     MovRM R13 24 RDI,
     MovRM R14 32 RDI,
     MovRM R15 40 RDI,
     Lea 8 RSP RAX,
     MovRM RAX 48 RDI,
     MovMR 0 RSP RAX,
     MovRM RAX 56 RDI,
     MovIM 1 64 RDI]"

definition setjmp_wait_test :: "mach \<Rightarrow> bool option" where
  "setjmp_wait_test s = do { v \<leftarrow> read64 (cmem s) (gpr s RDI + 72); Some (v \<noteq> 0) }"

definition setjmp_wait_leave :: "instr list" where
  "setjmp_wait_leave = [
     MovMR 8 RDI RBP,
     MovMR 48 RDI RSP,
     PushM 56 RDI,
     MovMR 0 RDI RBX,
     MovMR 16 RDI R12,
     MovMR 24 RDI R13,
     MovMR 32 RDI R14,
     MovMR 40 RDI R15,
     MovIM 0 72 RDI,
     MovIR 1 RAX,
     Ret]"

definition toshokan_longjmp :: "instr list" where
  "toshokan_longjmp = [
     MovRR RSI RAX,
     MovMR 8 RDI RBP,
     MovMR 48 RDI RSP,
     PushM 56 RDI,
     MovMR 0 RDI RBX,
     MovMR 16 RDI R12,
     MovMR 24 RDI R13,
     MovMR 32 RDI R14,
     MovMR 40 RDI R15,
     Ret]"

section \<open>Contexts\<close>

text \<open>What a buffer holds, read from memory, and what a caller of \<^verbatim>\<open>setjmp\<close> gets back.\<close>

record jctx =
  ctx_rbx :: u64
  ctx_rbp :: u64
  ctx_r12 :: u64
  ctx_r13 :: u64
  ctx_r14 :: u64
  ctx_r15 :: u64
  ctx_rsp :: u64
  ctx_rip :: u64

definition saved_ctx :: "mem \<Rightarrow> addr \<Rightarrow> jctx option" where
  "saved_ctx m buf = do {
     bx \<leftarrow> read64 m buf; bp \<leftarrow> read64 m (buf + 8); r12 \<leftarrow> read64 m (buf + 16);
     r13 \<leftarrow> read64 m (buf + 24); r14 \<leftarrow> read64 m (buf + 32); r15 \<leftarrow> read64 m (buf + 40);
     sp \<leftarrow> read64 m (buf + 48); pc \<leftarrow> read64 m (buf + 56);
     Some \<lparr>ctx_rbx = bx, ctx_rbp = bp, ctx_r12 = r12, ctx_r13 = r13, ctx_r14 = r14,
       ctx_r15 = r15, ctx_rsp = sp, ctx_rip = pc\<rparr> }"

text \<open>The context of the caller of a function that has just been entered; \<open>ra\<close> is on the stack.\<close>

definition caller_ctx :: "mach \<Rightarrow> addr \<Rightarrow> jctx" where
  "caller_ctx s ra = \<lparr>ctx_rbx = gpr s RBX, ctx_rbp = gpr s RBP, ctx_r12 = gpr s R12,
     ctx_r13 = gpr s R13, ctx_r14 = gpr s R14, ctx_r15 = gpr s R15,
     ctx_rsp = gpr s RSP + 8, ctx_rip = ra\<rparr>"

text \<open>A processor that executes in a context.\<close>

definition running_in :: "mach \<Rightarrow> jctx \<Rightarrow> bool" where
  "running_in s c \<longleftrightarrow> gpr s RBX = ctx_rbx c \<and> gpr s RBP = ctx_rbp c \<and> gpr s R12 = ctx_r12 c \<and>
     gpr s R13 = ctx_r13 c \<and> gpr s R14 = ctx_r14 c \<and> gpr s R15 = ctx_r15 c \<and>
     gpr s RSP = ctx_rsp c \<and> rip s = ctx_rip c"

definition buf_mapped :: "mem \<Rightarrow> addr \<Rightarrow> bool" where
  "buf_mapped m buf \<longleftrightarrow> aligned8 buf \<and> (\<forall>a \<in> word_addrs buf 10. read64 m a \<noteq> None)"

text \<open>A stack slot that is usable and not a word of the buffer.\<close>

definition slot_ok :: "mem \<Rightarrow> addr \<Rightarrow> addr \<Rightarrow> bool" where
  "slot_ok m buf a \<longleftrightarrow> aligned8 a \<and> read64 m a \<noteq> None \<and> a \<notin> word_addrs buf 10"

lemma word_addrs_10: "word_addrs buf 10 = {buf, buf + 8, buf + 16, buf + 24, buf + 32, buf + 40,
    buf + 48, buf + 56, buf + 64, buf + 72}"
proof -
  have "{..<10::nat} = {0, 1, 2, 3, 4, 5, 6, 7, 8, 9}" by auto
  then show ?thesis by (simp add: word_addrs_def insert_commute)
qed

lemma buf_aligned:
  assumes "aligned8 buf"
  shows "aligned8 (buf + 8)" "aligned8 (buf + 16)" "aligned8 (buf + 24)" "aligned8 (buf + 32)"
    "aligned8 (buf + 40)" "aligned8 (buf + 48)" "aligned8 (buf + 56)" "aligned8 (buf + 64)"
    "aligned8 (buf + 72)"
  by (intro aligned8_add assms, simp add: aligned8_def)+

section \<open>setjmp saves, longjmp restores\<close>

text \<open>The stores of both entry sequences up to the return address.\<close>

definition ctx_writes :: "mach \<Rightarrow> (addr \<times> u64) list" where
  "ctx_writes s = (let b = gpr s RDI in
     [(b, gpr s RBX), (b + 8, gpr s RBP), (b + 16, gpr s R12), (b + 24, gpr s R13), (b + 32, gpr s R14),
      (b + 40, gpr s R15), (b + 48, gpr s RSP + 8)])"

lemma setjmp_exec:
  "exec toshokan_setjmp s = do {
     m1 \<leftarrow> write_all write64 (cmem s) (ctx_writes s);
     ra \<leftarrow> read64 m1 (gpr s RSP);
     m2 \<leftarrow> write64 m1 (gpr s RDI + 56) ra;
     ra' \<leftarrow> read64 m2 (gpr s RSP);
     Some (s\<lparr>cmem := m2, gpr := (gpr s)(RAX := 0, RSP := gpr s RSP + 8), rip := ra'\<rparr>) }"
  by (simp add: toshokan_setjmp_def ctx_writes_def Let_def set_reg_def pop_word_def fun_upd_twist)

lemma ctx_writes_props:
  assumes "buf_mapped m (gpr s RDI)"
  shows "\<forall>w \<in> set (ctx_writes s). aligned8 (fst w)" "\<forall>w \<in> set (ctx_writes s). read64 m (fst w) \<noteq> None"
    "fst ` set (ctx_writes s) \<subseteq> word_addrs (gpr s RDI) 10" "distinct (map fst (ctx_writes s))"
  using assms buf_aligned
  by (simp_all add: ctx_writes_def Let_def buf_mapped_def word_addrs_10)

text \<open>
  The memory after the context has been stored: the buffer holds the caller's context, and every
  other word, the two flags included, is as before.
\<close>

lemma ctx_stored:
  assumes buf: "buf_mapped (cmem s) (gpr s RDI)" and slot: "slot_ok (cmem s) (gpr s RDI) (gpr s RSP)"
    and ra: "read64 (cmem s) (gpr s RSP) = Some ra"
  obtains m1 m2 where "write_all write64 (cmem s) (ctx_writes s) = Some m1"
    "read64 m1 (gpr s RSP) = Some ra" "write64 m1 (gpr s RDI + 56) ra = Some m2"
    "read64 m2 (gpr s RSP) = Some ra" "saved_ctx m2 (gpr s RDI) = Some (caller_ctx s ra)"
    "\<And>a. aligned8 a \<Longrightarrow> a \<notin> word_addrs (gpr s RDI) 8 \<Longrightarrow> read64 m2 a = read64 (cmem s) a"
proof -
  let ?b = "gpr s RDI"
  note ws = ctx_writes_props [OF buf]
  have al: "aligned8 ?b" using buf by (simp add: buf_mapped_def)
  note al' = buf_aligned [OF al]
  obtain m1 where m1: "write_all write64 (cmem s) (ctx_writes s) = Some m1"
    using wm.write_all_defined [OF ws(1,2)] by blast
  note other = wm.rd_write_all_other [OF ws(1) m1]
  have "gpr s RSP \<notin> fst ` set (ctx_writes s)" using slot ws(3) by (auto simp: slot_ok_def)
  then have ra1: "read64 m1 (gpr s RSP) = Some ra" using other slot ra by (simp add: slot_ok_def)
  have "?b + 56 \<notin> fst ` set (ctx_writes s)" by (simp add: ctx_writes_def Let_def)
  then have "read64 m1 (?b + 56) \<noteq> None"
    using other al' buf by (simp add: buf_mapped_def word_addrs_10)
  then obtain m2 where m2: "write64 m1 (?b + 56) ra = Some m2" using wm.wr_defined by blast
  note rd2 = wm.rd_wr [OF al'(7) _ m2]
  have ra2: "read64 m2 (gpr s RSP) = Some ra"
    using rd2 [of "gpr s RSP"] ra1 slot by (simp add: slot_ok_def)
  have w8: "{..<8::nat} = {0, 1, 2, 3, 4, 5, 6, 7}" by auto
  have frame: "read64 m2 a = read64 (cmem s) a" if "aligned8 a" "a \<notin> word_addrs ?b 8" for a
  proof -
    have "a \<noteq> ?b + 56" "a \<notin> fst ` set (ctx_writes s)"
      using that(2) by (auto simp: word_addrs_def w8 ctx_writes_def Let_def)
    then show ?thesis using rd2 [OF that(1)] other [OF that(1)] by simp
  qed
  have in_ws: "read64 m2 a = Some v" if "(a, v) \<in> set (ctx_writes s)" for a v
  proof -
    have "a \<noteq> ?b + 56" using that by (auto simp: ctx_writes_def Let_def)
    moreover have "aligned8 a" using that ws(1) by force
    ultimately show ?thesis
      using rd2 [of a] wm.rd_write_all_distinct [OF ws(1,4) m1 that] by simp
  qed
  have "read64 m2 (?b + 56) = Some ra" using rd2 [OF al'(7)] by simp
  then have "saved_ctx m2 ?b = Some (caller_ctx s ra)"
    using in_ws by (simp add: saved_ctx_def caller_ctx_def ctx_writes_def Let_def)
  then show ?thesis by (rule that [OF m1 ra1 m2 ra2 _ frame])
qed

lemma setjmp_saves:
  assumes buf: "buf_mapped (cmem s) (gpr s RDI)" and slot: "slot_ok (cmem s) (gpr s RDI) (gpr s RSP)"
    and ra: "read64 (cmem s) (gpr s RSP) = Some ra"
  shows "\<exists>s'. exec toshokan_setjmp s = Some s' \<and> saved_ctx (cmem s') (gpr s RDI) = Some (caller_ctx s ra) \<and>
     running_in s' (caller_ctx s ra) \<and> gpr s' RAX = 0 \<and>
     (\<forall>a. aligned8 a \<and> a \<notin> word_addrs (gpr s RDI) 8 \<longrightarrow> read64 (cmem s') a = read64 (cmem s) a)"
proof -
  obtain m1 m2 where "write_all write64 (cmem s) (ctx_writes s) = Some m1"
    "read64 m1 (gpr s RSP) = Some ra" "write64 m1 (gpr s RDI + 56) ra = Some m2"
    "read64 m2 (gpr s RSP) = Some ra" "saved_ctx m2 (gpr s RDI) = Some (caller_ctx s ra)"
    "\<And>a. aligned8 a \<Longrightarrow> a \<notin> word_addrs (gpr s RDI) 8 \<Longrightarrow> read64 m2 a = read64 (cmem s) a"
    using ctx_stored [OF assms] by blast
  then show ?thesis by (simp add: setjmp_exec running_in_def caller_ctx_def)
qed

text \<open>
  Both ways of entering a saved context: the part that \<^verbatim>\<open>longjmp\<close> and the end of
  \<^verbatim>\<open>setjmp_with_wait\<close> have in common.
\<close>

definition restore_code :: "instr list" where
  "restore_code = [MovMR 8 RDI RBP, MovMR 48 RDI RSP, PushM 56 RDI, MovMR 0 RDI RBX, MovMR 16 RDI R12,
     MovMR 24 RDI R13, MovMR 32 RDI R14, MovMR 40 RDI R15]"

lemma restore_code_exec:
  assumes c: "saved_ctx (cmem s) (gpr s RDI) = Some c" and buf: "buf_mapped (cmem s) (gpr s RDI)"
    and slot: "slot_ok (cmem s) (gpr s RDI) (ctx_rsp c - 8)"
  obtains m where "write64 (cmem s) (ctx_rsp c - 8) (ctx_rip c) = Some m"
    "exec restore_code s = Some (s\<lparr>cmem := m, gpr := (gpr s)(RBP := ctx_rbp c, RSP := ctx_rsp c - 8,
       RBX := ctx_rbx c, R12 := ctx_r12 c, R13 := ctx_r13 c, R14 := ctx_r14 c, R15 := ctx_r15 c)\<rparr>)"
proof -
  let ?b = "gpr s RDI"
  obtain m where m: "write64 (cmem s) (ctx_rsp c - 8) (ctx_rip c) = Some m"
    using slot wm.wr_defined by (force simp: slot_ok_def)
  have al: "aligned8 ?b" using buf by (simp add: buf_mapped_def)
  have keep: "read64 m a = read64 (cmem s) a" if "a \<in> word_addrs ?b 10" "aligned8 a" for a
    using wm.rd_wr [OF _ that(2) m] slot that(1) by (auto simp: slot_ok_def)
  have "exec restore_code s = Some (s\<lparr>cmem := m, gpr := (gpr s)(RBP := ctx_rbp c, RSP := ctx_rsp c - 8,
       RBX := ctx_rbx c, R12 := ctx_r12 c, R13 := ctx_r13 c, R14 := ctx_r14 c, R15 := ctx_r15 c)\<rparr>)"
    using c m keep al buf_aligned [OF al]
    by (auto simp: restore_code_def saved_ctx_def bind_eq_Some_conv set_reg_def push_word_def word_addrs_10)
  with m show ?thesis by (rule that)
qed

lemma longjmp_restores:
  assumes c: "saved_ctx (cmem s) (gpr s RDI) = Some c" and buf: "buf_mapped (cmem s) (gpr s RDI)"
    and slot: "slot_ok (cmem s) (gpr s RDI) (ctx_rsp c - 8)"
  shows "\<exists>s'. exec toshokan_longjmp s = Some s' \<and> running_in s' c \<and> gpr s' RAX = gpr s RSI \<and>
     (\<forall>a. aligned8 a \<and> a \<noteq> ctx_rsp c - 8 \<longrightarrow> read64 (cmem s') a = read64 (cmem s) a)"
proof -
  let ?s = "set_reg RAX (gpr s RSI) s"
  have s: "cmem ?s = cmem s" "gpr ?s RDI = gpr s RDI" by (simp_all add: set_reg_def)
  obtain m where m: "write64 (cmem ?s) (ctx_rsp c - 8) (ctx_rip c) = Some m"
    and run: "exec restore_code ?s = Some (?s\<lparr>cmem := m, gpr := (gpr ?s)(RBP := ctx_rbp c,
       RSP := ctx_rsp c - 8, RBX := ctx_rbx c, R12 := ctx_r12 c, R13 := ctx_r13 c, R14 := ctx_r14 c,
       R15 := ctx_r15 c)\<rparr>)"
    using restore_code_exec [of ?s c] c buf slot by (auto simp: s)
  have code: "toshokan_longjmp = MovRR RSI RAX # restore_code @ [Ret]"
    by (simp add: toshokan_longjmp_def restore_code_def)
  have "read64 m (ctx_rsp c - 8) = Some (ctx_rip c)" using m by (rule read64_write64_same)
  then have "exec toshokan_longjmp s = Some (?s\<lparr>cmem := m, gpr := (gpr ?s)(RBP := ctx_rbp c,
       RSP := ctx_rsp c - 8, RBX := ctx_rbx c, R12 := ctx_r12 c, R13 := ctx_r13 c, R14 := ctx_r14 c,
       R15 := ctx_r15 c, RSP := ctx_rsp c), rip := ctx_rip c\<rparr>)"
    using run by (simp add: code exec_append) (simp add: set_reg_def pop_word_def)
  moreover have "read64 m a = read64 (cmem s) a" if "aligned8 a \<and> a \<noteq> ctx_rsp c - 8" for a
    using wm.rd_wr [OF _ _ m] slot that by (simp add: slot_ok_def s)
  ultimately show ?thesis by (simp add: running_in_def set_reg_def)
qed

text \<open>The end of \<^verbatim>\<open>setjmp_with_wait\<close>: the context is entered with result 1 and the flag is cleared.\<close>

lemma wait_leave_restores:
  assumes c: "saved_ctx (cmem s) (gpr s RDI) = Some c" and buf: "buf_mapped (cmem s) (gpr s RDI)"
    and slot: "slot_ok (cmem s) (gpr s RDI) (ctx_rsp c - 8)"
  shows "\<exists>s'. exec setjmp_wait_leave s = Some s' \<and> running_in s' c \<and> gpr s' RAX = 1 \<and>
     read64 (cmem s') (gpr s RDI + 72) = Some 0 \<and>
     (\<forall>a. aligned8 a \<and> a \<noteq> ctx_rsp c - 8 \<and> a \<noteq> gpr s RDI + 72 \<longrightarrow> read64 (cmem s') a = read64 (cmem s) a)"
proof -
  let ?b = "gpr s RDI"
  obtain m where m: "write64 (cmem s) (ctx_rsp c - 8) (ctx_rip c) = Some m"
    and run: "exec restore_code s = Some (s\<lparr>cmem := m, gpr := (gpr s)(RBP := ctx_rbp c,
       RSP := ctx_rsp c - 8, RBX := ctx_rbx c, R12 := ctx_r12 c, R13 := ctx_r13 c, R14 := ctx_r14 c,
       R15 := ctx_r15 c)\<rparr>)"
    using restore_code_exec [OF assms] by blast
  have code: "setjmp_wait_leave = restore_code @ [MovIM 0 72 RDI, MovIR 1 RAX, Ret]"
    by (simp add: setjmp_wait_leave_def restore_code_def)
  have al: "aligned8 (?b + 72)" using buf buf_aligned by (simp add: buf_mapped_def)
  have sl: "aligned8 (ctx_rsp c - 8)" "ctx_rsp c - 8 \<noteq> ?b + 72"
    using slot by (auto simp: slot_ok_def word_addrs_10)
  have rd: "aligned8 a \<Longrightarrow> read64 m a = (if a = ctx_rsp c - 8 then Some (ctx_rip c) else read64 (cmem s) a)" for a
    using wm.rd_wr [OF sl(1) _ m] by simp
  have "read64 m (?b + 72) \<noteq> None" using rd [OF al] sl(2) buf by (auto simp: buf_mapped_def word_addrs_10)
  then obtain m' where m': "write64 m (?b + 72) 0 = Some m'" using wm.wr_defined by blast
  note rd' = wm.rd_wr [OF al _ m']
  have "read64 m' (ctx_rsp c - 8) = Some (ctx_rip c)" using rd' [OF sl(1)] rd [OF sl(1)] sl(2) by simp
  then have "exec setjmp_wait_leave s = Some (s\<lparr>cmem := m', gpr := (gpr s)(RBP := ctx_rbp c,
       RSP := ctx_rsp c - 8, RBX := ctx_rbx c, R12 := ctx_r12 c, R13 := ctx_r13 c, R14 := ctx_r14 c,
       R15 := ctx_r15 c, RAX := 1, RSP := ctx_rsp c), rip := ctx_rip c\<rparr>)"
    using run m' by (simp add: code exec_append) (simp add: set_reg_def pop_word_def)
  then show ?thesis using rd rd' al by (simp add: running_in_def)
qed

text \<open>
  C8: A context saved by toshokan_setjmp is entered again by toshokan_longjmp, on any processor and
  with any register contents, as long as the buffer still holds the saved words: the callee-saved
  registers, the stack pointer and the program counter are those of the caller of setjmp, setjmp
  has returned 0 and the second return delivers the value passed to longjmp.
\<close>

theorem setjmp_longjmp:
  assumes "buf_mapped (cmem s) (gpr s RDI)" "slot_ok (cmem s) (gpr s RDI) (gpr s RSP)"
    and "read64 (cmem s) (gpr s RSP) = Some ra"
  shows "\<exists>s1. exec toshokan_setjmp s = Some s1 \<and> running_in s1 (caller_ctx s ra) \<and> gpr s1 RAX = 0 \<and>
     (\<forall>t. gpr t RDI = gpr s RDI \<and> saved_ctx (cmem t) (gpr s RDI) = saved_ctx (cmem s1) (gpr s RDI) \<and>
          buf_mapped (cmem t) (gpr s RDI) \<and> slot_ok (cmem t) (gpr s RDI) (gpr s RSP) \<longrightarrow>
        (\<exists>t'. exec toshokan_longjmp t = Some t' \<and> running_in t' (caller_ctx s ra) \<and>
           gpr t' RAX = gpr t RSI))"
proof -
  have sp: "ctx_rsp (caller_ctx s ra) - 8 = gpr s RSP" by (simp add: caller_ctx_def)
  obtain s1 where "exec toshokan_setjmp s = Some s1"
    and c: "saved_ctx (cmem s1) (gpr s RDI) = Some (caller_ctx s ra)"
    and "running_in s1 (caller_ctx s ra)" "gpr s1 RAX = 0"
    using setjmp_saves [OF assms] by blast
  moreover have "\<exists>t'. exec toshokan_longjmp t = Some t' \<and> running_in t' (caller_ctx s ra) \<and>
      gpr t' RAX = gpr t RSI"
    if t: "gpr t RDI = gpr s RDI" "saved_ctx (cmem t) (gpr s RDI) = saved_ctx (cmem s1) (gpr s RDI)"
      "buf_mapped (cmem t) (gpr s RDI)" "slot_ok (cmem t) (gpr s RDI) (gpr s RSP)" for t
    using longjmp_restores [of t "caller_ctx s ra"] c t sp by auto
  ultimately show ?thesis by blast
qed

text \<open>A machine with all memory mapped and zero, its stack at 0x8000 and a buffer at 0x9000.\<close>

definition demo_mach :: mach where
  "demo_mach = \<lparr>gpr = (\<lambda>r. if r = RSP then 0x8000 else if r = RDI then 0x9000 else 7), rip = 0x1000,
     cmem = (\<lambda>_. Some 0)\<rparr>"

lemma read_zero_mem: "read_le n (\<lambda>_. Some 0) a = Some 0"
  by (induction n arbitrary: a) simp_all

lemma demo_mach_ok:
  "buf_mapped (cmem demo_mach) (gpr demo_mach RDI)"
  "slot_ok (cmem demo_mach) (gpr demo_mach RDI) (gpr demo_mach RSP)"
  "read64 (cmem demo_mach) (gpr demo_mach RSP) = Some 0"
  by (simp_all add: demo_mach_def buf_mapped_def slot_ok_def aligned8_def word_addrs_10 read_zero_mem)

theorem setjmp_longjmp_witness:
  "\<exists>s1. exec toshokan_setjmp demo_mach = Some s1 \<and> gpr s1 RAX = 0 \<and> gpr s1 RSP = 0x8008 \<and> gpr s1 R15 = 7"
proof -
  have "ctx_rsp (caller_ctx demo_mach 0) = 0x8008" "ctx_r15 (caller_ctx demo_mach 0) = 7"
    by (simp_all add: caller_ctx_def demo_mach_def)
  then show ?thesis using setjmp_longjmp [OF demo_mach_ok] by (auto simp: running_in_def)
qed

section \<open>setjmp_with_wait\<close>

text \<open>The instructions before the last one store to the first eight words of the buffer only.\<close>

fun stores_context :: "instr \<Rightarrow> bool" where
  "stores_context (MovRM _ off b) = (b = RDI \<and> off \<in> {0, 8, 16, 24, 32, 40, 48, 56})"
| "stores_context (MovMR _ _ r) = (r \<noteq> RDI)"
| "stores_context (Lea _ _ r) = (r \<noteq> RDI)"
| "stores_context _ = False"

lemma stores_context_exec:
  assumes "list_all stores_context is" "exec is s = Some s'" "aligned8 (gpr s RDI)"
  shows "gpr s' RDI = gpr s RDI \<and> read64 (cmem s') (gpr s RDI + 64) = read64 (cmem s) (gpr s RDI + 64)"
  using assms
proof (induction "is" arbitrary: s)
  case Nil
  then show ?case by simp
next
  case (Cons i "is")
  then obtain s1 where i: "exec_instr i s = Some s1" and r: "exec is s1 = Some s'"
    by (auto simp: bind_eq_Some_conv)
  have "gpr s1 RDI = gpr s RDI \<and> read64 (cmem s1) (gpr s RDI + 64) = read64 (cmem s) (gpr s RDI + 64)"
  proof (cases i)
    case (MovRM a off b)
    then obtain m where m: "write64 (cmem s) (gpr s RDI + off) (gpr s a) = Some m" and s1: "s1 = s\<lparr>cmem := m\<rparr>"
      and off: "off \<in> {0, 8, 16, 24, 32, 40, 48, 56}"
      using i Cons.prems(1) by (auto simp: bind_eq_Some_conv)
    have "aligned8 (gpr s RDI + off)" "aligned8 (gpr s RDI + 64)" "gpr s RDI + 64 \<noteq> gpr s RDI + off"
      using off Cons.prems(3) buf_aligned [OF Cons.prems(3)] by auto
    then show ?thesis using wm.rd_wr [OF _ _ m] s1 by simp
  qed (use i Cons.prems(1) in \<open>auto simp: bind_eq_Some_conv set_reg_def\<close>)
  then show ?case using Cons.IH [OF _ r] Cons.prems by simp
qed

lemma wait_enter_exec:
  "exec setjmp_wait_enter s = do {
     m1 \<leftarrow> write_all write64 (cmem s) (ctx_writes s);
     ra \<leftarrow> read64 m1 (gpr s RSP);
     m2 \<leftarrow> write64 m1 (gpr s RDI + 56) ra;
     m3 \<leftarrow> write64 m2 (gpr s RDI + 64) 1;
     Some (s\<lparr>gpr := (gpr s)(RAX := ra), cmem := m3\<rparr>) }"
  by (simp add: setjmp_wait_enter_def ctx_writes_def Let_def set_reg_def)

text \<open>
  C9: Up to its waiting loop toshokan_setjmp_with_wait stores the caller's context and then raises
  the request flag, leaving the completion flag alone; before the last instruction the flag has not
  changed, so a processor that sees the flag raised sees a complete context.
\<close>

theorem setjmp_wait_publishes:
  assumes buf: "buf_mapped (cmem s) (gpr s RDI)" and slot: "slot_ok (cmem s) (gpr s RDI) (gpr s RSP)"
    and ra: "read64 (cmem s) (gpr s RSP) = Some ra"
  shows "\<exists>s'. exec setjmp_wait_enter s = Some s' \<and> saved_ctx (cmem s') (gpr s RDI) = Some (caller_ctx s ra) \<and>
     read64 (cmem s') (gpr s RDI + 64) = Some 1 \<and>
     read64 (cmem s') (gpr s RDI + 72) = read64 (cmem s) (gpr s RDI + 72) \<and>
     (\<forall>n t. n < length setjmp_wait_enter \<and> exec (take n setjmp_wait_enter) s = Some t \<longrightarrow>
        read64 (cmem t) (gpr s RDI + 64) = read64 (cmem s) (gpr s RDI + 64))"
proof -
  let ?b = "gpr s RDI"
  have al: "aligned8 ?b" using buf by (simp add: buf_mapped_def)
  note al' = buf_aligned [OF al]
  obtain m1 m2 where m1: "write_all write64 (cmem s) (ctx_writes s) = Some m1"
    "read64 m1 (gpr s RSP) = Some ra" "write64 m1 (?b + 56) ra = Some m2"
    and c: "saved_ctx m2 ?b = Some (caller_ctx s ra)"
    and frame: "\<And>a. aligned8 a \<Longrightarrow> a \<notin> word_addrs ?b 8 \<Longrightarrow> read64 m2 a = read64 (cmem s) a"
    using ctx_stored [OF assms] by blast
  have w8: "{..<8::nat} = {0, 1, 2, 3, 4, 5, 6, 7}" by auto
  have out: "?b + 64 \<notin> word_addrs ?b 8" "?b + 72 \<notin> word_addrs ?b 8" by (simp_all add: word_addrs_def w8)
  have "read64 m2 (?b + 64) \<noteq> None"
    using frame [OF al'(8) out(1)] buf by (auto simp: buf_mapped_def word_addrs_10)
  then obtain m3 where m3: "write64 m2 (?b + 64) 1 = Some m3" using wm.wr_defined by blast
  note rd = wm.rd_wr [OF al'(8) _ m3]
  have "saved_ctx m3 ?b = saved_ctx m2 ?b" using rd al al' by (simp add: saved_ctx_def)
  moreover have "read64 m3 (?b + 72) = read64 (cmem s) (?b + 72)"
    using rd [OF al'(9)] frame [OF al'(9) out(2)] by simp
  moreover have "read64 m3 (?b + 64) = Some 1" using rd [OF al'(8)] by simp
  moreover have "read64 (cmem t) (?b + 64) = read64 (cmem s) (?b + 64)"
    if n: "n < length setjmp_wait_enter" and t: "exec (take n setjmp_wait_enter) s = Some t" for n t
  proof -
    have "list_all stores_context (take 10 setjmp_wait_enter)" by (simp add: setjmp_wait_enter_def)
    then have "list_all stores_context (take n (take 10 setjmp_wait_enter))"
      by (metis append_take_drop_id list_all_append)
    moreover have "take n (take 10 setjmp_wait_enter) = take n setjmp_wait_enter"
    proof -
      have "length setjmp_wait_enter = 11" by (simp add: setjmp_wait_enter_def)
      with n show ?thesis by (simp add: min_absorb1)
    qed
    ultimately show ?thesis using stores_context_exec [OF _ t al] by simp
  qed
  ultimately show ?thesis using m1 m3 c by (simp add: wait_enter_exec) blast
qed

theorem setjmp_wait_publishes_witness:
  "\<exists>s'. exec setjmp_wait_enter demo_mach = Some s' \<and> read64 (cmem s') 0x9040 = Some 1 \<and>
     saved_ctx (cmem s') 0x9000 = Some (caller_ctx demo_mach 0)"
proof -
  have "gpr demo_mach RDI = 0x9000" "(0x9000 :: addr) + 64 = 0x9040" by (simp_all add: demo_mach_def)
  then show ?thesis using setjmp_wait_publishes [OF demo_mach_ok] by metis
qed

end
