(* ===== verification/Transition_Systems.thy ===== *)
theory Transition_Systems
  imports Main
begin

text \<open>
  The interface of the protocol proofs: a step relation with an invariant, and a simulation of
  one step relation by another through an abstraction function. The protocols of the development
  interpret it on their own step relations.
\<close>

locale inv_system =
  fixes step :: "'s \<Rightarrow> 's \<Rightarrow> bool"
    and inv :: "'s \<Rightarrow> bool"
  assumes inv_step: "inv s \<Longrightarrow> step s s' \<Longrightarrow> inv s'"
begin

lemma inv_steps: "step\<^sup>*\<^sup>* s s' \<Longrightarrow> inv s \<Longrightarrow> inv s'"
  by (induction rule: rtranclp_induct) (auto intro: inv_step)

text \<open>A quantity that no step changes in a state of the invariant.\<close>

lemma unchanged_steps:
  assumes "\<And>s s'. inv s \<Longrightarrow> step s s' \<Longrightarrow> f s' = f s"
  shows "step\<^sup>*\<^sup>* s s' \<Longrightarrow> inv s \<Longrightarrow> f s' = f s"
proof (induction rule: rtranclp_induct)
  case base
  then show ?case by simp
next
  case (step y z)
  then show ?case using assms inv_steps by metis
qed

text \<open>
  Possible progress: when every state of the invariant that is not done can take steps that
  decrease a measure, a done state can be reached from every state of the invariant.
\<close>

lemma can_reach:
  assumes progress: "\<And>s. inv s \<Longrightarrow> \<not> fin s \<Longrightarrow> \<exists>s'. step\<^sup>*\<^sup>* s s' \<and> \<mu> s' < (\<mu> s :: nat)"
  shows "inv s \<Longrightarrow> \<exists>s'. step\<^sup>*\<^sup>* s s' \<and> fin s'"
proof (induction "\<mu> s" arbitrary: s rule: less_induct)
  case less
  show ?case
  proof (cases "fin s")
    case True
    then show ?thesis by blast
  next
    case False
    then obtain s1 where s1: "step\<^sup>*\<^sup>* s s1" "\<mu> s1 < \<mu> s" using progress less.prems by blast
    moreover have "inv s1" using s1(1) less.prems by (rule inv_steps)
    ultimately obtain s2 where "step\<^sup>*\<^sup>* s1 s2" "fin s2" using less.hyps by blast
    with s1(1) show ?thesis by (meson rtranclp_trans)
  qed
qed

end

locale simulation = inv_system step inv
  for step :: "'s \<Rightarrow> 's \<Rightarrow> bool" and inv :: "'s \<Rightarrow> bool" +
  fixes astep :: "'a \<Rightarrow> 'a \<Rightarrow> bool"
    and abs :: "'s \<Rightarrow> 'a"
  assumes sim_step: "inv s \<Longrightarrow> step s s' \<Longrightarrow> abs s' = abs s \<or> astep (abs s) (abs s')"
begin

lemma sim_steps: "step\<^sup>*\<^sup>* s s' \<Longrightarrow> inv s \<Longrightarrow> astep\<^sup>*\<^sup>* (abs s) (abs s')"
proof (induction rule: rtranclp_induct)
  case base
  then show ?case by simp
next
  case (step y z)
  then have "inv y" using inv_steps by blast
  then have "abs z = abs y \<or> astep (abs y) (abs z)" using step.hyps(2) by (rule sim_step)
  then show ?case using step.IH [OF step.prems] by auto
qed

end

end
