(* ===== verification/Offload.thy ===== *)
theory Offload
  imports Transition_Systems
begin

text \<open>
  The offload protocol of \<^verbatim>\<open>src/common/offload.h\<close>: friend processors hand code to hakase with
  \<^verbatim>\<open>_OFFLOAD\<close>, hakase picks it up in \<^verbatim>\<open>TryReceive\<close> and runs it in the friend's context. Any number
  of friends and hakase take steps in any order; one step is one access to shared memory or one
  context switch. A context is the callee-saved registers and stack together with the place where
  execution continues, as the theory \<^verbatim>\<open>Setjmp\<close> shows for the assembly routines.
\<close>

section \<open>Processors and program points\<close>

datatype cpu = Hakase | Friend nat

text \<open>
  Return addresses in a jump buffer: after \<^verbatim>\<open>setjmp_with_wait\<close> and after the second
  \<^verbatim>\<open>setjmp\<close> of \<^verbatim>\<open>_OFFLOAD\<close> (with the friend whose frame it is), and after the
  \<^verbatim>\<open>setjmp\<close> of \<^verbatim>\<open>TryReceive\<close>.
\<close>

datatype label = AfterWait nat | AfterSave nat | AfterHakase

datatype pc =
    Main
  | OLock | OCas | OSave | OReq | OWait | ORest | OClr label
  | OCode nat | OSave2 nat | OJmp nat | OUnlock nat
  | TCheck | TClear | TSetjmp | TJmp | TDone

text \<open>
  Where execution goes on at a return address when the call returns non-zero, as it does on
  every entry through a jump buffer.
\<close>

fun resume :: "label \<Rightarrow> pc" where
  "resume (AfterWait i) = OCode i"
| "resume (AfterSave i) = OUnlock i"
| "resume AfterHakase = TDone"

text \<open>What a friend program does: work of its own, or code it offloads.\<close>

type_synonym ('r, 'g) act = "'r \<times> 'g \<Rightarrow> 'r \<times> 'g"

datatype ('r, 'g) action = Local "('r, 'g) act" | Offload "('r, 'g) act"

fun act_of :: "('r, 'g) action \<Rightarrow> ('r, 'g) act" where
  "act_of (Local f) = f"
| "act_of (Offload f) = f"

text \<open>
  The members of \<^verbatim>\<open>Offloader\<close> (\<open>req\<close> and \<open>don\<close> are words 8 and 9 of
  \<^verbatim>\<open>_friend_ctx\<close>), the memory the programs share, and the state of the processors.
\<close>

record ('r, 'g) offloader =
  glob :: 'g
  lock :: bool
  req :: bool
  don :: bool
  friend_ctx :: "'r \<times> label"
  hakase_ctx :: "'r \<times> label"
  pcs :: "cpu \<Rightarrow> pc"
  regs :: "cpu \<Rightarrow> 'r"
  todo :: "nat \<Rightarrow> ('r, 'g) action list"

definition goto :: "cpu \<Rightarrow> pc \<Rightarrow> ('r, 'g) offloader \<Rightarrow> ('r, 'g) offloader" where
  "goto c l s = s\<lparr>pcs := (pcs s)(c := l)\<rparr>"

definition enter_ctx :: "cpu \<Rightarrow> 'r \<Rightarrow> ('r, 'g) offloader \<Rightarrow> ('r, 'g) offloader" where
  "enter_ctx c r s = s\<lparr>regs := (regs s)(c := r)\<rparr>"

definition perform :: "('r, 'g) act \<Rightarrow> cpu \<Rightarrow> ('r, 'g) offloader \<Rightarrow> ('r, 'g) offloader" where
  "perform f c s = s\<lparr>regs := (regs s)(c := fst (f (regs s c, glob s))), glob := snd (f (regs s c, glob s))\<rparr>"

section \<open>Steps\<close>

text \<open>\<^verbatim>\<open>_OFFLOAD\<close> on friend \<open>i\<close>, up to the context switch.\<close>

fun friend_step :: "nat \<Rightarrow> pc \<Rightarrow> ('r, 'g) offloader \<Rightarrow> ('r, 'g) offloader option" where
  "friend_step i Main s = (case todo s i of [] \<Rightarrow> None
     | Local f # as \<Rightarrow> Some (perform f (Friend i) (s\<lparr>todo := (todo s)(i := as)\<rparr>))
     | Offload f # as \<Rightarrow> Some (goto (Friend i) OLock s))"
| "friend_step i OLock s = Some (if lock s then s else goto (Friend i) OCas s)"
| "friend_step i OCas s = Some (if lock s then goto (Friend i) OLock s
     else goto (Friend i) OSave (s\<lparr>lock := True\<rparr>))"
| "friend_step i OSave s = Some (goto (Friend i) OReq (s\<lparr>friend_ctx := (regs s (Friend i), AfterWait i)\<rparr>))"
| "friend_step i OReq s = Some (goto (Friend i) OWait (s\<lparr>req := True\<rparr>))"
| "friend_step i OWait s = Some (if don s then goto (Friend i) ORest s else s)"
| "friend_step i ORest s = Some (goto (Friend i) (OClr (snd (friend_ctx s)))
     (enter_ctx (Friend i) (fst (friend_ctx s)) s))"
| "friend_step i (OClr l) s = Some (goto (Friend i) (resume l) (s\<lparr>don := False\<rparr>))"
| "friend_step i _ s = None"

text \<open>\<^verbatim>\<open>TryReceive\<close> on hakase; a result of \<^verbatim>\<open>true\<close> makes the caller try again.\<close>

fun hakase_step :: "pc \<Rightarrow> ('r, 'g) offloader \<Rightarrow> ('r, 'g) offloader option" where
  "hakase_step Main s = Some (goto Hakase TCheck s)"
| "hakase_step TCheck s = Some (goto Hakase (if req s then TClear else Main) s)"
| "hakase_step TClear s = Some (goto Hakase TSetjmp (s\<lparr>req := False\<rparr>))"
| "hakase_step TSetjmp s = Some (goto Hakase TJmp (s\<lparr>hakase_ctx := (regs s Hakase, AfterHakase)\<rparr>))"
| "hakase_step TJmp s = Some (goto Hakase (resume (snd (friend_ctx s))) (enter_ctx Hakase (fst (friend_ctx s)) s))"
| "hakase_step TDone s = Some (goto Hakase TCheck (s\<lparr>don := True\<rparr>))"
| "hakase_step _ s = None"

text \<open>
  The code of \<^verbatim>\<open>_OFFLOAD\<close> after the first context switch, on whatever processor has entered the
  frame of friend \<open>i\<close>.
\<close>

fun frame_step :: "cpu \<Rightarrow> pc \<Rightarrow> ('r, 'g) offloader \<Rightarrow> ('r, 'g) offloader option" where
  "frame_step c (OCode i) s = (case todo s i of Offload f # _ \<Rightarrow> Some (goto c (OSave2 i) (perform f c s))
     | _ \<Rightarrow> None)"
| "frame_step c (OSave2 i) s = Some (goto c (OJmp i) (s\<lparr>friend_ctx := (regs s c, AfterSave i)\<rparr>))"
| "frame_step c (OJmp i) s = Some (goto c (resume (snd (hakase_ctx s))) (enter_ctx c (fst (hakase_ctx s)) s))"
| "frame_step c (OUnlock i) s = Some (goto c Main (s\<lparr>lock := False, todo := (todo s)(i := tl (todo s i))\<rparr>))"
| "frame_step c _ s = None"

definition exec1 :: "cpu \<Rightarrow> ('r, 'g) offloader \<Rightarrow> ('r, 'g) offloader option" where
  "exec1 c s = (case frame_step c (pcs s c) s of Some s' \<Rightarrow> Some s'
     | None \<Rightarrow> (case c of Hakase \<Rightarrow> hakase_step (pcs s Hakase) s
                | Friend i \<Rightarrow> friend_step i (pcs s (Friend i)) s))"

inductive ostep :: "('r, 'g) offloader \<Rightarrow> ('r, 'g) offloader \<Rightarrow> bool" where
  ostepI: "exec1 c s = Some s' \<Longrightarrow> ostep s s'"

inductive_cases ostepE: "ostep s s'"

text \<open>All members zero, everybody in its main program.\<close>

definition start :: "('r, 'g) offloader \<Rightarrow> bool" where
  "start s \<longleftrightarrow> \<not> lock s \<and> \<not> req s \<and> \<not> don s \<and> pcs s = (\<lambda>_. Main)"

section \<open>The abstract machine\<close>

text \<open>Every friend performs its actions in order, each in one step on its own registers.\<close>

record ('r, 'g) serial =
  sglob :: 'g
  sregs :: "nat \<Rightarrow> 'r"
  stodo :: "nat \<Rightarrow> ('r, 'g) action list"

inductive sstep :: "('r, 'g) serial \<Rightarrow> ('r, 'g) serial \<Rightarrow> bool" where
  sstepI: "stodo a i = x # xs \<Longrightarrow> act_of x (sregs a i, sglob a) = (r, g) \<Longrightarrow>
     sstep a \<lparr>sglob = g, sregs = (sregs a)(i := r), stodo = (stodo a)(i := xs)\<rparr>"

text \<open>Whether the code at the head of a friend's program has been performed already.\<close>

definition performed :: "('r, 'g) offloader \<Rightarrow> nat \<Rightarrow> bool" where
  "performed s i \<longleftrightarrow> pcs s Hakase = OSave2 i \<or>
     snd (friend_ctx s) = AfterSave i \<and> pcs s (Friend i) \<in> {OWait, ORest} \<or>
     pcs s (Friend i) = OClr (AfterSave i) \<or> pcs s (Friend i) = OUnlock i"

text \<open>The registers of a friend's program, wherever they are.\<close>

definition prog_regs :: "('r, 'g) offloader \<Rightarrow> nat \<Rightarrow> 'r" where
  "prog_regs s i = (if pcs s Hakase = OSave2 i then regs s Hakase
     else if snd (friend_ctx s) = AfterSave i \<and> pcs s (Friend i) \<in> {OWait, ORest} then fst (friend_ctx s)
     else regs s (Friend i))"

definition serial_of :: "('r, 'g) offloader \<Rightarrow> ('r, 'g) serial" where
  "serial_of s = \<lparr>sglob = glob s, sregs = prog_regs s,
     stodo = (\<lambda>i. if performed s i then tl (todo s i) else todo s i)\<rparr>"

section \<open>The invariant\<close>

text \<open>
  The states of one offload, in the order they are passed: from the friend that has just taken
  the lock to the friend that is about to release it.
\<close>

datatype stage = Locked | Saved | Posted | Taken | Jumping | Running | Ran | Returning
  | Returned | Ready | Entering | Clearing | Unlocking

definition idle :: "'r \<Rightarrow> ('r, 'g) offloader \<Rightarrow> bool" where
  "idle H s \<longleftrightarrow> pcs s Hakase \<in> {Main, TCheck} \<and> regs s Hakase = H"

text \<open>Friend \<open>i\<close> holds the lock; \<open>H\<close> is what hakase has in its registers outside the friend's context.\<close>

fun at_stage :: "stage \<Rightarrow> nat \<Rightarrow> 'r \<Rightarrow> ('r, 'g) offloader \<Rightarrow> bool" where
  "at_stage Locked i H s \<longleftrightarrow> pcs s (Friend i) = OSave \<and> idle H s \<and> \<not> req s \<and> \<not> don s"
| "at_stage Saved i H s \<longleftrightarrow> pcs s (Friend i) = OReq \<and> idle H s \<and> \<not> req s \<and> \<not> don s \<and>
     friend_ctx s = (regs s (Friend i), AfterWait i)"
| "at_stage Posted i H s \<longleftrightarrow> pcs s (Friend i) = OWait \<and> pcs s Hakase \<in> {Main, TCheck, TClear} \<and>
     regs s Hakase = H \<and> req s \<and> \<not> don s \<and> friend_ctx s = (regs s (Friend i), AfterWait i)"
| "at_stage Taken i H s \<longleftrightarrow> pcs s (Friend i) = OWait \<and> pcs s Hakase = TSetjmp \<and> regs s Hakase = H \<and>
     \<not> req s \<and> \<not> don s \<and> friend_ctx s = (regs s (Friend i), AfterWait i)"
| "at_stage Jumping i H s \<longleftrightarrow> pcs s (Friend i) = OWait \<and> pcs s Hakase = TJmp \<and> \<not> req s \<and> \<not> don s \<and>
     friend_ctx s = (regs s (Friend i), AfterWait i) \<and> hakase_ctx s = (H, AfterHakase)"
| "at_stage Running i H s \<longleftrightarrow> pcs s (Friend i) = OWait \<and> pcs s Hakase = OCode i \<and> \<not> req s \<and> \<not> don s \<and>
     regs s Hakase = regs s (Friend i) \<and> snd (friend_ctx s) = AfterWait i \<and> hakase_ctx s = (H, AfterHakase)"
| "at_stage Ran i H s \<longleftrightarrow> pcs s (Friend i) = OWait \<and> pcs s Hakase = OSave2 i \<and> \<not> req s \<and> \<not> don s \<and>
     snd (friend_ctx s) = AfterWait i \<and> hakase_ctx s = (H, AfterHakase)"
| "at_stage Returning i H s \<longleftrightarrow> pcs s (Friend i) = OWait \<and> pcs s Hakase = OJmp i \<and> \<not> req s \<and> \<not> don s \<and>
     snd (friend_ctx s) = AfterSave i \<and> hakase_ctx s = (H, AfterHakase)"
| "at_stage Returned i H s \<longleftrightarrow> pcs s (Friend i) = OWait \<and> pcs s Hakase = TDone \<and> \<not> req s \<and> \<not> don s \<and>
     snd (friend_ctx s) = AfterSave i \<and> regs s Hakase = H"
| "at_stage Ready i H s \<longleftrightarrow> pcs s (Friend i) = OWait \<and> idle H s \<and> \<not> req s \<and> don s \<and>
     snd (friend_ctx s) = AfterSave i"
| "at_stage Entering i H s \<longleftrightarrow> pcs s (Friend i) = ORest \<and> idle H s \<and> \<not> req s \<and> don s \<and>
     snd (friend_ctx s) = AfterSave i"
| "at_stage Clearing i H s \<longleftrightarrow> pcs s (Friend i) = OClr (AfterSave i) \<and> idle H s \<and> \<not> req s \<and> don s"
| "at_stage Unlocking i H s \<longleftrightarrow> pcs s (Friend i) = OUnlock i \<and> idle H s \<and> \<not> req s \<and> \<not> don s"

definition outside_pc :: "pc \<Rightarrow> bool" where
  "outside_pc l \<longleftrightarrow> l \<in> {Main, OLock, OCas}"

definition outside :: "('r, 'g) offloader \<Rightarrow> nat \<Rightarrow> bool" where
  "outside s j \<longleftrightarrow> outside_pc (pcs s (Friend j))"

definition held :: "stage \<Rightarrow> nat \<Rightarrow> 'r \<Rightarrow> ('r, 'g) offloader \<Rightarrow> bool" where
  "held st i H s \<longleftrightarrow> lock s \<and> at_stage st i H s \<and> (\<forall>j. j \<noteq> i \<longrightarrow> outside s j)"

definition free :: "'r \<Rightarrow> ('r, 'g) offloader \<Rightarrow> bool" where
  "free H s \<longleftrightarrow> \<not> lock s \<and> idle H s \<and> \<not> req s \<and> \<not> don s \<and> (\<forall>j. outside s j)"

text \<open>A friend that is in the protocol has code to offload at the head of its program.\<close>

definition heads :: "('r, 'g) offloader \<Rightarrow> bool" where
  "heads s \<longleftrightarrow> (\<forall>j. pcs s (Friend j) = Main \<or> (\<exists>f xs. todo s j = Offload f # xs))"

definition oinv :: "'r \<Rightarrow> ('r, 'g) offloader \<Rightarrow> bool" where
  "oinv H s \<longleftrightarrow> heads s \<and> (free H s \<or> (\<exists>st i. held st i H s))"

lemmas step_defs = goto_def enter_ctx_def

lemma start_inv: "start s \<Longrightarrow> oinv (regs s Hakase) s"
  by (simp add: start_def oinv_def heads_def free_def idle_def outside_def outside_pc_def)

text \<open>Steps of a friend that does not hold the lock.\<close>

lemma outside_step:
  assumes "outside s j" "exec1 (Friend j) s = Some s'" "lock s"
  shows "\<And>c. c \<noteq> Friend j \<Longrightarrow> pcs s' c = pcs s c" "outside s' j"
    "lock s'" "req s' = req s" "don s' = don s" "friend_ctx s' = friend_ctx s"
    "hakase_ctx s' = hakase_ctx s" "\<And>c. c \<noteq> Friend j \<Longrightarrow> regs s' c = regs s c"
    "\<And>k. k \<noteq> j \<Longrightarrow> todo s' k = todo s k"
  using assms
  by (auto simp: outside_def outside_pc_def exec1_def step_defs perform_def
      split: if_splits list.splits action.splits)


text \<open>The parts of a state that decide about a friend's program are read off its own state only.\<close>

definition own_view :: "('r, 'g) offloader \<Rightarrow> nat \<Rightarrow> 'r \<times> ('r, 'g) action list" where
  "own_view s i = (prog_regs s i, if performed s i then tl (todo s i) else todo s i)"

lemma serial_of_eq: "serial_of s = \<lparr>sglob = glob s, sregs = fst \<circ> own_view s, stodo = snd \<circ> own_view s\<rparr>"
  by (simp add: serial_of_def own_view_def comp_def)

lemma serial_same:
  assumes "glob s' = glob s" "\<And>k. own_view s' k = own_view s k"
  shows "serial_of s' = serial_of s"
proof -
  have "own_view s' = own_view s" using assms(2) by (rule ext)
  with assms(1) show ?thesis by (simp add: serial_of_eq)
qed

lemma serial_act:
  assumes "own_view s i = (r, x # xs)" "own_view s' i = (fst (act_of x (r, glob s)), xs)"
    and "glob s' = snd (act_of x (r, glob s))" "\<And>k. k \<noteq> i \<Longrightarrow> own_view s' k = own_view s k"
  shows "sstep (serial_of s) (serial_of s')"
proof -
  have "fst \<circ> own_view s' = (fst \<circ> own_view s)(i := fst (act_of x (r, glob s)))"
    "snd \<circ> own_view s' = (snd \<circ> own_view s)(i := xs)"
    using assms(2,4) by (auto simp: fun_eq_iff)
  then have "serial_of s' = \<lparr>sglob = snd (act_of x (r, glob s)),
      sregs = (sregs (serial_of s))(i := fst (act_of x (r, glob s))),
      stodo = (stodo (serial_of s))(i := xs)\<rparr>"
    using assms(3) by (simp add: serial_of_eq)
  moreover have "sstep (serial_of s) \<dots>"
    by (rule sstepI [where x = x]) (use assms(1) in \<open>simp_all add: serial_of_eq\<close>)
  ultimately show ?thesis by simp
qed

lemma own_view_cong:
  assumes "pcs s' Hakase = pcs s Hakase" "regs s' Hakase = regs s Hakase" "friend_ctx s' = friend_ctx s"
    "pcs s' (Friend k) = pcs s (Friend k)" "regs s' (Friend k) = regs s (Friend k)" "todo s' k = todo s k"
  shows "own_view s' k = own_view s k"
  unfolding own_view_def prog_regs_def performed_def assms ..

lemma own_view_outside:
  "outside s j \<Longrightarrow> pcs s Hakase \<noteq> OSave2 j \<Longrightarrow> own_view s j = (regs s (Friend j), todo s j)"
  by (auto simp: own_view_def prog_regs_def performed_def outside_def outside_pc_def)

lemma hakase_frame:
  "held st i H s \<Longrightarrow> j \<noteq> i \<Longrightarrow> pcs s Hakase \<noteq> OSave2 j"
  by (cases st) (auto simp: held_def idle_def)

lemma free_frame: "free H s \<Longrightarrow> pcs s Hakase \<noteq> OSave2 j"
  by (auto simp: free_def idle_def)


definition simulated :: "('r, 'g) offloader \<Rightarrow> ('r, 'g) offloader \<Rightarrow> bool" where
  "simulated s s' \<longleftrightarrow> serial_of s' = serial_of s \<or> sstep (serial_of s) (serial_of s')"

text \<open>A friend outside the protocol does work of its own, or changes its program point only.\<close>

lemma outside_cases:
  assumes "outside s j" "exec1 (Friend j) s = Some s'" "heads s"
  obtains
    (work) f xs where "pcs s (Friend j) = Main" "todo s j = Local f # xs"
      "s' = perform f (Friend j) (s\<lparr>todo := (todo s)(j := xs)\<rparr>)"
  | (move) l where "l \<in> {OLock, OCas}" "s' = goto (Friend j) l s" "\<exists>f xs. todo s j = Offload f # xs"
  | (wait) "s' = s"
  | (acquire) "\<not> lock s" "s' = goto (Friend j) OSave (s\<lparr>lock := True\<rparr>)" "\<exists>f xs. todo s j = Offload f # xs"
proof -
  consider "pcs s (Friend j) = Main" | "pcs s (Friend j) = OLock" | "pcs s (Friend j) = OCas"
    using assms(1) by (auto simp: outside_def outside_pc_def)
  then show ?thesis
  proof cases
    case 1
    with assms(2) show ?thesis
      by (auto simp: exec1_def split: list.splits action.splits intro: work move)
  next
    case 2
    moreover have "\<exists>f xs. todo s j = Offload f # xs" using assms(3) [unfolded heads_def, rule_format, of j] 2 by simp
    ultimately show ?thesis using assms(2) move [of OCas] wait by (simp add: exec1_def split: if_splits)
  next
    case 3
    moreover have "\<exists>f xs. todo s j = Offload f # xs" using assms(3) [unfolded heads_def, rule_format, of j] 3 by simp
    ultimately show ?thesis
      using assms(2) move [of OLock] acquire by (simp add: exec1_def split: if_splits)
  qed
qed

lemma heads_keep:
  "heads s \<Longrightarrow> (\<And>k. k \<noteq> j \<Longrightarrow> pcs s' (Friend k) = pcs s (Friend k) \<and> todo s' k = todo s k) \<Longrightarrow>
     pcs s' (Friend j) = Main \<or> (\<exists>f xs. todo s' j = Offload f # xs) \<Longrightarrow> heads s'"
  unfolding heads_def by metis

text \<open>Such a step is one of the abstract machine, or none.\<close>

lemma outside_simulated:
  assumes out: "outside s j" and h: "pcs s Hakase \<noteq> OSave2 j" and "exec1 (Friend j) s = Some s'" "heads s"
  shows "simulated s s'" "heads s'"
proof -
  have v: "own_view s j = (regs s (Friend j), todo s j)" using out h by (rule own_view_outside)
  have "simulated s s' \<and> heads s'"
    using assms(1,3,4)
  proof (cases rule: outside_cases)
    case (work f xs)
    have "outside s' j" "pcs s' Hakase \<noteq> OSave2 j" using work out h by (simp_all add: perform_def outside_def)
    then have v': "own_view s' j = (regs s' (Friend j), todo s' j)" by (rule own_view_outside)
    have other: "own_view s' k = own_view s k" if "k \<noteq> j" for k
      by (rule own_view_cong) (use that work in \<open>auto simp: perform_def\<close>)
    have "sstep (serial_of s) (serial_of s')"
      by (rule serial_act [OF _ _ _ other]) (use v v' work in \<open>auto simp: perform_def\<close>)
    moreover have "heads s'" using assms(4) by (rule heads_keep) (use work in \<open>auto simp: perform_def\<close>)
    ultimately show ?thesis by (simp add: simulated_def)
  next
    case (move l)
    then have "outside s' j" "pcs s' Hakase \<noteq> OSave2 j" using h by (auto simp: goto_def outside_def outside_pc_def)
    then have "own_view s' j = (regs s' (Friend j), todo s' j)" by (rule own_view_outside)
    then have "own_view s' j = own_view s j" using v move by (simp add: goto_def)
    moreover have "own_view s' k = own_view s k" if "k \<noteq> j" for k
      by (rule own_view_cong) (use that move in \<open>auto simp: goto_def\<close>)
    ultimately have "own_view s' k = own_view s k" for k by (cases "k = j") auto
    then have "serial_of s' = serial_of s" using move by (intro serial_same) (auto simp: goto_def)
    moreover have "heads s'" using assms(4) by (rule heads_keep) (use move in \<open>auto simp: goto_def\<close>)
    ultimately show ?thesis by (simp add: simulated_def)
  next
    case wait
    with assms(4) show ?thesis by (simp add: simulated_def)
  next
    case acquire
    then have "own_view s' j = (regs s' (Friend j), todo s' j)"
      using h by (auto simp: own_view_def prog_regs_def performed_def goto_def)
    then have "own_view s' j = own_view s j" using v acquire by (simp add: goto_def)
    moreover have "own_view s' k = own_view s k" if "k \<noteq> j" for k
      by (rule own_view_cong) (use that acquire in \<open>auto simp: goto_def\<close>)
    ultimately have "own_view s' k = own_view s k" for k by (cases "k = j") auto
    then have "serial_of s' = serial_of s" using acquire by (intro serial_same) (auto simp: goto_def)
    moreover have "heads s'" using assms(4) by (rule heads_keep) (use acquire in \<open>auto simp: goto_def\<close>)
    ultimately show ?thesis by (simp add: simulated_def)
  qed
  then show "simulated s s'" "heads s'" by simp_all
qed


section \<open>Steps of the holder and of hakase\<close>

fun next_stage :: "stage \<Rightarrow> stage" where
  "next_stage Locked = Saved" | "next_stage Saved = Posted" | "next_stage Posted = Taken"
| "next_stage Taken = Jumping" | "next_stage Jumping = Running" | "next_stage Running = Ran"
| "next_stage Ran = Returning" | "next_stage Returning = Returned" | "next_stage Returned = Ready"
| "next_stage Ready = Entering" | "next_stage Entering = Clearing" | "next_stage Clearing = Unlocking"
| "next_stage Unlocking = Unlocking"

text \<open>Where the registers of the holder's program are, and what is left of it.\<close>

fun stage_view :: "stage \<Rightarrow> nat \<Rightarrow> ('r, 'g) offloader \<Rightarrow> 'r \<times> ('r, 'g) action list" where
  "stage_view Ran i s = (regs s Hakase, tl (todo s i))"
| "stage_view Returning i s = (fst (friend_ctx s), tl (todo s i))"
| "stage_view Returned i s = (fst (friend_ctx s), tl (todo s i))"
| "stage_view Ready i s = (fst (friend_ctx s), tl (todo s i))"
| "stage_view Entering i s = (fst (friend_ctx s), tl (todo s i))"
| "stage_view Clearing i s = (regs s (Friend i), tl (todo s i))"
| "stage_view Unlocking i s = (regs s (Friend i), tl (todo s i))"
| "stage_view _ i s = (regs s (Friend i), todo s i)"

lemma held_view: "held st i H s \<Longrightarrow> own_view s i = stage_view st i s"
  by (cases st) (auto simp: held_def idle_def own_view_def prog_regs_def performed_def)

lemma held_view_other: "held st i H s \<Longrightarrow> k \<noteq> i \<Longrightarrow> own_view s k = (regs s (Friend k), todo s k)"
  by (rule own_view_outside) (auto simp: held_def hakase_frame)

text \<open>
  A step of the holder or of hakase stays in the stage or goes to the next one. Unless it performs
  the code it changes no program's view.
\<close>

lemma friend_stage:
  assumes "held st i H s" "exec1 (Friend i) s = Some s'" "st \<noteq> Unlocking"
  obtains st' where "st' \<in> {st, next_stage st}" "held st' i H s'" "stage_view st' i s' = stage_view st i s"
    "glob s' = glob s" "\<And>k. k \<noteq> i \<Longrightarrow> regs s' (Friend k) = regs s (Friend k)" "todo s' = todo s"
    "\<And>k. k \<noteq> i \<Longrightarrow> pcs s' (Friend k) = pcs s (Friend k)"
proof -
  have "(held st i H s' \<and> stage_view st i s' = stage_view st i s \<or>
      held (next_stage st) i H s' \<and> stage_view (next_stage st) i s' = stage_view st i s) \<and>
      glob s' = glob s \<and> (\<forall>k. k \<noteq> i \<longrightarrow> regs s' (Friend k) = regs s (Friend k)) \<and> todo s' = todo s \<and>
      (\<forall>k. k \<noteq> i \<longrightarrow> pcs s' (Friend k) = pcs s (Friend k))"
    using assms
    by (cases st; clarsimp simp: held_def exec1_def step_defs idle_def outside_def split: if_splits)
  then show ?thesis using that by blast
qed

lemma hakase_stage:
  assumes "held st i H s" "exec1 Hakase s = Some s'" "st \<noteq> Running"
  obtains st' where "st' \<in> {st, next_stage st}" "held st' i H s'" "stage_view st' i s' = stage_view st i s"
    "glob s' = glob s" "\<And>k. regs s' (Friend k) = regs s (Friend k)" "todo s' = todo s"
    "\<And>k. pcs s' (Friend k) = pcs s (Friend k)"
proof -
  have "(held st i H s' \<and> stage_view st i s' = stage_view st i s \<or>
      held (next_stage st) i H s' \<and> stage_view (next_stage st) i s' = stage_view st i s) \<and>
      glob s' = glob s \<and> (\<forall>k. regs s' (Friend k) = regs s (Friend k)) \<and> todo s' = todo s \<and>
      (\<forall>k. pcs s' (Friend k) = pcs s (Friend k))"
    using assms
    by (cases st; cases "pcs s Hakase";
        clarsimp simp: held_def exec1_def step_defs idle_def outside_def split: if_splits)
  then show ?thesis using that by blast
qed


lemma running_step:
  assumes h: "held Running i H s" and "heads s" and e: "exec1 Hakase s = Some s'"
  shows "held Ran i H s'" "heads s'" "simulated s s'"
proof -
  have "pcs s (Friend i) = OWait" and hp: "pcs s Hakase = OCode i" and r: "regs s Hakase = regs s (Friend i)"
    using h by (simp_all add: held_def)
  then obtain f xs where todo: "todo s i = Offload f # xs"
    using assms(2) [unfolded heads_def, rule_format, of i] by auto
  then have s': "s' = goto Hakase (OSave2 i) (perform f Hakase s)"
    using e hp by (simp add: exec1_def)
  show ran: "held Ran i H s'" using h s' by (simp add: held_def step_defs perform_def outside_def)
  show "heads s'" using assms(2) s' by (simp add: heads_def step_defs perform_def)
  have "own_view s' k = own_view s k" if "k \<noteq> i" for k
    using held_view_other [OF h that] held_view_other [OF ran that] s' by (simp add: step_defs perform_def)
  then have "sstep (serial_of s) (serial_of s')"
    using held_view [OF h] held_view [OF ran] todo s' r
    by (intro serial_act [of s i "regs s (Friend i)" "Offload f" xs]) (auto simp: step_defs perform_def)
  then show "simulated s s'" by (simp add: simulated_def)
qed

lemma unlock_step:
  assumes h: "held Unlocking i H s" and "heads s" and e: "exec1 (Friend i) s = Some s'"
  shows "free H s'" "heads s'" "simulated s s'" "todo s' = (todo s)(i := tl (todo s i))"
proof -
  have s': "s' = goto (Friend i) Main (s\<lparr>lock := False, todo := (todo s)(i := tl (todo s i))\<rparr>)"
    using h e by (simp add: held_def exec1_def)
  then show "todo s' = (todo s)(i := tl (todo s i))" by (simp add: goto_def)
  show f: "free H s'" using h s' by (simp add: held_def free_def goto_def idle_def outside_def outside_pc_def)
  show "heads s'" using assms(2) by (rule heads_keep) (use s' in \<open>auto simp: goto_def\<close>)
  have "own_view s' k = (regs s' (Friend k), todo s' k)" for k
    using f free_frame [OF f] by (intro own_view_outside) (auto simp: free_def)
  then have "own_view s' k = own_view s k" for k
    using held_view [OF h] held_view_other [OF h] s' by (cases "k = i") (auto simp: goto_def)
  then have "serial_of s' = serial_of s" using s' by (intro serial_same) (simp_all add: goto_def)
  then show "simulated s s'" by (simp add: simulated_def)
qed

lemma at_stage_cong:
  assumes "pcs s' (Friend i) = pcs s (Friend i)" "pcs s' Hakase = pcs s Hakase" "regs s' Hakase = regs s Hakase"
    "regs s' (Friend i) = regs s (Friend i)" "req s' = req s" "don s' = don s"
    "friend_ctx s' = friend_ctx s" "hakase_ctx s' = hakase_ctx s"
  shows "at_stage st i H s' = at_stage st i H s"
  by (cases st) (simp_all add: idle_def assms)

lemma held_outside_step:
  assumes h: "held st i H s" and "j \<noteq> i" "exec1 (Friend j) s = Some s'"
  shows "held st i H s'"
proof -
  have o: "outside s j" "lock s" using h assms(2) by (simp_all add: held_def)
  note st = outside_step [OF o(1) assms(3) o(2)]
  have "at_stage st i H s' = at_stage st i H s" by (rule at_stage_cong) (use st assms(2) in auto)
  moreover have "outside s' k" if "k \<noteq> i" for k
    using h that st(1,2) by (cases "k = j") (auto simp: held_def outside_def)
  ultimately show ?thesis using h st(3) by (simp add: held_def)
qed

lemma free_outside_step:
  assumes h: "free H s" and "heads s" "exec1 (Friend j) s = Some s'"
  shows "free H s' \<or> held Locked j H s'"
proof -
  have o: "outside s j" using h by (simp add: free_def)
  then show ?thesis
    using assms(3,2)
  proof (cases rule: outside_cases)
    case (move l)
    with h show ?thesis by (auto simp: free_def goto_def idle_def outside_def outside_pc_def)
  qed (use h in \<open>auto simp: free_def held_def step_defs perform_def idle_def outside_def outside_pc_def\<close>)
qed


lemma free_view: "free H s \<Longrightarrow> own_view s k = (regs s (Friend k), todo s k)"
  using own_view_outside [of s k] free_frame [of H s k] by (simp add: free_def)

lemma free_hakase_step:
  assumes "free H s" "exec1 Hakase s = Some s'"
  obtains l where "l \<in> {Main, TCheck}" "s' = goto Hakase l s" "free H s'"
proof -
  have "pcs s Hakase = Main \<or> pcs s Hakase = TCheck" "\<not> req s" using assms(1) by (auto simp: free_def idle_def)
  then have "s' = goto Hakase Main s \<or> s' = goto Hakase TCheck s" using assms(2) by (auto simp: exec1_def)
  then obtain l where "l \<in> {Main, TCheck}" "s' = goto Hakase l s" by blast
  moreover from this have "free H s'" using assms(1) by (auto simp: free_def goto_def idle_def outside_def)
  ultimately show ?thesis by (rule that)
qed

lemma free_step:
  assumes f: "free H s" and hd: "heads s" and e: "exec1 c s = Some s'"
  shows "oinv H s' \<and> simulated s s'"
proof (cases c)
  case Hakase
  then obtain l where l: "s' = goto Hakase l s" and f': "free H s'" using free_hakase_step f e by metis
  have "own_view s' k = own_view s k" for k
    using free_view [OF f] free_view [OF f'] l by (simp add: goto_def)
  then have "serial_of s' = serial_of s" using l by (intro serial_same) (simp_all add: goto_def)
  moreover have "heads s'" using hd l by (simp add: heads_def goto_def)
  ultimately show ?thesis using f' by (simp add: oinv_def simulated_def)
next
  case (Friend j)
  then have "exec1 (Friend j) s = Some s'" "outside s j" using e f by (simp_all add: free_def)
  then show ?thesis
    using free_outside_step [OF f hd] outside_simulated [OF _ free_frame [OF f] _ hd]
    unfolding oinv_def by blast
qed

lemma held_not_main: "held st i H s \<Longrightarrow> pcs s (Friend i) \<noteq> Main"
  by (cases st) (auto simp: held_def)

lemma held_step:
  assumes h: "held st i H s" and hd: "heads s" and e: "exec1 c s = Some s'"
  shows "oinv H s' \<and> simulated s s'"
proof -
  have quiet: ?thesis
    if h': "held st' i H s'" and v: "stage_view st' i s' = stage_view st i s" "glob s' = glob s"
      and r: "\<And>k. k \<noteq> i \<Longrightarrow> regs s' (Friend k) = regs s (Friend k)" and td: "todo s' = todo s"
      and p: "\<And>k. k \<noteq> i \<Longrightarrow> pcs s' (Friend k) = pcs s (Friend k)" for st'
  proof -
    have "own_view s' k = own_view s k" for k
      using held_view [OF h] held_view [OF h'] held_view_other [OF h, of k] held_view_other [OF h', of k] v r td
      by (cases "k = i") auto
    then have "serial_of s' = serial_of s" using v(2) by (intro serial_same)
    moreover have "heads s'"
      using hd by (rule heads_keep) (use p td held_not_main [OF h] hd [unfolded heads_def, rule_format, of i] in auto)
    ultimately show ?thesis using h' by (auto simp: oinv_def simulated_def)
  qed
  consider (hakase) "c = Hakase" | (holder) "c = Friend i" | (other) j where "c = Friend j" "j \<noteq> i"
    by (cases c) auto
  then show ?thesis
  proof cases
    case hakase
    show ?thesis
    proof (cases "st = Running")
      case True
      then show ?thesis using running_step [of i H s s'] h hd e hakase unfolding oinv_def by blast
    next
      case False
      then show ?thesis using hakase_stage [OF h e [unfolded hakase]] quiet by metis
    qed
  next
    case holder
    show ?thesis
    proof (cases "st = Unlocking")
      case True
      then show ?thesis using unlock_step [of i H s s'] h hd e holder unfolding oinv_def by blast
    next
      case False
      then show ?thesis using friend_stage [OF h e [unfolded holder] False] quiet by metis
    qed
  next
    case (other j)
    have "outside s j" using h other by (simp add: held_def)
    then show ?thesis
      using held_outside_step [OF h other(2)] outside_simulated [OF _ hakase_frame [OF h other(2)] _ hd] e other(1)
      unfolding oinv_def by blast
  qed
qed


lemma oinv_step: "oinv H s \<Longrightarrow> ostep s s' \<Longrightarrow> oinv H s' \<and> simulated s s'"
  using free_step held_step unfolding oinv_def by (metis ostepE)

interpretation off: simulation ostep "oinv H" sstep serial_of for H
proof
  fix s s' :: "('a, 'b) offloader"
  assume "oinv H s" "ostep s s'"
  from oinv_step [OF this] show "oinv H s'" "serial_of s' = serial_of s \<or> sstep (serial_of s) (serial_of s')"
    unfolding simulated_def by blast+
qed

section \<open>Progress\<close>

lemma todo_step: "ostep s s' \<Longrightarrow> todo s' i = todo s i \<or> todo s' i = tl (todo s i)"
proof (erule ostepE)
  fix c assume "exec1 c s = Some s'"
  then show ?thesis
    by (cases c; cases "pcs s c";
        auto simp: exec1_def step_defs perform_def split: if_splits list.splits action.splits)
qed

interpretation off_bounded: inv_system ostep "\<lambda>s. oinv H s \<and> (\<forall>i \<ge> n. todo s i = [])" for H n
proof
  fix s s' :: "('a, 'b) offloader"
  assume a: "oinv H s \<and> (\<forall>i \<ge> n. todo s i = [])" and st: "ostep s s'"
  have "todo s' i = []" if "i \<ge> n" for i using todo_step [OF st, of i] a that by auto
  then show "oinv H s' \<and> (\<forall>i \<ge> n. todo s' i = [])" using off.inv_step [of H s s'] a st by simp
qed

text \<open>Who moves an offload on, and that the next stage is reached.\<close>

fun mover :: "stage \<Rightarrow> nat \<Rightarrow> cpu" where
  "mover st i = (if st \<in> {Locked, Saved, Ready, Entering, Clearing, Unlocking} then Friend i else Hakase)"

lemma stage_advances:
  assumes "held st i H s" "st \<notin> {Posted, Running, Unlocking}"
  shows "\<exists>s'. exec1 (mover st i) s = Some s' \<and> held (next_stage st) i H s' \<and> todo s' = todo s"
  using assms by (cases st; clarsimp simp: held_def exec1_def step_defs idle_def outside_def)

lemma posted_advances:
  assumes h: "held Posted i H s"
  shows "\<exists>s'. ostep\<^sup>*\<^sup>* s s' \<and> held Taken i H s' \<and> todo s' = todo s"
proof -
  have clear: "\<exists>s'. ostep\<^sup>*\<^sup>* s s' \<and> held Taken i H s' \<and> todo s' = todo s"
    if "held Posted i H s" "pcs s Hakase = TClear" for s :: "('a, 'b) offloader"
  proof -
    have "exec1 Hakase s = Some (goto Hakase TSetjmp (s\<lparr>req := False\<rparr>))" using that by (simp add: exec1_def)
    moreover have "held Taken i H (goto Hakase TSetjmp (s\<lparr>req := False\<rparr>))"
      using that by (simp add: held_def goto_def outside_def)
    ultimately show ?thesis by (intro exI [of _ "goto Hakase TSetjmp (s\<lparr>req := False\<rparr>)"])
        (auto simp: goto_def intro: ostepI)
  qed
  have check: "\<exists>s'. ostep\<^sup>*\<^sup>* s s' \<and> held Taken i H s' \<and> todo s' = todo s"
    if "held Posted i H s" "pcs s Hakase = TCheck" for s :: "('a, 'b) offloader"
  proof -
    have "exec1 Hakase s = Some (goto Hakase TClear s)" using that by (simp add: exec1_def held_def)
    then have "ostep s (goto Hakase TClear s)" by (rule ostepI)
    moreover have "held Posted i H (goto Hakase TClear s)"
      using that by (simp add: held_def goto_def outside_def)
    ultimately show ?thesis
      using clear [of "goto Hakase TClear s"] by (auto simp: goto_def intro: converse_rtranclp_into_rtranclp)
  qed
  consider "pcs s Hakase = Main" | "pcs s Hakase = TCheck" | "pcs s Hakase = TClear"
    using h by (auto simp: held_def)
  then show ?thesis
  proof cases
    case 1
    then have "exec1 Hakase s = Some (goto Hakase TCheck s)" by (simp add: exec1_def)
    then have "ostep s (goto Hakase TCheck s)" by (rule ostepI)
    moreover have "held Posted i H (goto Hakase TCheck s)" using h by (simp add: held_def goto_def outside_def)
    ultimately show ?thesis
      using check [of "goto Hakase TCheck s"] by (auto simp: goto_def intro: converse_rtranclp_into_rtranclp)
  qed (use check clear h in auto)
qed


lemma stage_reaches_next:
  assumes h: "held st i H s" and hd: "heads s" and "st \<noteq> Unlocking"
  shows "\<exists>s'. ostep\<^sup>*\<^sup>* s s' \<and> held (next_stage st) i H s' \<and> todo s' = todo s"
proof -
  consider "st = Posted" | "st = Running" | "st \<notin> {Posted, Running, Unlocking}" using assms(3) by blast
  then show ?thesis
  proof cases
    case 1
    then show ?thesis using posted_advances h by simp
  next
    case 2
    then have "pcs s Hakase = OCode i" "pcs s (Friend i) = OWait" using h by (simp_all add: held_def)
    moreover from this obtain f xs where "todo s i = Offload f # xs"
      using hd [unfolded heads_def, rule_format, of i] by auto
    ultimately have e: "exec1 Hakase s = Some (goto Hakase (OSave2 i) (perform f Hakase s))"
      by (simp add: exec1_def)
    have "held Ran i H (goto Hakase (OSave2 i) (perform f Hakase s))"
      using h 2 by (simp add: held_def step_defs perform_def outside_def)
    then show ?thesis using 2 ostepI [OF e]
      by (intro exI [of _ "goto Hakase (OSave2 i) (perform f Hakase s)"]) (auto simp: step_defs perform_def)
  next
    case 3
    then show ?thesis using stage_advances [OF h 3] ostepI by (meson r_into_rtranclp)
  qed
qed

fun stages_left :: "stage \<Rightarrow> nat" where
  "stages_left Locked = 12" | "stages_left Saved = 11" | "stages_left Posted = 10"
| "stages_left Taken = 9" | "stages_left Jumping = 8" | "stages_left Running = 7"
| "stages_left Ran = 6" | "stages_left Returning = 5" | "stages_left Returned = 4"
| "stages_left Ready = 3" | "stages_left Entering = 2" | "stages_left Clearing = 1"
| "stages_left Unlocking = 0"

lemma next_stage_left: "st \<noteq> Unlocking \<Longrightarrow> stages_left (next_stage st) < stages_left st"
  by (cases st) simp_all

text \<open>An offload that has been started can be completed.\<close>

lemma held_finishes:
  "held st i H s \<Longrightarrow> heads s \<Longrightarrow>
     \<exists>s'. ostep\<^sup>*\<^sup>* s s' \<and> todo s' = (todo s)(i := tl (todo s i))"
proof (induction "stages_left st" arbitrary: st s rule: less_induct)
  case less
  show ?case
  proof (cases "st = Unlocking")
    case True
    with less.prems have "exec1 (Friend i) s \<noteq> None" by (simp add: held_def exec1_def)
    then obtain s' where "exec1 (Friend i) s = Some s'" by auto
    then show ?thesis using unlock_step(4) [of i H s s'] less.prems True by (meson ostepI r_into_rtranclp)
  next
    case False
    then obtain s1 where s1: "ostep\<^sup>*\<^sup>* s s1" "held (next_stage st) i H s1" "todo s1 = todo s"
      using stage_reaches_next [OF less.prems False] by blast
    have "oinv H s" using less.prems unfolding oinv_def by blast
    then have "heads s1" using off.inv_steps [OF s1(1), of H] by (simp add: oinv_def)
    then obtain s' where "ostep\<^sup>*\<^sup>* s1 s'" "todo s' = (todo s1)(i := tl (todo s1 i))"
      using less.hyps [OF next_stage_left [OF False] s1(2)] by blast
    then show ?thesis using s1(1,3) by (metis rtranclp_trans)
  qed
qed

lemma free_locks:
  assumes f: "free H s" and hd: "heads s" and "todo s i = Offload g # xs"
  shows "\<exists>s'. ostep\<^sup>*\<^sup>* s s' \<and> held Locked i H s' \<and> todo s' = todo s"
proof -
  have cas: "\<exists>s'. ostep\<^sup>*\<^sup>* s s' \<and> held Locked i H s' \<and> todo s' = todo s"
    if "free H s" "pcs s (Friend i) = OCas" for s :: "('a, 'b) offloader"
  proof -
    let ?t = "goto (Friend i) OSave (s\<lparr>lock := True\<rparr>)"
    have "exec1 (Friend i) s = Some ?t" using that by (simp add: exec1_def free_def)
    moreover have "held Locked i H ?t" using that by (simp add: free_def held_def goto_def idle_def outside_def)
    ultimately show ?thesis by (intro exI [of _ ?t]) (auto simp: goto_def intro: ostepI)
  qed
  have lock: "\<exists>s'. ostep\<^sup>*\<^sup>* s s' \<and> held Locked i H s' \<and> todo s' = todo s"
    if "free H s" "pcs s (Friend i) = OLock" for s :: "('a, 'b) offloader"
  proof -
    have "exec1 (Friend i) s = Some (goto (Friend i) OCas s)" using that by (simp add: exec1_def free_def)
    then have "ostep s (goto (Friend i) OCas s)" by (rule ostepI)
    moreover have "free H (goto (Friend i) OCas s)"
      using that by (simp add: free_def goto_def idle_def outside_def outside_pc_def)
    ultimately show ?thesis
      using cas [of "goto (Friend i) OCas s"] by (auto simp: goto_def intro: converse_rtranclp_into_rtranclp)
  qed
  consider "pcs s (Friend i) = Main" | "pcs s (Friend i) = OLock" | "pcs s (Friend i) = OCas"
    using f by (auto simp: free_def outside_def outside_pc_def)
  then show ?thesis
  proof cases
    case 1
    then have "exec1 (Friend i) s = Some (goto (Friend i) OLock s)" using assms(3) by (simp add: exec1_def)
    then have "ostep s (goto (Friend i) OLock s)" by (rule ostepI)
    moreover have "free H (goto (Friend i) OLock s)"
      using f by (simp add: free_def goto_def idle_def outside_def outside_pc_def)
    ultimately show ?thesis
      using lock [of "goto (Friend i) OLock s"] by (auto simp: goto_def intro: converse_rtranclp_into_rtranclp)
  qed (use lock cas f in auto)
qed

text \<open>In every state one of the programs can be brought one action further.\<close>

lemma todo_shrinks:
  assumes inv: "oinv H s" and "todo s j \<noteq> []"
  shows "\<exists>s' i. ostep\<^sup>*\<^sup>* s s' \<and> todo s i \<noteq> [] \<and> todo s' = (todo s)(i := tl (todo s i))"
proof -
  have hd: "heads s" using inv by (simp add: oinv_def)
  consider (held) st i where "held st i H s" | (free) "free H s" using inv by (auto simp: oinv_def)
  then show ?thesis
  proof cases
    case (held st i)
    then have "todo s i \<noteq> []" using held_not_main [OF held] hd [unfolded heads_def, rule_format, of i] by auto
    then show ?thesis using held_finishes [OF held hd] by blast
  next
    case free
    show ?thesis
    proof (cases "hd (todo s j)")
      case (Local f)
      then obtain xs where t: "todo s j = Local f # xs" using assms(2) by (cases "todo s j") auto
      then have "pcs s (Friend j) = Main" using hd [unfolded heads_def, rule_format, of j] by auto
      with t have "exec1 (Friend j) s = Some (perform f (Friend j) (s\<lparr>todo := (todo s)(j := xs)\<rparr>))"
        by (simp add: exec1_def)
      then have "ostep s (perform f (Friend j) (s\<lparr>todo := (todo s)(j := xs)\<rparr>))" by (rule ostepI)
      moreover have "todo (perform f (Friend j) (s\<lparr>todo := (todo s)(j := xs)\<rparr>)) = (todo s)(j := tl (todo s j))"
        using t by (simp add: perform_def)
      ultimately show ?thesis using assms(2) by blast
    next
      case (Offload f)
      then obtain xs where t: "todo s j = Offload f # xs" using assms(2) by (cases "todo s j") auto
      obtain s1 where s1: "ostep\<^sup>*\<^sup>* s s1" "held Locked j H s1" "todo s1 = todo s"
        using free_locks [OF free hd t] by blast
      have "heads s1" using off.inv_steps [OF s1(1) inv] by (simp add: oinv_def)
      then show ?thesis using held_finishes [OF s1(2)] s1(1,3) assms(2) by (metis rtranclp_trans)
    qed
  qed
qed


section \<open>A run\<close>

text \<open>Executing a schedule: the processors that take the successive steps.\<close>

primrec run :: "cpu list \<Rightarrow> ('r, 'g) offloader \<Rightarrow> ('r, 'g) offloader option" where
  "run [] s = Some s"
| "run (c # cs) s = (case exec1 c s of None \<Rightarrow> None | Some s' \<Rightarrow> run cs s')"

lemma run_steps: "run cs s = Some s' \<Longrightarrow> ostep\<^sup>*\<^sup>* s s'"
  by (induction cs arbitrary: s)
    (auto split: option.splits intro: ostepI converse_rtranclp_into_rtranclp)

definition demo :: "(nat, nat list) offloader" where
  "demo = \<lparr>glob = [], lock = False, req = False, don = False, friend_ctx = (0, AfterHakase),
     hakase_ctx = (0, AfterHakase), pcs = (\<lambda>_. Main),
     regs = (\<lambda>c. case c of Hakase \<Rightarrow> 100 | Friend i \<Rightarrow> i),
     todo = (\<lambda>i. if i < 2 then [Local (\<lambda>(r, g). (r + 10, g)), Offload (\<lambda>(r, g). (Suc r, r # g))] else [])\<rparr>"

definition demo_sched :: "cpu list" where
  "demo_sched = [Friend 0, Friend 1, Friend 1, Friend 0, Friend 1, Friend 1, Friend 0, Friend 1,
     Friend 1, Hakase, Hakase, Friend 0, Hakase, Hakase, Hakase]"

lemma demo_start: "start demo"
  by (simp add: start_def demo_def)

lemma demo_run:
  obtains s where "run demo_sched demo = Some s" "pcs s Hakase = OCode 1" "regs s Hakase = 11"
proof -
  have "map_option (\<lambda>s. (pcs s Hakase, regs s Hakase)) (run demo_sched demo) = Some (OCode 1, 11)"
    by code_simp
  then show ?thesis using that by auto
qed

section \<open>What the protocol guarantees\<close>

lemma free_if_main:
  assumes "oinv H s" "\<And>i. pcs s (Friend i) = Main"
  shows "free H s"
proof (rule ccontr)
  assume "\<not> free H s"
  then obtain st i where "held st i H s" using assms(1) by (auto simp: oinv_def)
  then have "pcs s (Friend i) \<noteq> Main" by (rule held_not_main)
  then show False using assms(2) by simp
qed

lemma outside_not_code: "outside s j \<Longrightarrow> pcs s (Friend j) \<noteq> OCode k"
  by (auto simp: outside_def outside_pc_def)

text \<open>
  C2: Offloaded code never runs on the friend that offloads it. When hakase runs the code of a
  friend, that friend holds the lock, waits, and hakase has the friend's registers; at most one
  friend is past the lock; and whenever hakase is outside a friend's context its registers are the
  ones it started with.
\<close>

theorem offload_safe:
  assumes "start s0" "ostep\<^sup>*\<^sup>* s0 s"
  shows "(\<forall>i j. pcs s (Friend i) \<noteq> OCode j) \<and>
     (\<forall>i. pcs s Hakase = OCode i \<longrightarrow>
        lock s \<and> pcs s (Friend i) = OWait \<and> regs s Hakase = regs s (Friend i)) \<and>
     (\<forall>i j. \<not> outside s i \<and> \<not> outside s j \<longrightarrow> i = j) \<and>
     (pcs s Hakase \<in> {Main, TCheck, TClear, TSetjmp, TDone} \<longrightarrow> regs s Hakase = regs s0 Hakase)"
proof -
  have inv: "oinv (regs s0 Hakase) s" using assms(2) start_inv [OF assms(1)] by (rule off.inv_steps)
  then consider (free) "free (regs s0 Hakase) s" | (held) st i where "held st i (regs s0 Hakase) s"
    by (auto simp: oinv_def)
  then show ?thesis
  proof cases
    case free
    then have "pcs s (Friend i) \<noteq> OCode j" for i j using outside_not_code [of s i j] by (simp add: free_def)
    with free show ?thesis by (auto simp: free_def idle_def)
  next
    case (held st i)
    have "pcs s (Friend k) \<noteq> OCode j" for k j
      using held outside_not_code [of s k j] by (cases "k = i"; cases st) (auto simp: held_def)
    moreover have "i = k" if "\<not> outside s k" for k using held that by (auto simp: held_def)
    moreover have "\<forall>k. pcs s Hakase = OCode k \<longrightarrow>
        lock s \<and> pcs s (Friend k) = OWait \<and> regs s Hakase = regs s (Friend k)"
      using held by (cases st) (auto simp: held_def idle_def)
    moreover have "pcs s Hakase \<in> {Main, TCheck, TClear, TSetjmp, TDone} \<longrightarrow> regs s Hakase = regs s0 Hakase"
      using held by (cases st) (auto simp: held_def idle_def)
    ultimately show ?thesis by metis
  qed
qed

theorem offload_safe_witness:
  "\<exists>s. ostep\<^sup>*\<^sup>* demo s \<and> pcs s Hakase = OCode 1 \<and> pcs s (Friend 1) = OWait \<and> regs s (Friend 1) = 11"
proof -
  obtain s where s: "run demo_sched demo = Some s" "pcs s Hakase = OCode 1" "regs s Hakase = 11"
    by (rule demo_run)
  then show ?thesis using offload_safe [OF demo_start run_steps [OF s(1)]] run_steps [OF s(1)] by auto
qed

text \<open>
  C1: The protocol refines direct execution: in every reachable state, the memory and the registers
  and remaining actions of the friends' programs are those of a run of the machine in which each
  friend performs its actions itself, in order and each exactly once; and when no friend is in the
  protocol these are simply its memory, registers and remaining actions.
\<close>

theorem offload_refines:
  assumes "start s0" "ostep\<^sup>*\<^sup>* s0 s"
  shows "sstep\<^sup>*\<^sup>* \<lparr>sglob = glob s0, sregs = regs s0 \<circ> Friend, stodo = todo s0\<rparr> (serial_of s) \<and>
     ((\<forall>i. pcs s (Friend i) = Main) \<longrightarrow>
        serial_of s = \<lparr>sglob = glob s, sregs = regs s \<circ> Friend, stodo = todo s\<rparr>)"
proof -
  have inv: "oinv (regs s0 Hakase) s" using assms(2) start_inv [OF assms(1)] by (rule off.inv_steps)
  have main: "serial_of t = \<lparr>sglob = glob t, sregs = regs t \<circ> Friend, stodo = todo t\<rparr>"
    if "oinv (regs s0 Hakase) t" "\<forall>i. pcs t (Friend i) = Main" for t :: "('a, 'b) offloader"
  proof -
    have "free (regs s0 Hakase) t" by (rule free_if_main) (use that in auto)
    from free_view [OF this] show ?thesis by (simp add: serial_of_eq comp_def)
  qed
  have "sstep\<^sup>*\<^sup>* (serial_of s0) (serial_of s)"
    using assms(2) start_inv [OF assms(1)] by (rule off.sim_steps)
  moreover have "\<forall>i. pcs s0 (Friend i) = Main" using assms(1) by (simp add: start_def)
  ultimately show ?thesis using main [OF start_inv [OF assms(1)]] main [OF inv] by simp
qed

theorem offload_refines_witness:
  "\<exists>s. run demo_sched demo = Some s \<and> pcs s Hakase = OCode 1 \<and>
     sstep\<^sup>*\<^sup>* \<lparr>sglob = [], sregs = id, stodo = todo demo\<rparr> (serial_of s)"
proof -
  obtain s where s: "run demo_sched demo = Some s" "pcs s Hakase = OCode 1" by (rule demo_run)
  have "glob demo = []" "regs demo \<circ> Friend = id" by (simp_all add: demo_def fun_eq_iff)
  then show ?thesis using offload_refines [OF demo_start run_steps [OF s(1)]] s by auto
qed

text \<open>From every state of the invariant with finitely many programs left all of them can be completed.\<close>

lemma can_drain:
  assumes inv: "oinv H s \<and> (\<forall>i \<ge> n. todo s i = [])"
  shows "\<exists>s'. ostep\<^sup>*\<^sup>* s s' \<and> (\<forall>i. todo s' i = [] \<and> pcs s' (Friend i) = Main) \<and> free H s'"
proof -
  let ?I = "\<lambda>s. oinv H s \<and> (\<forall>i \<ge> n. todo s i = [])"
  let ?\<mu> = "\<lambda>s :: ('a, 'b) offloader. \<Sum>i<n. length (todo s i)"
  have progress: "\<exists>t'. ostep\<^sup>*\<^sup>* t t' \<and> ?\<mu> t' < ?\<mu> t" if t: "?I t" "\<not> (\<forall>i. todo t i = [])"
    for t :: "('a, 'b) offloader"
  proof -
    obtain t' i where t': "ostep\<^sup>*\<^sup>* t t'" "todo t i \<noteq> []" "todo t' = (todo t)(i := tl (todo t i))"
      using todo_shrinks [of H t] t by blast
    have "i < n"
    proof (rule ccontr)
      assume "\<not> i < n"
      then show False using t(1) t'(2) by simp
    qed
    then have "?\<mu> t' < ?\<mu> t"
      using t'(2,3) by (intro sum_strict_mono_ex1) (auto intro!: bexI [of _ i])
    with t'(1) show ?thesis by blast
  qed
  obtain s' where s': "ostep\<^sup>*\<^sup>* s s'" and fin: "\<forall>i. todo s' i = []"
    using off_bounded.can_reach [where fin = "\<lambda>t. \<forall>i. todo t i = []" and \<mu> = ?\<mu>, OF progress inv] by blast
  have "oinv H s'" using off_bounded.inv_steps [OF s', of H n] inv by blast
  moreover from this have main: "pcs s' (Friend i) = Main" for i
    using fin by (simp add: oinv_def heads_def)
  ultimately show ?thesis using s' fin main free_if_main [of H s'] by blast
qed

text \<open>
  C3: No reachable state is a dead end: with finitely many friends that have work, the steps can
  always be continued to a state where every friend has finished its program and the lock is free.
\<close>

theorem offload_can_finish:
  assumes "start s0" "ostep\<^sup>*\<^sup>* s0 s" "\<forall>i \<ge> n. todo s0 i = []"
  shows "\<exists>s'. ostep\<^sup>*\<^sup>* s s' \<and> (\<forall>i. todo s' i = [] \<and> pcs s' (Friend i) = Main) \<and> \<not> lock s'"
proof -
  have "oinv (regs s0 Hakase) s \<and> (\<forall>i \<ge> n. todo s i = [])"
    using off_bounded.inv_steps [OF assms(2), of "regs s0 Hakase" n] start_inv [OF assms(1)] assms(3) by blast
  from can_drain [OF this] show ?thesis by (auto simp: free_def)
qed

theorem offload_can_finish_witness:
  "\<exists>s s'. run demo_sched demo = Some s \<and> pcs s Hakase = OCode 1 \<and> ostep\<^sup>*\<^sup>* s s' \<and> todo s' 1 = [] \<and> \<not> lock s'"
proof -
  obtain s where s: "run demo_sched demo = Some s" "pcs s Hakase = OCode 1" by (rule demo_run)
  have "\<forall>i \<ge> 2. todo demo i = []" by (simp add: demo_def)
  then show ?thesis using offload_can_finish [OF demo_start run_steps [OF s(1)], of 2] s by blast
qed


end
