(* ===== verification/Friend_Init.thy ===== *)
theory Friend_Init
  imports Memory_Map Transition_Systems
begin

text \<open>
  The start of the friend cores: the stack allocation of \<^verbatim>\<open>src/friend/boot.S\<close> and
  \<^verbatim>\<open>friend_init\<close> of \<^verbatim>\<open>src/friend/init.cc\<close>, which runs the constructors on the first core,
  \<^verbatim>\<open>friend_main\<close> on every core, and the destructors when the cores that have entered are done.
  Cores enter at any time and take steps in any order; one step is one access to shared memory or
  one call.
\<close>

section \<open>Stacks\<close>

definition STACK_SIZE :: u32 where
  "STACK_SIZE = 0x4000"

text \<open>The initial value of \<^verbatim>\<open>stack_offset\<close>.\<close>

definition STACK_OFFSET_INIT :: u32 where
  "STACK_OFFSET_INIT = 0x2000"

text \<open>
  \<^verbatim>\<open>entry64\<close>: the atomic \<^verbatim>\<open>xadd\<close> returns the old offset, which is sign-extended and added to
  the end of the binary. Result: the stack pointer and the new offset.
\<close>

definition entry64 :: "addr \<Rightarrow> u32 \<Rightarrow> addr \<times> u32" where
  "entry64 friend_binary_end stack_offset =
     (let eax = stack_offset; rax = (scast eax :: u64) in
      (rax + friend_binary_end, stack_offset + STACK_SIZE))"

section \<open>friend_init\<close>

datatype event = Ctor nat nat | Main_run nat | Dtor nat nat

datatype core_pc = Off | Entry | Start | Ctors nat | InMain | Return | Compare u32 | Dtors nat | SetFlag | Stopped

text \<open>
  The counters are of type \<^verbatim>\<open>int\<close> and only touched by the atomic additions, which wrap around, and by
  comparisons for equality: they are 32-bit words.
\<close>

record friend_state =
  stack_offset :: u32
  init_count :: u32
  returned_count :: u32
  sync_flag :: bool
  core :: "nat \<Rightarrow> core_pc"
  core_rsp :: "nat \<Rightarrow> addr"
  events :: "event list"

text \<open>What is fixed when the friend binary is linked.\<close>

record friend_image =
  friend_binary_end :: addr
  ctor_count :: nat
  dtor_count :: nat

definition at_pc :: "nat \<Rightarrow> core_pc \<Rightarrow> friend_state \<Rightarrow> friend_state" where
  "at_pc i l s = s\<lparr>core := (core s)(i := l)\<rparr>"

definition log_event :: "event \<Rightarrow> friend_state \<Rightarrow> friend_state" where
  "log_event e s = s\<lparr>events := events s @ [e]\<rparr>"

definition friend_init :: "friend_image \<Rightarrow> nat \<Rightarrow> friend_state \<Rightarrow> friend_state option" where
  "friend_init B i s = (case core s i of
      Off \<Rightarrow> Some (at_pc i Entry s)
    | Entry \<Rightarrow> (let (rsp, off) = entry64 (friend_binary_end B) (stack_offset s) in
        Some (at_pc i Start (s\<lparr>stack_offset := off, core_rsp := (core_rsp s)(i := rsp)\<rparr>)))
    | Start \<Rightarrow> Some (at_pc i (if init_count s = 0 then Ctors 0 else InMain)
        (s\<lparr>init_count := init_count s + 1\<rparr>))
    | Ctors k \<Rightarrow> Some (if k < ctor_count B then at_pc i (Ctors (k + 1)) (log_event (Ctor i k) s)
        else at_pc i InMain s)
    | InMain \<Rightarrow> Some (at_pc i Return (log_event (Main_run i) s))
    | Return \<Rightarrow> Some (at_pc i (Compare (returned_count s + 1))
        (s\<lparr>returned_count := returned_count s + 1\<rparr>))
    | Compare v \<Rightarrow> Some (at_pc i (if v = init_count s then Dtors 0 else Stopped) s)
    | Dtors k \<Rightarrow> Some (if k < dtor_count B then at_pc i (Dtors (k + 1)) (log_event (Dtor i k) s)
        else at_pc i SetFlag s)
    | SetFlag \<Rightarrow> Some (at_pc i Stopped (s\<lparr>sync_flag := True\<rparr>))
    | Stopped \<Rightarrow> None)"

definition friend_start :: friend_state where
  "friend_start = \<lparr>stack_offset = STACK_OFFSET_INIT, init_count = 0, returned_count = 0, sync_flag = False,
     core = (\<lambda>_. Off), core_rsp = (\<lambda>_. 0), events = []\<rparr>"

inductive fstep :: "friend_image \<Rightarrow> friend_state \<Rightarrow> friend_state \<Rightarrow> bool" for B where
  fstepI: "friend_init B i s = Some s' \<Longrightarrow> fstep B s s'"

inductive_cases fstepE: "fstep B s s'"

text \<open>\<^verbatim>\<open>is_friend_stopped\<close> of \<^verbatim>\<open>hakase/hakase.cc\<close> reads the flag.\<close>

definition is_friend_stopped :: "friend_state \<Rightarrow> bool" where
  "is_friend_stopped s = sync_flag s"

section \<open>The cores that have entered and returned\<close>

fun has_stack :: "core_pc \<Rightarrow> bool" where
  "has_stack Off = False" | "has_stack Entry = False" | "has_stack _ = True"

fun has_entered :: "core_pc \<Rightarrow> bool" where
  "has_entered Off = False" | "has_entered Entry = False" | "has_entered Start = False"
| "has_entered _ = True"

fun has_returned :: "core_pc \<Rightarrow> bool" where
  "has_returned (Compare _) = True" | "has_returned (Dtors _) = True" | "has_returned SetFlag = True"
| "has_returned Stopped = True" | "has_returned _ = False"

abbreviation cores :: "(core_pc \<Rightarrow> bool) \<Rightarrow> friend_state \<Rightarrow> nat set" where
  "cores P s \<equiv> {i. P (core s i)}"

lemma cores_upd: "{j. P ((f(i := l)) j)} = (if P l then insert i {j. P (f j)} else {j. P (f j)} - {i})"
  by auto

lemma returned_entered: "cores has_returned s \<subseteq> cores has_entered s"
proof
  fix i assume "i \<in> cores has_returned s"
  then show "i \<in> cores has_entered s" by (cases "core s i") auto
qed

lemma finite_returned: "finite (cores has_entered s) \<Longrightarrow> finite (cores has_returned s)"
  by (rule finite_subset [OF returned_entered])

lemmas finit_defs = friend_init_def at_pc_def log_event_def

lemma friend_init_other: "friend_init B i s = Some s' \<Longrightarrow> j \<noteq> i \<Longrightarrow> core s' j = core s j"
  by (cases "core s i") (auto simp: finit_defs Let_def case_prod_unfold split: if_splits)

lemma friend_init_mono:
  assumes "friend_init B i s = Some s'"
  shows "has_entered (core s j) \<Longrightarrow> has_entered (core s' j)"
    and "has_returned (core s j) \<Longrightarrow> has_returned (core s' j)"
  using assms friend_init_other [OF assms, of j]
  by (cases "j = i"; cases "core s i"; auto simp: finit_defs Let_def case_prod_unfold split: if_splits)+

lemma friend_init_phase:
  assumes "friend_init B i s = Some s'"
  shows "core s i \<noteq> Start \<Longrightarrow> has_entered (core s' j) = has_entered (core s j)"
    and "core s i \<noteq> Return \<Longrightarrow> has_returned (core s' j) = has_returned (core s j)"
  using assms friend_init_other [OF assms, of j]
  by (cases "j = i"; cases "core s i"; auto simp: finit_defs Let_def case_prod_unfold split: if_splits)+

definition counts_inv :: "friend_state \<Rightarrow> bool" where
  "counts_inv s \<longleftrightarrow> finite (cores has_entered s) \<and> init_count s = of_nat (card (cores has_entered s)) \<and>
     returned_count s = of_nat (card (cores has_returned s))"

text \<open>A core that compares has counted no more returns than there are.\<close>

definition compare_inv :: "friend_state \<Rightarrow> bool" where
  "compare_inv s \<longleftrightarrow> (\<forall>i v. core s i = Compare v \<longrightarrow> (\<exists>k \<le> card (cores has_returned s). v = of_nat k))"

text \<open>When every core that has entered has returned, one of them stops the friend or has done so.\<close>

fun stopping :: "u32 \<Rightarrow> core_pc \<Rightarrow> bool" where
  "stopping n (Compare v) = (v = n)" | "stopping n (Dtors _) = True" | "stopping n SetFlag = True"
| "stopping n _ = False"

definition all_returned :: "friend_state \<Rightarrow> bool" where
  "all_returned s \<longleftrightarrow> (\<exists>i. has_entered (core s i)) \<and> (\<forall>i. has_entered (core s i) \<longrightarrow> has_returned (core s i))"

definition stop_inv :: "friend_state \<Rightarrow> bool" where
  "stop_inv s \<longleftrightarrow> (all_returned s \<longrightarrow> sync_flag s \<or> (\<exists>i. stopping (init_count s) (core s i)))"

definition finit_inv :: "friend_state \<Rightarrow> bool" where
  "finit_inv s \<longleftrightarrow> counts_inv s \<and> compare_inv s \<and> stop_inv s"

lemma all_returned_sets: "all_returned s \<Longrightarrow> cores has_returned s = cores has_entered s"
  using returned_entered [of s] unfolding all_returned_def by blast

lemma counts_step:
  assumes "counts_inv s" "friend_init B i s = Some s'"
  shows "counts_inv s'"
proof -
  have fin: "finite (cores has_entered s)" "finite (cores has_returned s)"
    using assms(1) finite_returned by (auto simp: counts_inv_def)
  have set: "core s' = (core s)(i := core s' i)"
    using assms(2) by (cases "core s i") (auto simp: finit_defs Let_def case_prod_unfold split: if_splits)
  have "cores has_entered s' = {j. has_entered (((core s)(i := core s' i)) j)}"
    "cores has_returned s' = {j. has_returned (((core s)(i := core s' i)) j)}"
    by (subst set, simp)+
  note upd = this [unfolded cores_upd]
  show ?thesis
    using assms fin unfolding counts_inv_def upd
    by (cases "core s i")
      (auto simp: finit_defs Let_def case_prod_unfold insert_absorb add.commute split: if_splits)
qed

lemma compare_step:
  assumes c: "counts_inv s" and cmp: "compare_inv s" and e: "friend_init B i s = Some s'"
  shows "compare_inv s'"
  unfolding compare_inv_def
proof (intro allI impI)
  fix j v assume j: "core s' j = Compare v"
  have c': "counts_inv s'" using c e by (rule counts_step)
  have "cores has_returned s \<subseteq> cores has_returned s'" using friend_init_mono(2) [OF e] by blast
  moreover have "finite (cores has_returned s')" using c' finite_returned by (simp add: counts_inv_def)
  ultimately have le: "card (cores has_returned s) \<le> card (cores has_returned s')" by (intro card_mono)
  have "v = returned_count s' \<or> core s j = Compare v"
    using e j friend_init_other [OF e, of j]
    by (cases "j = i"; cases "core s i"; auto simp: finit_defs Let_def case_prod_unfold split: if_splits)
  then show "\<exists>k \<le> card (cores has_returned s'). v = of_nat k"
  proof
    assume "v = returned_count s'"
    then show ?thesis using c' by (auto simp: counts_inv_def)
  next
    assume "core s j = Compare v"
    then show ?thesis using cmp le unfolding compare_inv_def by (meson order_trans)
  qed
qed

lemma stop_step:
  assumes c: "counts_inv s" and st: "stop_inv s" and e: "friend_init B i s = Some s'"
  shows "stop_inv s'"
proof (cases "all_returned s' \<and> \<not> sync_flag s'")
  case True
  have "\<exists>j. stopping (init_count s') (core s' j)"
  proof (cases "core s i \<in> {Start, Return}")
    case True': True
    have "core s i \<noteq> Start"
    proof
      assume "core s i = Start"
      then have "has_entered (core s' i)" "\<not> has_returned (core s' i)" using e by (auto simp: finit_defs split: if_splits)
      then show False using True by (auto simp: all_returned_def)
    qed
    then have "core s' i = Compare (returned_count s')" using True' e by (auto simp: finit_defs)
    moreover have "returned_count s' = init_count s'"
      using counts_step [OF c e] all_returned_sets [of s'] True by (simp add: counts_inv_def)
    ultimately have "stopping (init_count s') (core s' i)" by simp
    then show ?thesis by blast
  next
    case False
    then have same: "init_count s' = init_count s" "\<not> sync_flag s"
      using e True by (cases "core s i"; auto simp: finit_defs Let_def case_prod_unfold split: if_splits)+
    have "has_entered (core s' j) = has_entered (core s j)" "has_returned (core s' j) = has_returned (core s j)" for j
      using friend_init_phase [OF e, of j] False by auto
    then have "all_returned s" using True by (simp add: all_returned_def)
    then obtain j where j: "stopping (init_count s) (core s j)" using st same(2) by (auto simp: stop_inv_def)
    show ?thesis
    proof (cases "j = i")
      case True': True
      with j e True have "stopping (init_count s') (core s' i)"
        by (cases "core s i") (auto simp: finit_defs split: if_splits)
      then show ?thesis by blast
    next
      case False
      then show ?thesis using j friend_init_other [OF e, of j] same by (intro exI [of _ j]) auto
    qed
  qed
  then show ?thesis unfolding stop_inv_def by blast
qed (auto simp: stop_inv_def)

lemma finit_inv_step: "finit_inv s \<Longrightarrow> fstep B s s' \<Longrightarrow> finit_inv s'"
  using counts_step compare_step stop_step unfolding finit_inv_def by (metis fstepE)

lemma finit_inv_start: "finit_inv friend_start"
  by (simp add: finit_inv_def counts_inv_def compare_inv_def stop_inv_def friend_start_def)
    (simp add: all_returned_def)

interpretation finit: inv_system "fstep B" finit_inv for B
  by unfold_locales (rule finit_inv_step)

text \<open>Fewer than 2^32 entries, so that the counters have not wrapped around.\<close>

abbreviation few_entered :: "friend_state \<Rightarrow> bool" where
  "few_entered s \<equiv> card (cores has_entered s) < 2 ^ 32"

lemma few_entered_back:
  assumes "counts_inv s" "friend_init B i s = Some s'" "few_entered s'"
  shows "few_entered s"
proof -
  have "finite (cores has_entered s')" using counts_step [OF assms(1,2)] by (simp add: counts_inv_def)
  moreover have "cores has_entered s \<subseteq> cores has_entered s'" using friend_init_mono(1) [OF assms(2)] by blast
  ultimately have "card (cores has_entered s) \<le> card (cores has_entered s')" by (rule card_mono)
  with assms(3) show ?thesis by simp
qed

lemma init_count_zero:
  assumes "counts_inv s" "few_entered s"
  shows "init_count s = 0 \<longleftrightarrow> (\<forall>i. \<not> has_entered (core s i))"
proof -
  have "init_count s = 0 \<longleftrightarrow> card (cores has_entered s) = 0"
    using assms by (auto simp: counts_inv_def word_of_nat_eq_0_iff dest: nat_dvd_not_less)
  then show ?thesis using assms(1) by (auto simp: counts_inv_def)
qed

text \<open>The comparison succeeds only when all that have entered have returned.\<close>

lemma compare_all_returned:
  assumes inv: "finit_inv s" and few: "few_entered s" and v: "core s i = Compare v" "v = init_count s"
  shows "all_returned s"
proof -
  have c: "counts_inv s" using inv by (simp add: finit_inv_def)
  then have fin: "finite (cores has_entered s)" by (simp add: counts_inv_def)
  have le: "card (cores has_returned s) \<le> card (cores has_entered s)"
    using fin returned_entered by (rule card_mono)
  obtain k where k: "k \<le> card (cores has_returned s)" "v = of_nat k"
    using inv v(1) by (auto simp: finit_inv_def compare_inv_def)
  have "(of_nat k :: u32) = of_nat (card (cores has_entered s))" using v(2) k(2) c by (simp add: counts_inv_def)
  then have "k = card (cores has_entered s)"
    using few k(1) le by (simp add: word_of_nat_eq_iff take_bit_nat_eq_self)
  then have "card (cores has_returned s) = card (cores has_entered s)" using k(1) le by linarith
  then have eq: "cores has_returned s = cores has_entered s" by (rule card_subset_eq [OF fin returned_entered])
  then have "has_returned (core s j)" if "has_entered (core s j)" for j using that by blast
  moreover have "has_entered (core s i)" using v(1) by simp
  ultimately show ?thesis unfolding all_returned_def by blast
qed

section \<open>Runs\<close>

primrec frun :: "friend_image \<Rightarrow> nat list \<Rightarrow> friend_state \<Rightarrow> friend_state option" where
  "frun B [] s = Some s"
| "frun B (i # is) s = (case friend_init B i s of None \<Rightarrow> None | Some s' \<Rightarrow> frun B is s')"

lemma frun_steps: "frun B is s = Some s' \<Longrightarrow> (fstep B)\<^sup>*\<^sup>* s s'"
  by (induction "is" arbitrary: s)
    (auto split: option.splits intro: fstepI converse_rtranclp_into_rtranclp)

lemma frun_others: "frun B is s = Some s' \<Longrightarrow> j \<notin> set is \<Longrightarrow> core s' j = core s j"
proof (induction "is" arbitrary: s)
  case Nil
  then show ?case by simp
next
  case (Cons i "is")
  then obtain s1 where "friend_init B i s = Some s1" "frun B is s1 = Some s'" by (auto split: option.splits)
  then show ?case using Cons friend_init_other [of B i s s1 j] by simp
qed

definition demo_image :: friend_image where
  "demo_image = \<lparr>friend_binary_end = 0x100010000, ctor_count = 1, dtor_count = 1\<rparr>"

text \<open>Core 0 runs to its end before core 1 is started.\<close>

definition one_after_the_other :: "nat list" where
  "one_after_the_other = replicate 11 0 @ replicate 8 1"

text \<open>Core 1 enters while core 0 is about to run the constructors.\<close>

definition side_by_side :: "nat list" where
  "side_by_side = [0, 0, 0, 1, 1, 1, 1]"

lemma finit_reach: "(fstep B)\<^sup>*\<^sup>* friend_start s \<Longrightarrow> finit_inv s"
  using finit.inv_steps finit_inv_start by blast

section \<open>The calls of each core\<close>

fun core_of :: "event \<Rightarrow> nat" where
  "core_of (Ctor i _) = i" | "core_of (Main_run i) = i" | "core_of (Dtor i _) = i"

definition own :: "nat \<Rightarrow> event list \<Rightarrow> event list" where
  "own i es = filter (\<lambda>e. core_of e = i) es"

text \<open>
  What core \<open>i\<close> has called when it is at a given point: the constructors, if it was the first to
  enter, then \<^verbatim>\<open>friend_main\<close>, then the destructors, if it decided to stop the friend.
\<close>

definition ctor_calls :: "friend_image \<Rightarrow> bool \<Rightarrow> nat \<Rightarrow> event list" where
  "ctor_calls B first i = (if first then map (Ctor i) [0..<ctor_count B] else [])"

definition full_calls :: "friend_image \<Rightarrow> bool \<Rightarrow> nat \<Rightarrow> event list" where
  "full_calls B first i = ctor_calls B first i @ Main_run i # map (Dtor i) [0..<dtor_count B]"

fun own_calls :: "friend_image \<Rightarrow> bool \<Rightarrow> nat \<Rightarrow> core_pc \<Rightarrow> event list \<Rightarrow> bool" where
  "own_calls B first i (Ctors k) es = (first \<and> k \<le> ctor_count B \<and> es = map (Ctor i) [0..<k])"
| "own_calls B first i InMain es = (es = ctor_calls B first i)"
| "own_calls B first i Return es = (es = ctor_calls B first i @ [Main_run i])"
| "own_calls B first i (Compare _) es = (es = ctor_calls B first i @ [Main_run i])"
| "own_calls B first i (Dtors k) es =
     (k \<le> dtor_count B \<and> es = ctor_calls B first i @ Main_run i # map (Dtor i) [0..<k])"
| "own_calls B first i SetFlag es = (es = full_calls B first i)"
| "own_calls B first i Stopped es = (es = ctor_calls B first i @ [Main_run i] \<or> es = full_calls B first i)"
| "own_calls B first i _ es = (es = [])"

definition calls_inv :: "friend_image \<Rightarrow> nat \<Rightarrow> friend_state \<Rightarrow> bool" where
  "calls_inv B c s \<longleftrightarrow> (\<forall>i. own_calls B (i = c) i (core s i) (own i (events s))) \<and>
     ((\<exists>i. has_entered (core s i)) \<longrightarrow> has_entered (core s c)) \<and>
     (sync_flag s \<longrightarrow> (\<exists>i. core s i = Stopped \<and> own i (events s) = full_calls B (i = c) i))"

lemma own_other:
  assumes "friend_init B i s = Some s'" "j \<noteq> i"
  shows "own j (events s') = own j (events s)"
  using assms by (cases "core s i") (auto simp: own_def finit_defs Let_def case_prod_unfold split: if_splits)

lemma own_calls_early: "\<not> has_entered l \<Longrightarrow> own_calls B b i l es \<longleftrightarrow> es = []"
  by (cases l) auto

lemma own_calls_step:
  assumes e: "friend_init B i s = Some s'" and own: "own_calls B b i (core s i) (own i (events s))"
    and start: "core s i = Start \<Longrightarrow> (init_count s = 0 \<longleftrightarrow> b)"
  shows "own_calls B b i (core s' i) (own i (events s'))"
  using assms
  by (cases "core s i")
    (auto simp: own_def finit_defs Let_def case_prod_unfold ctor_calls_def full_calls_def split: if_splits)

lemma sync_flag_step:
  assumes "friend_init B i s = Some s'" "sync_flag s'"
  shows "sync_flag s \<or> core s i = SetFlag"
  using assms by (cases "core s i") (auto simp: finit_defs Let_def case_prod_unfold split: if_splits)

lemma stopped_stays: "friend_init B i s = Some s' \<Longrightarrow> core s j = Stopped \<Longrightarrow> j \<noteq> i"
  by (auto simp: finit_defs)

lemma calls_step:
  assumes inv: "calls_inv B c s" and e: "friend_init B i s = Some s'"
    and start: "core s i = Start \<Longrightarrow> (init_count s = 0 \<longleftrightarrow> i = c)"
    and none: "\<forall>j. \<not> has_entered (core s j) \<Longrightarrow> init_count s = 0"
  shows "calls_inv B c s'"
  unfolding calls_inv_def
proof (intro conjI allI impI)
  fix j
  show "own_calls B (j = c) j (core s' j) (own j (events s'))"
    using inv own_calls_step [OF e, of "i = c"] start friend_init_other [OF e] own_other [OF e]
    by (cases "j = i") (simp_all add: calls_inv_def)
next
  assume new: "\<exists>j. has_entered (core s' j)"
  show "has_entered (core s' c)"
  proof (cases "\<exists>j. has_entered (core s j)")
    case True
    then have "has_entered (core s c)" using inv by (simp add: calls_inv_def)
    then show ?thesis by (rule friend_init_mono(1) [OF e])
  next
    case False
    with new obtain j where "\<not> has_entered (core s j)" "has_entered (core s' j)" by blast
    then have "core s i = Start" "j = i" using friend_init_phase(1) [OF e, of j] friend_init_other [OF e, of j] by metis+
    then show ?thesis using start none False \<open>has_entered (core s' j)\<close> by simp
  qed
next
  assume "sync_flag s'"
  then consider "sync_flag s" | "core s i = SetFlag" using sync_flag_step [OF e] by blast
  then show "\<exists>j. core s' j = Stopped \<and> own j (events s') = full_calls B (j = c) j"
  proof cases
    case 1
    then obtain j where j: "core s j = Stopped" "own j (events s) = full_calls B (j = c) j"
      using inv by (auto simp: calls_inv_def)
    then have "j \<noteq> i" using stopped_stays [OF e] by blast
    then show ?thesis using j friend_init_other [OF e] own_other [OF e] by (intro exI [of _ j]) simp
  next
    case 2
    then have "own i (events s) = full_calls B (i = c) i" using inv by (auto simp: calls_inv_def dest: spec [of _ i])
    moreover have "core s' i = Stopped" "events s' = events s" using 2 e by (auto simp: finit_defs)
    ultimately show ?thesis by auto
  qed
qed

text \<open>Before the first core has entered, any core can turn out to be the first.\<close>

lemma calls_fresh:
  assumes "calls_inv B c s" "\<forall>j. \<not> has_entered (core s j)"
  shows "calls_inv B i s"
proof -
  have "core s j \<noteq> Stopped" for j using assms(2) [rule_format, of j] by auto
  then show ?thesis using assms by (simp add: calls_inv_def own_calls_early)
qed

lemma calls_reach:
  assumes "(fstep B)\<^sup>*\<^sup>* friend_start s" "few_entered s"
  shows "\<exists>c. calls_inv B c s"
  using assms
proof (induction rule: rtranclp_induct)
  case base
  show ?case by (simp add: calls_inv_def friend_start_def own_def)
next
  case (step s s')
  obtain i where e: "friend_init B i s = Some s'" using step.hyps(2) by (auto elim: fstepE)
  have c: "counts_inv s" using finit_reach [OF step.hyps(1)] by (simp add: finit_inv_def)
  then have few: "few_entered s" using e step.prems by (rule few_entered_back)
  then obtain c where inv: "calls_inv B c s" using step.IH by blast
  note zero = init_count_zero [OF c few]
  show ?case
  proof (cases "\<exists>j. has_entered (core s j)")
    case True
    then have "has_entered (core s c)" using inv by (simp add: calls_inv_def)
    then have "calls_inv B c s'" using zero by (intro calls_step [OF inv e]) auto
    then show ?thesis by blast
  next
    case False
    then have "calls_inv B i s" using calls_fresh [OF inv] by blast
    then have "calls_inv B i s'" by (rule calls_step [OF _ e]) (use zero False in auto)
    then show ?thesis by blast
  qed
qed

text \<open>A core that runs the destructors, or the flag, goes back to a comparison that succeeded.\<close>

fun decided :: "core_pc \<Rightarrow> bool" where
  "decided (Dtors _) = True" | "decided SetFlag = True" | "decided _ = False"

lemma decided_step:
  assumes "friend_init B i s = Some s'" "sync_flag s' \<or> (\<exists>j. decided (core s' j))"
  shows "sync_flag s \<or> (\<exists>j. decided (core s j)) \<or> core s i = Compare (init_count s)"
proof (cases "decided (core s' i) \<or> sync_flag s'")
  case True
  then have "decided (core s i) \<or> sync_flag s \<or> core s i = Compare (init_count s)"
    using assms(1) by (cases "core s i") (auto simp: finit_defs Let_def case_prod_unfold split: if_splits)
  then show ?thesis by blast
next
  case False
  then obtain j where "decided (core s' j)" "j \<noteq> i" using assms(2) by blast
  then show ?thesis using friend_init_other [OF assms(1), of j] by auto
qed

lemma decided_reach:
  assumes "(fstep B)\<^sup>*\<^sup>* friend_start s" "few_entered s" "sync_flag s \<or> (\<exists>i. decided (core s i))"
  shows "\<exists>r. (fstep B)\<^sup>*\<^sup>* friend_start r \<and> (fstep B)\<^sup>*\<^sup>* r s \<and> all_returned r"
  using assms
proof (induction rule: rtranclp_induct)
  case base
  then show ?case by (simp add: friend_start_def)
next
  case (step s s')
  obtain i where e: "friend_init B i s = Some s'" using step.hyps(2) by (auto elim: fstepE)
  have inv: "finit_inv s" using step.hyps(1) by (rule finit_reach)
  then have "counts_inv s" by (simp add: finit_inv_def)
  then have few: "few_entered s" using e step.prems(1) by (rule few_entered_back)
  consider "sync_flag s \<or> (\<exists>j. decided (core s j))" | "core s i = Compare (init_count s)"
    using decided_step [OF e step.prems(2)] by blast
  then show ?case
  proof cases
    case 1
    then show ?thesis using step.IH [OF few] step.hyps(2) by (meson rtranclp.rtrancl_into_rtrancl)
  next
    case 2
    then have "all_returned s" using compare_all_returned [OF inv few] by blast
    then show ?thesis using step.hyps by blast
  qed
qed

text \<open>
  C10: As long as fewer than 2^32 cores have entered friend_init (the counters are int and wrap
  around), hakase sees the friend as stopped only if there was an earlier moment of the run at
  which at least one core had entered friend_init and every core that had entered had returned from
  friend_main, and only after one core has run its calls to the end, with every destructor of the
  array in order after its friend_main. Cores that enter after that moment are not covered: they
  may still be in friend_main.
\<close>

theorem stop_decision:
  assumes "(fstep B)\<^sup>*\<^sup>* friend_start s" "card (cores has_entered s) < 2 ^ 32" "is_friend_stopped s"
  shows "(\<exists>r. (fstep B)\<^sup>*\<^sup>* friend_start r \<and> (fstep B)\<^sup>*\<^sup>* r s \<and> (\<exists>i. has_entered (core r i)) \<and>
       (\<forall>i. has_entered (core r i) \<longrightarrow> has_returned (core r i))) \<and>
     (\<exists>i pre. core s i = Stopped \<and>
       own i (events s) = pre @ Main_run i # map (Dtor i) [0..<dtor_count B])"
proof
  have flag: "sync_flag s" using assms(3) by (simp add: is_friend_stopped_def)
  then show "\<exists>r. (fstep B)\<^sup>*\<^sup>* friend_start r \<and> (fstep B)\<^sup>*\<^sup>* r s \<and> (\<exists>i. has_entered (core r i)) \<and>
       (\<forall>i. has_entered (core r i) \<longrightarrow> has_returned (core r i))"
    using decided_reach [OF assms(1,2)] by (simp add: all_returned_def)
  obtain c where "calls_inv B c s" using calls_reach [OF assms(1,2)] by blast
  then obtain i where "core s i = Stopped" "own i (events s) = full_calls B (i = c) i"
    using flag by (auto simp: calls_inv_def)
  then show "\<exists>i pre. core s i = Stopped \<and>
      own i (events s) = pre @ Main_run i # map (Dtor i) [0..<dtor_count B]"
    unfolding full_calls_def by blast
qed

lemma few_in_run: "frun B is friend_start = Some s \<Longrightarrow> length is < 2 ^ 32 \<Longrightarrow> few_entered s"
proof -
  assume r: "frun B is friend_start = Some s" and l: "length is < 2 ^ 32"
  have "cores has_entered s \<subseteq> set is"
    using frun_others [OF r] by (force simp: friend_start_def)
  then have "card (cores has_entered s) \<le> card (set is)" by (intro card_mono) simp_all
  also have "\<dots> \<le> length is" by (rule card_length)
  finally show ?thesis using l by simp
qed

theorem stop_decision_witness:
  "\<exists>s r. frun demo_image (replicate 11 0) friend_start = Some s \<and> is_friend_stopped s \<and>
     (fstep demo_image)\<^sup>*\<^sup>* r s \<and> (\<forall>i. has_entered (core r i) \<longrightarrow> has_returned (core r i))"
proof -
  have "map_option is_friend_stopped (frun demo_image (replicate 11 0) friend_start) = Some True" by code_simp
  then obtain s where s: "frun demo_image (replicate 11 0) friend_start = Some s" "is_friend_stopped s" by auto
  have "few_entered s" using s(1) by (rule few_in_run) simp
  from stop_decision [OF frun_steps [OF s(1)] this s(2)] s show ?thesis by blast
qed

text \<open>
  C11: When every core that was started has stopped, and at least one was, hakase sees the friend as
  stopped.
\<close>

theorem all_stopped:
  assumes "(fstep B)\<^sup>*\<^sup>* friend_start s" "\<forall>i. core s i \<in> {Off, Stopped}" "core s i = Stopped"
  shows "is_friend_stopped s"
proof -
  have inv: "finit_inv s" using assms(1) by (rule finit_reach)
  have "has_returned (core s j) \<longleftrightarrow> has_entered (core s j)" for j
    using assms(2) [rule_format, of j] by auto
  moreover have "has_entered (core s i)" using assms(3) by simp
  ultimately have "all_returned s" unfolding all_returned_def by blast
  moreover have "\<not> stopping n (core s j)" for n j using assms(2) [rule_format, of j] by auto
  ultimately show ?thesis using inv by (auto simp: finit_inv_def stop_inv_def is_friend_stopped_def)
qed

theorem all_stopped_witness:
  "\<exists>s. frun demo_image (replicate 11 0) friend_start = Some s \<and> is_friend_stopped s"
proof -
  have "map_option (\<lambda>s. core s 0) (frun demo_image (replicate 11 0) friend_start) = Some Stopped" by code_simp
  then obtain s where s: "frun demo_image (replicate 11 0) friend_start = Some s" "core s 0 = Stopped" by auto
  moreover have "core s i \<in> {Off, Stopped}" for i
    using frun_others [OF s(1), of i] s(2) by (cases "i = 0") (auto simp: friend_start_def)
  ultimately show ?thesis using all_stopped [OF frun_steps [OF s(1)], of 0] by blast
qed

text \<open>
  C12: As long as fewer than 2^32 cores have entered friend_init, there is one core, the first to
  enter, such that the calls that each core has made are exactly these: that core alone runs the
  constructors, all of them, once and in the order of the array, before its own friend_main; every
  core runs friend_main once; a core runs the destructors, all of them and in order, only after its
  friend_main and only if it goes on to set the flag. (A core at Ctors k has run the first k
  constructors; a core that is stopped without setting the flag has run no destructor.)
\<close>

theorem calls_once:
  assumes "(fstep B)\<^sup>*\<^sup>* friend_start s" "card (cores has_entered s) < 2 ^ 32"
  shows "\<exists>c. ((\<exists>i. has_entered (core s i)) \<longrightarrow> has_entered (core s c)) \<and>
     (\<forall>i. own_calls B (i = c) i (core s i) (own i (events s)))"
  using calls_reach [OF assms] unfolding calls_inv_def by blast

theorem calls_once_witness:
  "\<exists>s. frun demo_image one_after_the_other friend_start = Some s \<and>
     own 1 (events s) = [Main_run 1, Dtor 1 0] \<and> own 0 (events s) \<noteq> []"
proof -
  have "map_option (\<lambda>s. (core s 0, core s 1, hd (events s)))
      (frun demo_image one_after_the_other friend_start) = Some (Stopped, SetFlag, Ctor 0 0)" by code_simp
  then obtain s where s: "frun demo_image one_after_the_other friend_start = Some s"
    "core s 0 = Stopped" "core s 1 = SetFlag" by auto
  have few: "few_entered s" using s(1) by (rule few_in_run) (simp add: one_after_the_other_def)
  obtain c where c: "\<And>i. own_calls demo_image (i = c) i (core s i) (own i (events s))"
    using calls_once [OF frun_steps [OF s(1)] few] by blast
  have ev: "map_option events (frun demo_image one_after_the_other friend_start) =
      Some [Ctor 0 0, Main_run 0, Dtor 0 0, Main_run 1, Dtor 1 0]" by code_simp
  then have "own 0 (events s) = [Ctor 0 0, Main_run 0, Dtor 0 0]" using s(1) by (simp add: own_def)
  then have "c = 0" using c [of 0] s(2)
    by (auto simp: full_calls_def ctor_calls_def demo_image_def split: if_splits)
  then show ?thesis using c [of 1] s \<open>own 0 (events s) = _\<close>
    by (simp add: full_calls_def ctor_calls_def demo_image_def)
qed

section \<open>Stacks do not overlap\<close>

text \<open>The stack pointer of the \<open>k\<close>-th core to take a stack.\<close>

definition nth_rsp :: "addr \<Rightarrow> nat \<Rightarrow> addr" where
  "nth_rsp e k = fst (entry64 e (STACK_OFFSET_INIT + of_nat k * STACK_SIZE))"

definition stack_inv :: "friend_image \<Rightarrow> friend_state \<Rightarrow> bool" where
  "stack_inv B s \<longleftrightarrow> finite (cores has_stack s) \<and>
     stack_offset s = STACK_OFFSET_INIT + of_nat (card (cores has_stack s)) * STACK_SIZE \<and>
     (\<exists>slot. inj_on slot (cores has_stack s) \<and> (\<forall>i \<in> cores has_stack s. slot i < card (cores has_stack s) \<and>
        core_rsp s i = nth_rsp (friend_binary_end B) (slot i)))"

lemma stack_step:
  assumes inv: "stack_inv B s" and e: "friend_init B i s = Some s'"
  shows "stack_inv B s'"
proof (cases "core s i = Entry")
  case False
  then have "has_stack (core s' j) \<longleftrightarrow> has_stack (core s j)" for j
    using e by (cases "core s i") (auto simp: finit_defs Let_def case_prod_unfold split: if_splits)
  moreover have "stack_offset s' = stack_offset s" "core_rsp s' = core_rsp s"
    using False e by (cases "core s i"; auto simp: finit_defs Let_def case_prod_unfold split: if_splits)+
  ultimately show ?thesis using inv by (simp add: stack_inv_def)
next
  case True
  let ?A = "cores has_stack s"
  obtain slot where slot: "inj_on slot ?A" "\<And>j. j \<in> ?A \<Longrightarrow> slot j < card ?A \<and>
      core_rsp s j = nth_rsp (friend_binary_end B) (slot j)"
    and fin: "finite ?A" and off: "stack_offset s = STACK_OFFSET_INIT + of_nat (card ?A) * STACK_SIZE"
    using inv by (auto simp: stack_inv_def)
  have i: "i \<notin> ?A" using True by simp
  have s': "core s' = (core s)(i := Start)" "stack_offset s' = stack_offset s + STACK_SIZE"
    "core_rsp s' = (core_rsp s)(i := nth_rsp (friend_binary_end B) (card ?A))"
    using True e by (auto simp: finit_defs Let_def entry64_def nth_rsp_def off)
  have A': "cores has_stack s' = insert i ?A" by (auto simp: s')
  have card: "card (cores has_stack s') = Suc (card ?A)" unfolding A' by (rule card_insert_disjoint [OF fin i])
  define slot' where "slot' = slot(i := card ?A)"
  have old: "slot' j = slot j" if "j \<in> ?A" for j using that i by (auto simp: slot'_def)
  have "inj_on slot' ?A" by (rule inj_on_cong [THEN iffD2, OF old slot(1)])
  moreover have "slot' i \<notin> slot' ` ?A"
  proof
    assume "slot' i \<in> slot' ` ?A"
    then obtain j where "j \<in> ?A" "slot' i = slot' j" by blast
    then have "card ?A = slot j" using old by (simp add: slot'_def)
    then show False using slot(2) [OF \<open>j \<in> ?A\<close>] by simp
  qed
  ultimately have "inj_on slot' (insert i ?A)" using i unfolding inj_on_insert by blast
  moreover have "\<forall>j \<in> insert i ?A. slot' j < Suc (card ?A) \<and> core_rsp s' j = nth_rsp (friend_binary_end B) (slot' j)"
    using slot(2) i by (auto simp: slot'_def s' less_Suc_eq)
  ultimately show ?thesis
    using fin off unfolding stack_inv_def card unfolding A' s'(2) by (auto simp: algebra_simps)
qed

interpretation stacks: inv_system "fstep B" "stack_inv B" for B
  by unfold_locales (blast elim: fstepE intro: stack_step)

lemma scast_small:
  fixes x :: u32
  assumes "unat x < 2 ^ 31"
  shows "(scast x :: u64) = ucast x"
proof (rule bit_word_eqI)
  have "take_bit 31 x = x" using assms by (simp only: unat_less_iff_take_bit)
  then have hi: "bit x n \<Longrightarrow> n < 31" for n by (metis bit_take_bit_iff)
  fix n assume "n < LENGTH(64)"
  then show "bit (scast x :: u64) n = bit (ucast x :: u64) n"
    using hi [of n] hi [of 31] by (auto simp: bit_signed_iff bit_unsigned_iff min_def)
qed

lemma unat_nth_rsp:
  assumes "unat e + 0x2000 + k * 0x4000 \<le> 0x140000000" "0x100000000 \<le> unat e"
  shows "unat (nth_rsp e k) = unat e + 0x2000 + k * 0x4000"
proof -
  let ?x = "STACK_OFFSET_INIT + of_nat k * STACK_SIZE"
  have k: "k < 0x10000" using assms by simp
  have x: "unat ?x = 0x2000 + k * 0x4000"
    using k by (simp add: STACK_OFFSET_INIT_def STACK_SIZE_def unat_word_ariths unat_of_nat take_bit_nat_eq_self)
  then have "(scast ?x :: u64) = ucast ?x" using k by (intro scast_small) simp
  then have "nth_rsp e k = ucast ?x + e" by (simp add: nth_rsp_def entry64_def Let_def)
  moreover have "unat (ucast ?x :: u64) = unat ?x" using k by (simp add: unsigned_ucast_eq take_bit_nat_eq_self x)
  ultimately show ?thesis using assms x by (simp add: unat_word_ariths)
qed

text \<open>
  C13: As long as the stacks fit between the end of the binary and the end of the friend's memory,
  the ranges of STACK_SIZE bytes below the stack pointers of two cores do not overlap and they
  lie in the friend's memory; all but the first range lie entirely behind the binary.
\<close>

theorem stacks_disjoint:
  assumes "(fstep B)\<^sup>*\<^sup>* friend_start s"
    and "DEPLOY_PHYS_ADDR_START + 0x4000 \<le> friend_binary_end B"
    and "unat (friend_binary_end B) + 0x2000 + card (cores has_stack s) * 0x4000 \<le> unat DEPLOY_PHYS_ADDR_END"
  shows "(\<forall>i j. i \<in> cores has_stack s \<and> j \<in> cores has_stack s \<and> i \<noteq> j \<longrightarrow>
       region (core_rsp s i - 0x4000) 0x4000 \<inter> region (core_rsp s j - 0x4000) 0x4000 = {}) \<and>
     (\<forall>i \<in> cores has_stack s. region (core_rsp s i - 0x4000) 0x4000 \<subseteq> deploy_region \<and>
        (core_rsp s i = friend_binary_end B + 0x2000 \<or> friend_binary_end B < core_rsp s i - 0x4000))"
proof -
  let ?A = "cores has_stack s" and ?e = "friend_binary_end B"
  have "stack_inv B friend_start" by (simp add: stack_inv_def friend_start_def)
  with assms(1) have "stack_inv B s" using stacks.inv_steps by blast
  then obtain slot where inj: "inj_on slot ?A"
    and slot: "\<And>i. i \<in> ?A \<Longrightarrow> slot i < card ?A \<and> core_rsp s i = nth_rsp ?e (slot i)"
    by (auto simp: stack_inv_def)
  have e: "0x100004000 \<le> unat ?e" "unat ?e + 0x2000 + card ?A * 0x4000 \<le> 0x140000000"
    using assms(2,3) by (simp_all add: word_le_nat_alt DEPLOY_PHYS_ADDR_START_def DEPLOY_PHYS_ADDR_END_def)
  have rsp: "unat (core_rsp s i - 0x4000) = unat ?e + slot i * 0x4000 - 0x2000" "slot i < card ?A"
    "unat (core_rsp s i) = unat ?e + 0x2000 + slot i * 0x4000" if "i \<in> ?A" for i
  proof -
    have lt: "slot i < card ?A" using slot [OF that] by simp
    then have "unat (nth_rsp ?e (slot i)) = unat ?e + 0x2000 + slot i * 0x4000"
      using e by (intro unat_nth_rsp) auto
    then show "unat (core_rsp s i) = unat ?e + 0x2000 + slot i * 0x4000" using slot [OF that] by simp
    then show "unat (core_rsp s i - 0x4000) = unat ?e + slot i * 0x4000 - 0x2000"
      using e(1) by (simp add: unat_sub word_le_nat_alt)
    show "slot i < card ?A" by (rule lt)
  qed
  have dis: "region (core_rsp s i - 0x4000) 0x4000 \<inter> region (core_rsp s j - 0x4000) 0x4000 = {}"
    if "i \<in> ?A" "j \<in> ?A" "slot i < slot j" for i j
    using that e rsp(1,2) [OF that(1)] rsp(1,2) [OF that(2)] by (intro region_disjoint) auto
  have "region (core_rsp s i - 0x4000) 0x4000 \<inter> region (core_rsp s j - 0x4000) 0x4000 = {}"
    if "i \<in> ?A" "j \<in> ?A" "i \<noteq> j" for i j
  proof -
    have "slot i \<noteq> slot j" using inj that by (auto simp: inj_on_def)
    then consider "slot i < slot j" | "slot j < slot i" by linarith
    then show ?thesis using dis [of i j] dis [of j i] that by cases (auto simp: Int_commute)
  qed
  moreover have "region (core_rsp s i - 0x4000) 0x4000 \<subseteq> deploy_region" if "i \<in> ?A" for i
    using e rsp(1,2) [OF that]
    by (intro region_subset) (simp_all add: deploy_size DEPLOY_PHYS_ADDR_START_def)
  moreover have "core_rsp s i = ?e + 0x2000 \<or> ?e < core_rsp s i - 0x4000" if "i \<in> ?A" for i
  proof (cases "slot i")
    case 0
    then have "unat (core_rsp s i) = unat (?e + 0x2000)"
      using rsp(3) [OF that] e by (simp add: unat_word_ariths)
    then have "core_rsp s i = ?e + 0x2000" by (simp only: word_unat_eq_iff)
    then show ?thesis by (rule disjI1)
  next
    case (Suc k)
    then show ?thesis using rsp(1) [OF that] by (simp add: word_less_nat_alt)
  qed
  ultimately show ?thesis by blast
qed

theorem stacks_disjoint_witness:
  "\<exists>s. frun demo_image side_by_side friend_start = Some s \<and>
     region (core_rsp s 0 - 0x4000) 0x4000 \<inter> region (core_rsp s 1 - 0x4000) 0x4000 = {}"
proof -
  have "map_option (\<lambda>s. (core s 0, core s 1)) (frun demo_image side_by_side friend_start) = Some (Ctors 0, Return)"
    by code_simp
  then obtain s where s: "frun demo_image side_by_side friend_start = Some s" "core s 0 = Ctors 0" "core s 1 = Return"
    by auto
  have "core s i = Off" if "i \<notin> {0, 1}" for i
    using frun_others [OF s(1), of i] that by (simp add: friend_start_def side_by_side_def)
  then have "cores has_stack s \<subseteq> {0, 1}" by force
  then have "card (cores has_stack s) \<le> card {0, 1 :: nat}" by (intro card_mono) simp_all
  then have "unat (friend_binary_end demo_image) + 0x2000 + card (cores has_stack s) * 0x4000 \<le> unat DEPLOY_PHYS_ADDR_END"
    "DEPLOY_PHYS_ADDR_START + 0x4000 \<le> friend_binary_end demo_image"
    by (simp_all add: demo_image_def DEPLOY_PHYS_ADDR_START_def DEPLOY_PHYS_ADDR_END_def)
  then have "\<forall>i j. i \<in> cores has_stack s \<and> j \<in> cores has_stack s \<and> i \<noteq> j \<longrightarrow>
      region (core_rsp s i - 0x4000) 0x4000 \<inter> region (core_rsp s j - 0x4000) 0x4000 = {}"
    using stacks_disjoint [OF frun_steps [OF s(1)]] by blast
  then show ?thesis using s by simp
qed

text \<open>
  The number of cores is not known to \<^verbatim>\<open>friend_init\<close>: when one core finishes before the next one
  has entered, the destructors run and hakase is told that the friend has stopped while the next
  core still has its \<^verbatim>\<open>friend_main\<close> to run, and the destructors run again.
\<close>

lemma early_stop:
  "\<exists>s. frun demo_image (replicate 11 0 @ replicate 3 1) friend_start = Some s \<and>
     is_friend_stopped s \<and> core s 1 = InMain"
  "\<exists>s. frun demo_image one_after_the_other friend_start = Some s \<and>
     events s = [Ctor 0 0, Main_run 0, Dtor 0 0, Main_run 1, Dtor 1 0]"
proof -
  have "map_option (\<lambda>s. (is_friend_stopped s, core s 1)) (frun demo_image (replicate 11 0 @ replicate 3 1) friend_start)
      = Some (True, InMain)" by code_simp
  then show "\<exists>s. frun demo_image (replicate 11 0 @ replicate 3 1) friend_start = Some s \<and>
     is_friend_stopped s \<and> core s 1 = InMain" by auto
  have "map_option events (frun demo_image one_after_the_other friend_start) =
      Some [Ctor 0 0, Main_run 0, Dtor 0 0, Main_run 1, Dtor 1 0]" by code_simp
  then show "\<exists>s. frun demo_image one_after_the_other friend_start = Some s \<and>
     events s = [Ctor 0 0, Main_run 0, Dtor 0 0, Main_run 1, Dtor 1 0]" by auto
qed

text \<open>Cores other than the first do not wait for the constructors.\<close>

lemma main_before_ctors:
  "\<exists>s. frun demo_image side_by_side friend_start = Some s \<and> events s = [Main_run 1] \<and> core s 0 = Ctors 0"
proof -
  have "map_option (\<lambda>s. (events s, core s 0)) (frun demo_image side_by_side friend_start) =
      Some ([Main_run 1], Ctors 0)" by code_simp
  then show ?thesis by auto
qed

text \<open>The first core's stack range reaches into the binary.\<close>

lemma first_stack_short: "unat e = 0x100010000 \<Longrightarrow> nth_rsp e 0 - 0x4000 < e"
  using unat_nth_rsp [of e 0] by (simp add: word_less_nat_alt unat_sub word_le_nat_alt)

end
