(* ===== verification/Elf_Constants.thy ===== *)
theory Elf_Constants
  imports Elf_Format
begin

text \<open>
  The rest of the generic part of \<^verbatim>\<open>src/common/elfhead.h\<close>: the structs the loader does not read
  (as the lists of their fields, in the sense of \<^verbatim>\<open>Elf_Format\<close>; a union stands as its first member,
  all members of these unions having one size) and the values of their fields. A group of
  \<^verbatim>\<open>#define\<close>s is a table of names and values; the value is the mathematical integer the C constant
  has, so that a constant that does not fit its field can be seen.
\<close>

type_synonym const_table = "(string \<times> int) list"

section \<open>Structs\<close>

definition Elf32_Ehdr :: "(string \<times> ctype) list" where
  "Elf32_Ehdr = [(''e_ident'', U8_array 16), (''e_type'', U16), (''e_machine'', U16),
     (''e_version'', U32), (''e_entry'', U32), (''e_phoff'', U32), (''e_shoff'', U32),
     (''e_flags'', U32), (''e_ehsize'', U16), (''e_phentsize'', U16), (''e_phnum'', U16),
     (''e_shentsize'', U16), (''e_shnum'', U16), (''e_shstrndx'', U16)]"

definition Elf32_Shdr :: "(string \<times> ctype) list" where
  "Elf32_Shdr = [(''sh_name'', U32), (''sh_type'', U32), (''sh_flags'', U32), (''sh_addr'', U32),
     (''sh_offset'', U32), (''sh_size'', U32), (''sh_link'', U32), (''sh_info'', U32),
     (''sh_addralign'', U32), (''sh_entsize'', U32)]"

definition Elf32_Sym :: "(string \<times> ctype) list" where
  "Elf32_Sym = [(''st_name'', U32), (''st_value'', U32), (''st_size'', U32), (''st_info'', U8),
     (''st_other'', U8), (''st_shndx'', U16)]"

definition Elf64_Sym :: "(string \<times> ctype) list" where
  "Elf64_Sym = [(''st_name'', U32), (''st_info'', U8), (''st_other'', U8), (''st_shndx'', U16),
     (''st_value'', U64), (''st_size'', U64)]"

definition Elf32_Syminfo :: "(string \<times> ctype) list" where
  "Elf32_Syminfo = [(''si_boundto'', U16), (''si_flags'', U16)]"

definition Elf64_Syminfo :: "(string \<times> ctype) list" where
  "Elf64_Syminfo = [(''si_boundto'', U16), (''si_flags'', U16)]"

definition Elf32_Rel :: "(string \<times> ctype) list" where
  "Elf32_Rel = [(''r_offset'', U32), (''r_info'', U32)]"

definition Elf64_Rel :: "(string \<times> ctype) list" where
  "Elf64_Rel = [(''r_offset'', U64), (''r_info'', U64)]"

definition Elf32_Rela :: "(string \<times> ctype) list" where
  "Elf32_Rela = [(''r_offset'', U32), (''r_info'', U32), (''r_addend'', U32)]"

definition Elf64_Rela :: "(string \<times> ctype) list" where
  "Elf64_Rela = [(''r_offset'', U64), (''r_info'', U64), (''r_addend'', U64)]"

definition Elf32_Phdr :: "(string \<times> ctype) list" where
  "Elf32_Phdr = [(''p_type'', U32), (''p_offset'', U32), (''p_vaddr'', U32), (''p_paddr'', U32),
     (''p_filesz'', U32), (''p_memsz'', U32), (''p_flags'', U32), (''p_align'', U32)]"

definition Elf32_Dyn :: "(string \<times> ctype) list" where
  "Elf32_Dyn = [(''d_tag'', U32), (''d_val'', U32)]"

definition Elf64_Dyn :: "(string \<times> ctype) list" where
  "Elf64_Dyn = [(''d_tag'', U64), (''d_val'', U64)]"

definition Elf32_Verdef :: "(string \<times> ctype) list" where
  "Elf32_Verdef = [(''vd_version'', U16), (''vd_flags'', U16), (''vd_ndx'', U16),
     (''vd_cnt'', U16), (''vd_hash'', U32), (''vd_aux'', U32), (''vd_next'', U32)]"

definition Elf64_Verdef :: "(string \<times> ctype) list" where
  "Elf64_Verdef = [(''vd_version'', U16), (''vd_flags'', U16), (''vd_ndx'', U16),
     (''vd_cnt'', U16), (''vd_hash'', U32), (''vd_aux'', U32), (''vd_next'', U32)]"

definition Elf32_Verdaux :: "(string \<times> ctype) list" where
  "Elf32_Verdaux = [(''vda_name'', U32), (''vda_next'', U32)]"

definition Elf64_Verdaux :: "(string \<times> ctype) list" where
  "Elf64_Verdaux = [(''vda_name'', U32), (''vda_next'', U32)]"

definition Elf32_Verneed :: "(string \<times> ctype) list" where
  "Elf32_Verneed = [(''vn_version'', U16), (''vn_cnt'', U16), (''vn_file'', U32),
     (''vn_aux'', U32), (''vn_next'', U32)]"

definition Elf64_Verneed :: "(string \<times> ctype) list" where
  "Elf64_Verneed = [(''vn_version'', U16), (''vn_cnt'', U16), (''vn_file'', U32),
     (''vn_aux'', U32), (''vn_next'', U32)]"

definition Elf32_Vernaux :: "(string \<times> ctype) list" where
  "Elf32_Vernaux = [(''vna_hash'', U32), (''vna_flags'', U16), (''vna_other'', U16),
     (''vna_name'', U32), (''vna_next'', U32)]"

definition Elf64_Vernaux :: "(string \<times> ctype) list" where
  "Elf64_Vernaux = [(''vna_hash'', U32), (''vna_flags'', U16), (''vna_other'', U16),
     (''vna_name'', U32), (''vna_next'', U32)]"

definition Elf32_auxv_t :: "(string \<times> ctype) list" where
  "Elf32_auxv_t = [(''a_type'', U32), (''a_val'', U32)]"

definition Elf64_auxv_t :: "(string \<times> ctype) list" where
  "Elf64_auxv_t = [(''a_type'', U64), (''a_val'', U64)]"

definition Elf32_Nhdr :: "(string \<times> ctype) list" where
  "Elf32_Nhdr = [(''n_namesz'', U32), (''n_descsz'', U32), (''n_type'', U32)]"

definition Elf64_Nhdr :: "(string \<times> ctype) list" where
  "Elf64_Nhdr = [(''n_namesz'', U32), (''n_descsz'', U32), (''n_type'', U32)]"

definition Elf32_Move :: "(string \<times> ctype) list" where
  "Elf32_Move = [(''m_value'', U64), (''m_info'', U32), (''m_poffset'', U32),
     (''m_repeat'', U16), (''m_stride'', U16)]"

definition Elf64_Move :: "(string \<times> ctype) list" where
  "Elf64_Move = [(''m_value'', U64), (''m_info'', U64), (''m_poffset'', U64),
     (''m_repeat'', U16), (''m_stride'', U16)]"

definition Elf_Options :: "(string \<times> ctype) list" where
  "Elf_Options = [(''kind'', U8), (''size'', U8), (''section'', U16), (''info'', U32)]"

definition Elf_Options_Hw :: "(string \<times> ctype) list" where
  "Elf_Options_Hw = [(''hwp_flags1'', U32), (''hwp_flags2'', U32)]"

definition Elf32_Lib :: "(string \<times> ctype) list" where
  "Elf32_Lib = [(''l_name'', U32), (''l_time_stamp'', U32), (''l_checksum'', U32),
     (''l_version'', U32), (''l_flags'', U32)]"

definition Elf64_Lib :: "(string \<times> ctype) list" where
  "Elf64_Lib = [(''l_name'', U32), (''l_time_stamp'', U32), (''l_checksum'', U32),
     (''l_version'', U32), (''l_flags'', U32)]"

section \<open>Values\<close>

definition ELFCLASS_values :: const_table where
  "ELFCLASS_values = [
    (''ELFCLASS32'', 1), (''ELFCLASS64'', 2)]"

definition ELFDATA_values :: const_table where
  "ELFDATA_values = [
    (''ELFDATANONE'', 0), (''ELFDATA2LSB'', 1), (''ELFDATA2MSB'', 2)]"

definition ELFOSABI_values :: const_table where
  "ELFOSABI_values = [
    (''ELFOSABI_NONE'', 0), (''ELFOSABI_SYSV'', 0), (''ELFOSABI_HPUX'', 1),
    (''ELFOSABI_NETBSD'', 2), (''ELFOSABI_GNU'', 3), (''ELFOSABI_LINUX'', 3),
    (''ELFOSABI_SOLARIS'', 6), (''ELFOSABI_AIX'', 7), (''ELFOSABI_IRIX'', 8),
    (''ELFOSABI_FREEBSD'', 9), (''ELFOSABI_TRU64'', 10), (''ELFOSABI_MODESTO'', 11),
    (''ELFOSABI_OPENBSD'', 12), (''ELFOSABI_ARM_AEABI'', 64), (''ELFOSABI_ARM'', 97),
    (''ELFOSABI_STANDALONE'', 255)]"

definition ET_values :: const_table where
  "ET_values = [
    (''ET_NONE'', 0), (''ET_REL'', 1), (''ET_EXEC'', 2), (''ET_DYN'', 3), (''ET_CORE'', 4),
    (''ET_LOOS'', 0xfe00), (''ET_HIOS'', 0xfeff), (''ET_LOPROC'', 0xff00), (''ET_HIPROC'', 0xffff)]"

definition EM_values :: const_table where
  "EM_values = [
    (''EM_NONE'', 0), (''EM_M32'', 1), (''EM_SPARC'', 2), (''EM_386'', 3), (''EM_68K'', 4),
    (''EM_88K'', 5), (''EM_860'', 7), (''EM_MIPS'', 8), (''EM_S370'', 9),
    (''EM_MIPS_RS3_LE'', 10), (''EM_PARISC'', 15), (''EM_VPP500'', 17), (''EM_SPARC32PLUS'', 18),
    (''EM_960'', 19), (''EM_PPC'', 20), (''EM_PPC64'', 21), (''EM_S390'', 22), (''EM_V800'', 36),
    (''EM_FR20'', 37), (''EM_RH32'', 38), (''EM_RCE'', 39), (''EM_ARM'', 40),
    (''EM_FAKE_ALPHA'', 41), (''EM_SH'', 42), (''EM_SPARCV9'', 43), (''EM_TRICORE'', 44),
    (''EM_ARC'', 45), (''EM_H8_300'', 46), (''EM_H8_300H'', 47), (''EM_H8S'', 48),
    (''EM_H8_500'', 49), (''EM_IA_64'', 50), (''EM_MIPS_X'', 51), (''EM_COLDFIRE'', 52),
    (''EM_68HC12'', 53), (''EM_MMA'', 54), (''EM_PCP'', 55), (''EM_NCPU'', 56),
    (''EM_NDR1'', 57), (''EM_STARCORE'', 58), (''EM_ME16'', 59), (''EM_ST100'', 60),
    (''EM_TINYJ'', 61), (''EM_X86_64'', 62), (''EM_PDSP'', 63), (''EM_FX66'', 66),
    (''EM_ST9PLUS'', 67), (''EM_ST7'', 68), (''EM_68HC16'', 69), (''EM_68HC11'', 70),
    (''EM_68HC08'', 71), (''EM_68HC05'', 72), (''EM_SVX'', 73), (''EM_ST19'', 74),
    (''EM_VAX'', 75), (''EM_CRIS'', 76), (''EM_JAVELIN'', 77), (''EM_FIREPATH'', 78),
    (''EM_ZSP'', 79), (''EM_MMIX'', 80), (''EM_HUANY'', 81), (''EM_PRISM'', 82),
    (''EM_AVR'', 83), (''EM_FR30'', 84), (''EM_D10V'', 85), (''EM_D30V'', 86), (''EM_V850'', 87),
    (''EM_M32R'', 88), (''EM_MN10300'', 89), (''EM_MN10200'', 90), (''EM_PJ'', 91),
    (''EM_OPENRISC'', 92), (''EM_ARC_A5'', 93), (''EM_XTENSA'', 94), (''EM_AARCH64'', 183),
    (''EM_TILEPRO'', 188), (''EM_MICROBLAZE'', 189), (''EM_TILEGX'', 191), (''EM_ALPHA'', 0x9026)]"

definition EV_values :: const_table where
  "EV_values = [
    (''EV_NONE'', 0), (''EV_CURRENT'', 1)]"

definition SHN_values :: const_table where
  "SHN_values = [
    (''SHN_UNDEF'', 0), (''SHN_LORESERVE'', 0xff00), (''SHN_LOPROC'', 0xff00),
    (''SHN_BEFORE'', 0xff00), (''SHN_AFTER'', 0xff01), (''SHN_HIPROC'', 0xff1f),
    (''SHN_LOOS'', 0xff20), (''SHN_HIOS'', 0xff3f), (''SHN_ABS'', 0xfff1),
    (''SHN_COMMON'', 0xfff2), (''SHN_XINDEX'', 0xffff), (''SHN_HIRESERVE'', 0xffff)]"

definition SHT_values :: const_table where
  "SHT_values = [
    (''SHT_NULL'', 0), (''SHT_PROGBITS'', 1), (''SHT_SYMTAB'', 2), (''SHT_STRTAB'', 3),
    (''SHT_RELA'', 4), (''SHT_HASH'', 5), (''SHT_DYNAMIC'', 6), (''SHT_NOTE'', 7),
    (''SHT_NOBITS'', 8), (''SHT_REL'', 9), (''SHT_SHLIB'', 10), (''SHT_DYNSYM'', 11),
    (''SHT_INIT_ARRAY'', 14), (''SHT_FINI_ARRAY'', 15), (''SHT_PREINIT_ARRAY'', 16),
    (''SHT_GROUP'', 17), (''SHT_SYMTAB_SHNDX'', 18), (''SHT_LOOS'', 0x60000000),
    (''SHT_GNU_ATTRIBUTES'', 0x6ffffff5), (''SHT_GNU_HASH'', 0x6ffffff6),
    (''SHT_GNU_LIBLIST'', 0x6ffffff7), (''SHT_CHECKSUM'', 0x6ffffff8),
    (''SHT_LOSUNW'', 0x6ffffffa), (''SHT_SUNW_move'', 0x6ffffffa),
    (''SHT_SUNW_COMDAT'', 0x6ffffffb), (''SHT_SUNW_syminfo'', 0x6ffffffc),
    (''SHT_GNU_verdef'', 0x6ffffffd), (''SHT_GNU_verneed'', 0x6ffffffe),
    (''SHT_GNU_versym'', 0x6fffffff), (''SHT_HISUNW'', 0x6fffffff), (''SHT_HIOS'', 0x6fffffff),
    (''SHT_LOPROC'', 0x70000000), (''SHT_HIPROC'', 0x7fffffff), (''SHT_LOUSER'', 0x80000000),
    (''SHT_HIUSER'', 0x8fffffff)]"

definition SHF_values :: const_table where
  "SHF_values = [
    (''SHF_WRITE'', 1), (''SHF_ALLOC'', 2), (''SHF_EXECINSTR'', 4), (''SHF_MERGE'', 16),
    (''SHF_STRINGS'', 32), (''SHF_INFO_LINK'', 64), (''SHF_LINK_ORDER'', 128),
    (''SHF_OS_NONCONFORMING'', 256), (''SHF_GROUP'', 512), (''SHF_TLS'', 1024),
    (''SHF_MASKOS'', 0xff00000), (''SHF_MASKPROC'', 0xf0000000), (''SHF_ORDERED'', 0x40000000),
    (''SHF_EXCLUDE'', - 0x80000000)]"

definition SYMINFO_BT_values :: const_table where
  "SYMINFO_BT_values = [
    (''SYMINFO_BT_SELF'', 0xffff), (''SYMINFO_BT_PARENT'', 0xfffe),
    (''SYMINFO_BT_LOWRESERVE'', 0xff00)]"

definition SYMINFO_FLG_values :: const_table where
  "SYMINFO_FLG_values = [
    (''SYMINFO_FLG_DIRECT'', 1), (''SYMINFO_FLG_PASSTHRU'', 2), (''SYMINFO_FLG_COPY'', 4),
    (''SYMINFO_FLG_LAZYLOAD'', 8)]"

definition STB_values :: const_table where
  "STB_values = [
    (''STB_LOCAL'', 0), (''STB_GLOBAL'', 1), (''STB_WEAK'', 2), (''STB_LOOS'', 10),
    (''STB_GNU_UNIQUE'', 10), (''STB_HIOS'', 12), (''STB_LOPROC'', 13), (''STB_HIPROC'', 15)]"

definition STT_values :: const_table where
  "STT_values = [
    (''STT_NOTYPE'', 0), (''STT_OBJECT'', 1), (''STT_FUNC'', 2), (''STT_SECTION'', 3),
    (''STT_FILE'', 4), (''STT_COMMON'', 5), (''STT_TLS'', 6), (''STT_LOOS'', 10),
    (''STT_GNU_IFUNC'', 10), (''STT_HIOS'', 12), (''STT_LOPROC'', 13), (''STT_HIPROC'', 15)]"

definition STV_values :: const_table where
  "STV_values = [
    (''STV_DEFAULT'', 0), (''STV_INTERNAL'', 1), (''STV_HIDDEN'', 2), (''STV_PROTECTED'', 3)]"

definition PT_values :: const_table where
  "PT_values = [
    (''PT_NULL'', 0), (''PT_LOAD'', 1), (''PT_DYNAMIC'', 2), (''PT_INTERP'', 3),
    (''PT_NOTE'', 4), (''PT_SHLIB'', 5), (''PT_PHDR'', 6), (''PT_TLS'', 7),
    (''PT_LOOS'', 0x60000000), (''PT_GNU_EH_FRAME'', 0x6474e550), (''PT_GNU_STACK'', 0x6474e551),
    (''PT_GNU_RELRO'', 0x6474e552), (''PT_LOSUNW'', 0x6ffffffa), (''PT_SUNWBSS'', 0x6ffffffa),
    (''PT_SUNWSTACK'', 0x6ffffffb), (''PT_HISUNW'', 0x6fffffff), (''PT_HIOS'', 0x6fffffff),
    (''PT_LOPROC'', 0x70000000), (''PT_HIPROC'', 0x7fffffff)]"

definition PF_values :: const_table where
  "PF_values = [
    (''PF_X'', 1), (''PF_W'', 2), (''PF_R'', 4), (''PF_MASKOS'', 0xff00000),
    (''PF_MASKPROC'', 0xf0000000)]"

definition NT_values :: const_table where
  "NT_values = [
    (''NT_PRSTATUS'', 1), (''NT_FPREGSET'', 2), (''NT_PRPSINFO'', 3), (''NT_PRXREG'', 4),
    (''NT_TASKSTRUCT'', 4), (''NT_PLATFORM'', 5), (''NT_AUXV'', 6), (''NT_GWINDOWS'', 7),
    (''NT_ASRS'', 8), (''NT_PSTATUS'', 10), (''NT_PSINFO'', 13), (''NT_PRCRED'', 14),
    (''NT_UTSNAME'', 15), (''NT_LWPSTATUS'', 16), (''NT_LWPSINFO'', 17), (''NT_PRFPXREG'', 20),
    (''NT_SIGINFO'', 0x53494749), (''NT_FILE'', 0x46494c45), (''NT_PRXFPREG'', 0x46e62b7f),
    (''NT_PPC_VMX'', 256), (''NT_PPC_SPE'', 257), (''NT_PPC_VSX'', 258), (''NT_386_TLS'', 512),
    (''NT_386_IOPERM'', 513), (''NT_X86_XSTATE'', 514), (''NT_S390_HIGH_GPRS'', 768),
    (''NT_S390_TIMER'', 769), (''NT_S390_TODCMP'', 770), (''NT_S390_TODPREG'', 771),
    (''NT_S390_CTRS'', 772), (''NT_S390_PREFIX'', 773), (''NT_S390_LAST_BREAK'', 774),
    (''NT_S390_SYSTEM_CALL'', 775), (''NT_S390_TDB'', 776), (''NT_ARM_VFP'', 1024),
    (''NT_ARM_TLS'', 1025), (''NT_ARM_HW_BREAK'', 1026), (''NT_ARM_HW_WATCH'', 1027)]"

definition DT_values :: const_table where
  "DT_values = [
    (''DT_NULL'', 0), (''DT_NEEDED'', 1), (''DT_PLTRELSZ'', 2), (''DT_PLTGOT'', 3),
    (''DT_HASH'', 4), (''DT_STRTAB'', 5), (''DT_SYMTAB'', 6), (''DT_RELA'', 7),
    (''DT_RELASZ'', 8), (''DT_RELAENT'', 9), (''DT_STRSZ'', 10), (''DT_SYMENT'', 11),
    (''DT_INIT'', 12), (''DT_FINI'', 13), (''DT_SONAME'', 14), (''DT_RPATH'', 15),
    (''DT_SYMBOLIC'', 16), (''DT_REL'', 17), (''DT_RELSZ'', 18), (''DT_RELENT'', 19),
    (''DT_PLTREL'', 20), (''DT_DEBUG'', 21), (''DT_TEXTREL'', 22), (''DT_JMPREL'', 23),
    (''DT_BIND_NOW'', 24), (''DT_INIT_ARRAY'', 25), (''DT_FINI_ARRAY'', 26),
    (''DT_INIT_ARRAYSZ'', 27), (''DT_FINI_ARRAYSZ'', 28), (''DT_RUNPATH'', 29),
    (''DT_FLAGS'', 30), (''DT_ENCODING'', 32), (''DT_PREINIT_ARRAY'', 32),
    (''DT_PREINIT_ARRAYSZ'', 33), (''DT_LOOS'', 0x6000000d), (''DT_HIOS'', 0x6ffff000),
    (''DT_LOPROC'', 0x70000000), (''DT_HIPROC'', 0x7fffffff)]"

definition DT_VAL_values :: const_table where
  "DT_VAL_values = [
    (''DT_GNU_PRELINKED'', 0x6ffffdf5), (''DT_GNU_CONFLICTSZ'', 0x6ffffdf6),
    (''DT_GNU_LIBLISTSZ'', 0x6ffffdf7), (''DT_CHECKSUM'', 0x6ffffdf8),
    (''DT_PLTPADSZ'', 0x6ffffdf9), (''DT_MOVEENT'', 0x6ffffdfa), (''DT_MOVESZ'', 0x6ffffdfb),
    (''DT_FEATURE_1'', 0x6ffffdfc), (''DT_POSFLAG_1'', 0x6ffffdfd), (''DT_SYMINSZ'', 0x6ffffdfe),
    (''DT_SYMINENT'', 0x6ffffdff)]"

definition DT_ADDR_values :: const_table where
  "DT_ADDR_values = [
    (''DT_GNU_HASH'', 0x6ffffef5), (''DT_TLSDESC_PLT'', 0x6ffffef6),
    (''DT_TLSDESC_GOT'', 0x6ffffef7), (''DT_GNU_CONFLICT'', 0x6ffffef8),
    (''DT_GNU_LIBLIST'', 0x6ffffef9), (''DT_CONFIG'', 0x6ffffefa), (''DT_DEPAUDIT'', 0x6ffffefb),
    (''DT_AUDIT'', 0x6ffffefc), (''DT_PLTPAD'', 0x6ffffefd), (''DT_MOVETAB'', 0x6ffffefe),
    (''DT_SYMINFO'', 0x6ffffeff)]"

definition DT_VERSION_values :: const_table where
  "DT_VERSION_values = [
    (''DT_VERSYM'', 0x6ffffff0), (''DT_RELACOUNT'', 0x6ffffff9), (''DT_RELCOUNT'', 0x6ffffffa),
    (''DT_FLAGS_1'', 0x6ffffffb), (''DT_VERDEF'', 0x6ffffffc), (''DT_VERDEFNUM'', 0x6ffffffd),
    (''DT_VERNEED'', 0x6ffffffe), (''DT_VERNEEDNUM'', 0x6fffffff)]"

definition DT_EXTRA_values :: const_table where
  "DT_EXTRA_values = [
    (''DT_AUXILIARY'', 0x7ffffffd), (''DT_FILTER'', 0x7fffffff)]"

definition DF_values :: const_table where
  "DF_values = [
    (''DF_ORIGIN'', 1), (''DF_SYMBOLIC'', 2), (''DF_TEXTREL'', 4), (''DF_BIND_NOW'', 8),
    (''DF_STATIC_TLS'', 16)]"

definition DF_1_values :: const_table where
  "DF_1_values = [
    (''DF_1_NOW'', 1), (''DF_1_GLOBAL'', 2), (''DF_1_GROUP'', 4), (''DF_1_NODELETE'', 8),
    (''DF_1_LOADFLTR'', 16), (''DF_1_INITFIRST'', 32), (''DF_1_NOOPEN'', 64),
    (''DF_1_ORIGIN'', 128), (''DF_1_DIRECT'', 256), (''DF_1_TRANS'', 512),
    (''DF_1_INTERPOSE'', 1024), (''DF_1_NODEFLIB'', 2048), (''DF_1_NODUMP'', 0x1000),
    (''DF_1_CONFALT'', 0x2000), (''DF_1_ENDFILTEE'', 0x4000), (''DF_1_DISPRELDNE'', 0x8000),
    (''DF_1_DISPRELPND'', 0x10000), (''DF_1_NODIRECT'', 0x20000), (''DF_1_IGNMULDEF'', 0x40000),
    (''DF_1_NOKSYMS'', 0x80000), (''DF_1_NOHDR'', 0x100000), (''DF_1_EDITED'', 0x200000),
    (''DF_1_NORELOC'', 0x400000), (''DF_1_SYMINTPOSE'', 0x800000),
    (''DF_1_GLOBAUDIT'', 0x1000000), (''DF_1_SINGLETON'', 0x2000000)]"

definition DTF_1_values :: const_table where
  "DTF_1_values = [
    (''DTF_1_PARINIT'', 1), (''DTF_1_CONFEXP'', 2)]"

definition DF_P1_values :: const_table where
  "DF_P1_values = [
    (''DF_P1_LAZYLOAD'', 1), (''DF_P1_GROUPPERM'', 2)]"

definition VER_DEF_values :: const_table where
  "VER_DEF_values = [
    (''VER_DEF_NONE'', 0), (''VER_DEF_CURRENT'', 1)]"

definition VER_FLG_values :: const_table where
  "VER_FLG_values = [
    (''VER_FLG_BASE'', 1), (''VER_FLG_WEAK'', 2)]"

definition VER_NDX_values :: const_table where
  "VER_NDX_values = [
    (''VER_NDX_LOCAL'', 0), (''VER_NDX_GLOBAL'', 1), (''VER_NDX_LORESERVE'', 0xff00),
    (''VER_NDX_ELIMINATE'', 0xff01)]"

definition VER_NEED_values :: const_table where
  "VER_NEED_values = [
    (''VER_NEED_NONE'', 0), (''VER_NEED_CURRENT'', 1)]"

definition ELF_NOTE_OS_values :: const_table where
  "ELF_NOTE_OS_values = [
    (''ELF_NOTE_OS_LINUX'', 0), (''ELF_NOTE_OS_GNU'', 1), (''ELF_NOTE_OS_SOLARIS2'', 2),
    (''ELF_NOTE_OS_FREEBSD'', 3)]"

definition EF_SPARC_values :: const_table where
  "EF_SPARC_values = [
    (''EF_SPARCV9_MM'', 3), (''EF_SPARCV9_TSO'', 0), (''EF_SPARCV9_PSO'', 1),
    (''EF_SPARCV9_RMO'', 2), (''EF_SPARC_LEDATA'', 0x800000), (''EF_SPARC_EXT_MASK'', 0xffff00),
    (''EF_SPARC_32PLUS'', 256), (''EF_SPARC_SUN_US1'', 512), (''EF_SPARC_HAL_R1'', 1024),
    (''EF_SPARC_SUN_US3'', 2048)]"

definition EF_MIPS_values :: const_table where
  "EF_MIPS_values = [
    (''EF_MIPS_NOREORDER'', 1), (''EF_MIPS_PIC'', 2), (''EF_MIPS_CPIC'', 4),
    (''EF_MIPS_XGOT'', 8), (''EF_MIPS_64BIT_WHIRL'', 16), (''EF_MIPS_ABI2'', 32),
    (''EF_MIPS_ABI_ON32'', 64), (''EF_MIPS_NAN2008'', 1024), (''EF_MIPS_ARCH'', 0xf0000000),
    (''EF_MIPS_ARCH_1'', 0), (''EF_MIPS_ARCH_2'', 0x10000000), (''EF_MIPS_ARCH_3'', 0x20000000),
    (''EF_MIPS_ARCH_4'', 0x30000000), (''EF_MIPS_ARCH_5'', 0x40000000),
    (''EF_MIPS_ARCH_32'', 0x50000000), (''EF_MIPS_ARCH_64'', 0x60000000),
    (''EF_MIPS_ARCH_32R2'', 0x70000000), (''EF_MIPS_ARCH_64R2'', 0x80000000),
    (''E_MIPS_ARCH_1'', 0), (''E_MIPS_ARCH_2'', 0x10000000), (''E_MIPS_ARCH_3'', 0x20000000),
    (''E_MIPS_ARCH_4'', 0x30000000), (''E_MIPS_ARCH_5'', 0x40000000),
    (''E_MIPS_ARCH_32'', 0x50000000), (''E_MIPS_ARCH_64'', 0x60000000)]"

definition SHT_MIPS_values :: const_table where
  "SHT_MIPS_values = [
    (''SHT_MIPS_LIBLIST'', 0x70000000), (''SHT_MIPS_MSYM'', 0x70000001),
    (''SHT_MIPS_CONFLICT'', 0x70000002), (''SHT_MIPS_GPTAB'', 0x70000003),
    (''SHT_MIPS_UCODE'', 0x70000004), (''SHT_MIPS_DEBUG'', 0x70000005),
    (''SHT_MIPS_REGINFO'', 0x70000006), (''SHT_MIPS_PACKAGE'', 0x70000007),
    (''SHT_MIPS_PACKSYM'', 0x70000008), (''SHT_MIPS_RELD'', 0x70000009),
    (''SHT_MIPS_IFACE'', 0x7000000b), (''SHT_MIPS_CONTENT'', 0x7000000c),
    (''SHT_MIPS_OPTIONS'', 0x7000000d), (''SHT_MIPS_SHDR'', 0x70000010),
    (''SHT_MIPS_FDESC'', 0x70000011), (''SHT_MIPS_EXTSYM'', 0x70000012),
    (''SHT_MIPS_DENSE'', 0x70000013), (''SHT_MIPS_PDESC'', 0x70000014),
    (''SHT_MIPS_LOCSYM'', 0x70000015), (''SHT_MIPS_AUXSYM'', 0x70000016),
    (''SHT_MIPS_OPTSYM'', 0x70000017), (''SHT_MIPS_LOCSTR'', 0x70000018),
    (''SHT_MIPS_LINE'', 0x70000019), (''SHT_MIPS_RFDESC'', 0x7000001a),
    (''SHT_MIPS_DELTASYM'', 0x7000001b), (''SHT_MIPS_DELTAINST'', 0x7000001c),
    (''SHT_MIPS_DELTACLASS'', 0x7000001d), (''SHT_MIPS_DWARF'', 0x7000001e),
    (''SHT_MIPS_DELTADECL'', 0x7000001f), (''SHT_MIPS_SYMBOL_LIB'', 0x70000020),
    (''SHT_MIPS_EVENTS'', 0x70000021), (''SHT_MIPS_TRANSLATE'', 0x70000022),
    (''SHT_MIPS_PIXIE'', 0x70000023), (''SHT_MIPS_XLATE'', 0x70000024),
    (''SHT_MIPS_XLATE_DEBUG'', 0x70000025), (''SHT_MIPS_WHIRL'', 0x70000026),
    (''SHT_MIPS_EH_REGION'', 0x70000027), (''SHT_MIPS_XLATE_OLD'', 0x70000028),
    (''SHT_MIPS_PDR_EXCEPTION'', 0x70000029)]"

definition SHF_MIPS_values :: const_table where
  "SHF_MIPS_values = [
    (''SHF_MIPS_GPREL'', 0x10000000), (''SHF_MIPS_MERGE'', 0x20000000),
    (''SHF_MIPS_ADDR'', 0x40000000), (''SHF_MIPS_STRINGS'', 0x80000000),
    (''SHF_MIPS_NOSTRIP'', 0x8000000), (''SHF_MIPS_LOCAL'', 0x4000000),
    (''SHF_MIPS_NAMES'', 0x2000000), (''SHF_MIPS_NODUPE'', 0x1000000)]"

definition ODK_values :: const_table where
  "ODK_values = [
    (''ODK_NULL'', 0), (''ODK_REGINFO'', 1), (''ODK_EXCEPTIONS'', 2), (''ODK_PAD'', 3),
    (''ODK_HWPATCH'', 4), (''ODK_FILL'', 5), (''ODK_TAGS'', 6), (''ODK_HWAND'', 7),
    (''ODK_HWOR'', 8)]"

definition RHF_values :: const_table where
  "RHF_values = [
    (''RHF_NONE'', 0), (''RHF_QUICKSTART'', 1), (''RHF_NOTPOT'', 2),
    (''RHF_NO_LIBRARY_REPLACEMENT'', 4), (''RHF_NO_MOVE'', 8), (''RHF_SGI_ONLY'', 16),
    (''RHF_GUARANTEE_INIT'', 32), (''RHF_DELTA_C_PLUS_PLUS'', 64),
    (''RHF_GUARANTEE_START_INIT'', 128), (''RHF_PIXIE'', 256), (''RHF_DEFAULT_DELAY_LOAD'', 512),
    (''RHF_REQUICKSTART'', 1024), (''RHF_REQUICKSTARTED'', 2048), (''RHF_CORD'', 0x1000),
    (''RHF_NO_UNRES_UNDEF'', 0x2000), (''RHF_RLD_ORDER_SAFE'', 0x4000)]"

definition DT_MIPS_values :: const_table where
  "DT_MIPS_values = [
    (''DT_MIPS_RLD_VERSION'', 0x70000001), (''DT_MIPS_TIME_STAMP'', 0x70000002),
    (''DT_MIPS_ICHECKSUM'', 0x70000003), (''DT_MIPS_IVERSION'', 0x70000004),
    (''DT_MIPS_FLAGS'', 0x70000005), (''DT_MIPS_BASE_ADDRESS'', 0x70000006),
    (''DT_MIPS_MSYM'', 0x70000007), (''DT_MIPS_CONFLICT'', 0x70000008),
    (''DT_MIPS_LIBLIST'', 0x70000009), (''DT_MIPS_LOCAL_GOTNO'', 0x7000000a),
    (''DT_MIPS_CONFLICTNO'', 0x7000000b), (''DT_MIPS_LIBLISTNO'', 0x70000010),
    (''DT_MIPS_SYMTABNO'', 0x70000011), (''DT_MIPS_UNREFEXTNO'', 0x70000012),
    (''DT_MIPS_GOTSYM'', 0x70000013), (''DT_MIPS_HIPAGENO'', 0x70000014),
    (''DT_MIPS_RLD_MAP'', 0x70000016), (''DT_MIPS_DELTA_CLASS'', 0x70000017),
    (''DT_MIPS_DELTA_CLASS_NO'', 0x70000018), (''DT_MIPS_DELTA_INSTANCE'', 0x70000019),
    (''DT_MIPS_DELTA_INSTANCE_NO'', 0x7000001a), (''DT_MIPS_DELTA_RELOC'', 0x7000001b),
    (''DT_MIPS_DELTA_RELOC_NO'', 0x7000001c), (''DT_MIPS_DELTA_SYM'', 0x7000001d),
    (''DT_MIPS_DELTA_SYM_NO'', 0x7000001e), (''DT_MIPS_DELTA_CLASSSYM'', 0x70000020),
    (''DT_MIPS_DELTA_CLASSSYM_NO'', 0x70000021), (''DT_MIPS_CXX_FLAGS'', 0x70000022),
    (''DT_MIPS_PIXIE_INIT'', 0x70000023), (''DT_MIPS_SYMBOL_LIB'', 0x70000024),
    (''DT_MIPS_LOCALPAGE_GOTIDX'', 0x70000025), (''DT_MIPS_LOCAL_GOTIDX'', 0x70000026),
    (''DT_MIPS_HIDDEN_GOTIDX'', 0x70000027), (''DT_MIPS_PROTECTED_GOTIDX'', 0x70000028),
    (''DT_MIPS_OPTIONS'', 0x70000029), (''DT_MIPS_INTERFACE'', 0x7000002a),
    (''DT_MIPS_DYNSTR_ALIGN'', 0x7000002b), (''DT_MIPS_INTERFACE_SIZE'', 0x7000002c),
    (''DT_MIPS_RLD_TEXT_RESOLVE_ADDR'', 0x7000002d), (''DT_MIPS_PERF_SUFFIX'', 0x7000002e),
    (''DT_MIPS_COMPACT_SIZE'', 0x7000002f), (''DT_MIPS_GP_VALUE'', 0x70000030),
    (''DT_MIPS_AUX_DYNAMIC'', 0x70000031), (''DT_MIPS_PLTGOT'', 0x70000032),
    (''DT_MIPS_RWPLT'', 0x70000034)]"

definition EF_PARISC_values :: const_table where
  "EF_PARISC_values = [
    (''EF_PARISC_TRAPNIL'', 0x10000), (''EF_PARISC_EXT'', 0x20000), (''EF_PARISC_LSB'', 0x40000),
    (''EF_PARISC_WIDE'', 0x80000), (''EF_PARISC_NO_KABP'', 0x100000),
    (''EF_PARISC_LAZYSWAP'', 0x400000), (''EF_PARISC_ARCH'', 0xffff), (''EFA_PARISC_1_0'', 523),
    (''EFA_PARISC_1_1'', 528), (''EFA_PARISC_2_0'', 532)]"

definition PT_HP_values :: const_table where
  "PT_HP_values = [
    (''PT_HP_TLS'', 0x60000000), (''PT_HP_CORE_NONE'', 0x60000001),
    (''PT_HP_CORE_VERSION'', 0x60000002), (''PT_HP_CORE_KERNEL'', 0x60000003),
    (''PT_HP_CORE_COMM'', 0x60000004), (''PT_HP_CORE_PROC'', 0x60000005),
    (''PT_HP_CORE_LOADABLE'', 0x60000006), (''PT_HP_CORE_STACK'', 0x60000007),
    (''PT_HP_CORE_SHM'', 0x60000008), (''PT_HP_CORE_MMF'', 0x60000009),
    (''PT_HP_PARALLEL'', 0x60000010), (''PT_HP_FASTBIND'', 0x60000011),
    (''PT_HP_OPT_ANNOT'', 0x60000012), (''PT_HP_HSL_ANNOT'', 0x60000013),
    (''PT_HP_STACK'', 0x60000014), (''PT_PARISC_ARCHEXT'', 0x70000000),
    (''PT_PARISC_UNWIND'', 0x70000001)]"

definition DT_PPC64_values :: const_table where
  "DT_PPC64_values = [
    (''DT_PPC64_GLINK'', 0x70000000), (''DT_PPC64_OPD'', 0x70000001),
    (''DT_PPC64_OPDSZ'', 0x70000002), (''DT_PPC64_OPT'', 0x70000003)]"

definition EF_ARM_values :: const_table where
  "EF_ARM_values = [
    (''EF_ARM_RELEXEC'', 1), (''EF_ARM_HASENTRY'', 2), (''EF_ARM_INTERWORK'', 4),
    (''EF_ARM_APCS_26'', 8), (''EF_ARM_APCS_FLOAT'', 16), (''EF_ARM_PIC'', 32),
    (''EF_ARM_ALIGN8'', 64), (''EF_ARM_NEW_ABI'', 128), (''EF_ARM_OLD_ABI'', 256),
    (''EF_ARM_SOFT_FLOAT'', 512), (''EF_ARM_VFP_FLOAT'', 1024),
    (''EF_ARM_MAVERICK_FLOAT'', 2048), (''EF_ARM_ABI_FLOAT_SOFT'', 512),
    (''EF_ARM_ABI_FLOAT_HARD'', 1024), (''EF_ARM_SYMSARESORTED'', 4),
    (''EF_ARM_DYNSYMSUSESEGIDX'', 8), (''EF_ARM_MAPSYMSFIRST'', 16),
    (''EF_ARM_EABIMASK'', 0xff000000), (''EF_ARM_BE8'', 0x800000), (''EF_ARM_LE8'', 0x400000),
    (''EF_ARM_EABI_UNKNOWN'', 0), (''EF_ARM_EABI_VER1'', 0x1000000),
    (''EF_ARM_EABI_VER2'', 0x2000000), (''EF_ARM_EABI_VER3'', 0x3000000),
    (''EF_ARM_EABI_VER4'', 0x4000000), (''EF_ARM_EABI_VER5'', 0x5000000)]"

definition EF_SH_values :: const_table where
  "EF_SH_values = [
    (''EF_SH_MACH_MASK'', 31), (''EF_SH_UNKNOWN'', 0), (''EF_SH1'', 1), (''EF_SH2'', 2),
    (''EF_SH3'', 3), (''EF_SH_DSP'', 4), (''EF_SH3_DSP'', 5), (''EF_SH4AL_DSP'', 6),
    (''EF_SH3E'', 8), (''EF_SH4'', 9), (''EF_SH2E'', 11), (''EF_SH4A'', 12), (''EF_SH2A'', 13),
    (''EF_SH4_NOFPU'', 16), (''EF_SH4A_NOFPU'', 17), (''EF_SH4_NOMMU_NOFPU'', 18),
    (''EF_SH2A_NOFPU'', 19), (''EF_SH3_NOMMU'', 20), (''EF_SH2A_SH4_NOFPU'', 21),
    (''EF_SH2A_SH3_NOFPU'', 22), (''EF_SH2A_SH4'', 23), (''EF_SH2A_SH3E'', 24)]"

definition ELFCLASSNUM :: int where "ELFCLASSNUM = 3"
definition ELFDATANUM :: int where "ELFDATANUM = 3"
definition ET_NUM :: int where "ET_NUM = 5"
definition EM_NUM :: int where "EM_NUM = 192"
definition EV_NUM :: int where "EV_NUM = 2"
definition SHT_NUM :: int where "SHT_NUM = 19"
definition STB_NUM :: int where "STB_NUM = 3"
definition STT_NUM :: int where "STT_NUM = 7"
definition PT_NUM :: int where "PT_NUM = 8"
definition DT_NUM :: int where "DT_NUM = 34"
definition DT_VALRNGLO :: int where "DT_VALRNGLO = 0x6ffffd00"
definition DT_VALRNGHI :: int where "DT_VALRNGHI = 0x6ffffdff"
definition DT_ADDRRNGLO :: int where "DT_ADDRRNGLO = 0x6ffffe00"
definition DT_ADDRRNGHI :: int where "DT_ADDRRNGHI = 0x6ffffeff"
definition DT_VERNEEDNUM :: int where "DT_VERNEEDNUM = 0x6fffffff"
definition DT_VALNUM :: int where "DT_VALNUM = 12"
definition DT_ADDRNUM :: int where "DT_ADDRNUM = 11"
definition DT_VERSIONTAGNUM :: int where "DT_VERSIONTAGNUM = 16"
definition DT_EXTRANUM :: int where "DT_EXTRANUM = 3"
definition VER_DEF_NUM :: int where "VER_DEF_NUM = 2"
definition VER_NEED_NUM :: int where "VER_NEED_NUM = 2"
definition DT_LOPROC :: int where "DT_LOPROC = 0x70000000"
definition DT_PPC64_NUM :: int where "DT_PPC64_NUM = 3"
definition DT_MIPS_NUM :: int where "DT_MIPS_NUM = 53"

section \<open>Accessor macros\<close>

text \<open>\<^verbatim>\<open>st_info\<close>: the binding in the high nibble, the type in the low one.\<close>

definition ELF32_ST_BIND :: "u32 \<Rightarrow> u32" where
  "ELF32_ST_BIND val = drop_bit 4 (ucast (ucast val :: u8))"

definition ELF32_ST_TYPE :: "u32 \<Rightarrow> u32" where
  "ELF32_ST_TYPE val = val AND 0xf"

definition ELF32_ST_INFO :: "u32 \<Rightarrow> u32 \<Rightarrow> u32" where
  "ELF32_ST_INFO bnd type = push_bit 4 bnd + (type AND 0xf)"

definition ELF32_ST_VISIBILITY :: "u32 \<Rightarrow> u32" where
  "ELF32_ST_VISIBILITY o' = o' AND 0x03"

text \<open>\<^verbatim>\<open>r_info\<close>: the symbol index above the relocation type.\<close>

definition ELF32_R_SYM :: "u32 \<Rightarrow> u32" where
  "ELF32_R_SYM val = drop_bit 8 val"

definition ELF32_R_TYPE :: "u32 \<Rightarrow> u32" where
  "ELF32_R_TYPE val = val AND 0xff"

definition ELF32_R_INFO :: "u32 \<Rightarrow> u32 \<Rightarrow> u32" where
  "ELF32_R_INFO s type = push_bit 8 s + (type AND 0xff)"

definition ELF64_R_SYM :: "u64 \<Rightarrow> u64" where
  "ELF64_R_SYM i = drop_bit 32 i"

definition ELF64_R_TYPE :: "u64 \<Rightarrow> u64" where
  "ELF64_R_TYPE i = i AND 0xffffffff"

definition ELF64_R_INFO :: "u64 \<Rightarrow> u64 \<Rightarrow> u64" where
  "ELF64_R_INFO s type = push_bit 32 s + type"

text \<open>\<^verbatim>\<open>m_info\<close> of a move record, used for both classes.\<close>

definition ELF32_M_SYM :: "u64 \<Rightarrow> u64" where
  "ELF32_M_SYM info = drop_bit 8 info"

definition ELF32_M_SIZE :: "u64 \<Rightarrow> u64" where
  "ELF32_M_SIZE info = ucast (ucast info :: u8)"

definition ELF32_M_INFO :: "u64 \<Rightarrow> u64 \<Rightarrow> u64" where
  "ELF32_M_INFO s n = push_bit 8 s + ucast (ucast n :: u8)"

text \<open>Indices of dynamic tags in the arrays that a dynamic linker keeps, in reverse order.\<close>

definition DT_VALTAGIDX :: "int \<Rightarrow> int" where
  "DT_VALTAGIDX tag = DT_VALRNGHI - tag"

definition DT_ADDRTAGIDX :: "int \<Rightarrow> int" where
  "DT_ADDRTAGIDX tag = DT_ADDRRNGHI - tag"

definition DT_VERSIONTAGIDX :: "int \<Rightarrow> int" where
  "DT_VERSIONTAGIDX tag = DT_VERNEEDNUM - tag"

definition DT_EXTRATAGIDX :: "u32 \<Rightarrow> u32" where
  "DT_EXTRATAGIDX tag = - signed_drop_bit 1 (push_bit 1 tag) - 1"

section \<open>Sizes\<close>

text \<open>
  The sizes that the ELF specification gives the structs, by evaluation of the layout rule. Only
  the two move records end in padding.
\<close>

lemma sizeof_elf32:
  "map sizeof_struct [Elf32_Ehdr, Elf32_Shdr, Elf32_Phdr, Elf32_Sym, Elf32_Syminfo, Elf32_Rel,
     Elf32_Rela, Elf32_Dyn, Elf32_Verdef, Elf32_Verdaux, Elf32_Verneed, Elf32_Vernaux,
     Elf32_auxv_t, Elf32_Nhdr, Elf32_Move, Elf32_Lib] =
   [52, 40, 32, 16, 4, 8, 12, 8, 20, 8, 16, 16, 8, 12, 24, 20]"
  by code_simp

lemma sizeof_elf64:
  "map sizeof_struct [Elf64_Sym, Elf64_Syminfo, Elf64_Rel, Elf64_Rela, Elf64_Dyn, Elf64_Verdef,
     Elf64_Verdaux, Elf64_Verneed, Elf64_Vernaux, Elf64_auxv_t, Elf64_Nhdr, Elf64_Move, Elf64_Lib] =
   [24, 4, 16, 24, 16, 20, 8, 16, 16, 16, 12, 32, 20]"
  by code_simp

section \<open>Constants and the fields they are stored in\<close>

lemmas struct_defs =
  Elf32_Ehdr_def Elf32_Shdr_def Elf32_Sym_def Elf64_Sym_def Elf32_Syminfo_def Elf64_Syminfo_def
  Elf32_Rel_def Elf64_Rel_def Elf32_Rela_def Elf64_Rela_def Elf32_Phdr_def Elf32_Dyn_def
  Elf64_Dyn_def Elf32_Verdef_def Elf64_Verdef_def Elf32_Verdaux_def Elf64_Verdaux_def
  Elf32_Verneed_def Elf64_Verneed_def Elf32_Vernaux_def Elf64_Vernaux_def Elf32_auxv_t_def
  Elf64_auxv_t_def Elf32_Nhdr_def Elf64_Nhdr_def Elf32_Move_def Elf64_Move_def Elf_Options_def
  Elf_Options_Hw_def Elf32_Lib_def Elf64_Lib_def Elf64_Ehdr_def Elf64_Shdr_def Elf64_Phdr_def

lemmas const_defs =
  ELFCLASS_values_def ELFDATA_values_def ELFOSABI_values_def ET_values_def EM_values_def
  EV_values_def SHN_values_def SHT_values_def SHF_values_def SYMINFO_BT_values_def
  SYMINFO_FLG_values_def STB_values_def STT_values_def STV_values_def PT_values_def PF_values_def
  NT_values_def DT_values_def DT_VAL_values_def DT_ADDR_values_def DT_VERSION_values_def
  DT_EXTRA_values_def DF_values_def DF_1_values_def DTF_1_values_def DF_P1_values_def
  VER_DEF_values_def VER_FLG_values_def VER_NDX_values_def VER_NEED_values_def
  ELF_NOTE_OS_values_def EF_SPARC_values_def EF_MIPS_values_def SHT_MIPS_values_def
  SHF_MIPS_values_def ODK_values_def RHF_values_def DT_MIPS_values_def EF_PARISC_values_def
  PT_HP_values_def DT_PPC64_values_def EF_ARM_values_def EF_SH_values_def ELFCLASSNUM_def
  ELFDATANUM_def ET_NUM_def EM_NUM_def EV_NUM_def SHT_NUM_def STB_NUM_def STT_NUM_def PT_NUM_def
  DT_NUM_def DT_VALRNGLO_def DT_VALRNGHI_def DT_ADDRRNGLO_def DT_ADDRRNGHI_def DT_VERNEEDNUM_def
  DT_VALNUM_def DT_ADDRNUM_def DT_VERSIONTAGNUM_def DT_EXTRANUM_def VER_DEF_NUM_def
  VER_NEED_NUM_def DT_LOPROC_def DT_PPC64_NUM_def DT_MIPS_NUM_def

text \<open>The values of a table that a field of the given width cannot hold.\<close>

definition misfits :: "ctype \<Rightarrow> const_table \<Rightarrow> const_table" where
  "misfits t tbl = filter (\<lambda>(_, v). \<not> (0 \<le> v \<and> v < 2 ^ (8 * size_of t))) tbl"

definition misfits_in :: "('f \<times> ctype) list \<Rightarrow> 'f \<Rightarrow> const_table \<Rightarrow> const_table option" where
  "misfits_in s f tbl = map_option (\<lambda>t. misfits t tbl) (map_of s f)"

text \<open>
  The values of these tables can be stored without loss in the fields they are meant for. The one
  exception among the pairs of a field and a table listed here is SHF_EXCLUDE, which is written as a shift of a signed int into its sign bit: it is negative, so
  that storing it in the 64-bit sh_flags sets the 32 upper bits too.\<close>

lemma constants_fit_fields:
  "misfits_in Elf64_Ehdr e_type ET_values = Some [] \<and>
   misfits_in Elf64_Ehdr e_machine EM_values = Some [] \<and>
   misfits_in Elf64_Ehdr e_version EV_values = Some [] \<and>
   misfits_in Elf64_Phdr p_type PT_values = Some [] \<and>
   misfits_in Elf64_Phdr p_flags PF_values = Some [] \<and>
   misfits_in Elf64_Shdr sh_type SHT_values = Some [] \<and>
   misfits_in Elf64_Shdr sh_flags SHF_values = Some [(''SHF_EXCLUDE'', - 0x80000000)] \<and>
   misfits_in Elf32_Ehdr ''e_type'' ET_values = Some [] \<and>
   misfits_in Elf32_Ehdr ''e_machine'' EM_values = Some [] \<and>
   misfits_in Elf32_Ehdr ''e_flags'' (EF_SPARC_values @ EF_MIPS_values @ EF_PARISC_values @
     EF_ARM_values @ EF_SH_values) = Some [] \<and>
   misfits_in Elf32_Phdr ''p_type'' PT_values = Some [] \<and>
   misfits_in Elf32_Shdr ''sh_type'' (SHT_values @ SHT_MIPS_values) = Some [] \<and>
   misfits_in Elf32_Shdr ''sh_flags'' SHF_MIPS_values = Some [] \<and>
   misfits_in Elf32_Sym ''st_shndx'' SHN_values = Some [] \<and>
   misfits_in Elf64_Sym ''st_shndx'' SHN_values = Some [] \<and>
   misfits_in Elf32_Syminfo ''si_boundto'' SYMINFO_BT_values = Some [] \<and>
   misfits_in Elf32_Syminfo ''si_flags'' SYMINFO_FLG_values = Some [] \<and>
   misfits_in Elf32_Dyn ''d_tag'' (DT_values @ DT_VAL_values @ DT_ADDR_values @
     DT_VERSION_values @ DT_EXTRA_values @ DT_MIPS_values @ DT_PPC64_values) = Some [] \<and>
   misfits_in Elf32_Verdef ''vd_version'' VER_DEF_values = Some [] \<and>
   misfits_in Elf32_Verdef ''vd_flags'' VER_FLG_values = Some [] \<and>
   misfits_in Elf32_Verdef ''vd_ndx'' VER_NDX_values = Some [] \<and>
   misfits_in Elf32_Verneed ''vn_version'' VER_NEED_values = Some [] \<and>
   misfits_in Elf32_Nhdr ''n_type'' NT_values = Some [] \<and>
   misfits_in Elf_Options ''kind'' ODK_values = Some [] \<and>
   misfits_in Elf32_Phdr ''p_type'' PT_HP_values = Some [] \<and>
   misfits U8 (ELFCLASS_values @ ELFDATA_values @ ELFOSABI_values) = [] \<and>
   misfits U32 ELF_NOTE_OS_values = []"
  by (intro conjI; simp add: misfits_in_def misfits_def struct_defs const_defs)

text \<open>
  The values that are combined with \<^verbatim>\<open>|\<close> do not overlap: each of them can be tested on its own.
\<close>

definition independent :: "const_table \<Rightarrow> bool" where
  "independent t = (fst (foldr (\<lambda>(_, v) (ok, acc). (ok \<and> v AND acc = 0, v OR acc)) t (True, 0)))"

lemma flags_independent:
  "independent DF_values" "independent DF_1_values" "independent DTF_1_values"
  "independent DF_P1_values" "independent VER_FLG_values" "independent SYMINFO_FLG_values"
  "independent RHF_values"
  by (simp_all add: independent_def const_defs)

section \<open>Counts\<close>

lemmas tag_index_defs = DT_VALTAGIDX_def DT_ADDRTAGIDX_def DT_VERSIONTAGIDX_def DT_EXTRATAGIDX_def

text \<open>
  Every ..._NUM count of the generic part is above every value of its group, the reserved
  operating-system and processor ranges (and the unofficial machine number EM_ALPHA) apart; every tag
  of the three reverse-ordered ranges of dynamic tags lies between the range's bounds and has an
  index below the range's count, and no two tags of a range share an index.\<close>

lemma constant_counts:
  "list_all (\<lambda>(_, v). v < ELFCLASSNUM) ELFCLASS_values \<and>
   list_all (\<lambda>(_, v). v < ELFDATANUM) ELFDATA_values \<and>
   list_all (\<lambda>(_, v). v < ET_NUM \<or> 0xfe00 \<le> v) ET_values \<and>
   filter (\<lambda>(_, v). EM_NUM \<le> v) EM_values = [(''EM_ALPHA'', 0x9026)] \<and>
   list_all (\<lambda>(_, v). v < EV_NUM) EV_values \<and>
   list_all (\<lambda>(_, v). v < SHT_NUM \<or> 0x60000000 \<le> v) SHT_values \<and>
   list_all (\<lambda>(_, v). v < STB_NUM \<or> 10 \<le> v) STB_values \<and>
   list_all (\<lambda>(_, v). v < STT_NUM \<or> 10 \<le> v) STT_values \<and>
   list_all (\<lambda>(_, v). v < PT_NUM \<or> 0x60000000 \<le> v) PT_values \<and>
   list_all (\<lambda>(_, v). v < DT_NUM \<or> 0x6000000d \<le> v) DT_values \<and>
   list_all (\<lambda>(_, v). v < VER_DEF_NUM) VER_DEF_values \<and>
   list_all (\<lambda>(_, v). v < VER_NEED_NUM) VER_NEED_values \<and>
   list_all (\<lambda>(_, v). v - DT_LOPROC < DT_MIPS_NUM) DT_MIPS_values \<and>
   list_all (\<lambda>(_, t). DT_VALRNGLO \<le> t \<and> 0 \<le> DT_VALTAGIDX t \<and> DT_VALTAGIDX t < DT_VALNUM)
     DT_VAL_values \<and>
   list_all (\<lambda>(_, t). DT_ADDRRNGLO \<le> t \<and> 0 \<le> DT_ADDRTAGIDX t \<and> DT_ADDRTAGIDX t < DT_ADDRNUM)
     DT_ADDR_values \<and>
   list_all (\<lambda>(_, t). 0 \<le> DT_VERSIONTAGIDX t \<and> DT_VERSIONTAGIDX t < DT_VERSIONTAGNUM)
     DT_VERSION_values \<and>
   list_all (\<lambda>(_, t). uint (DT_EXTRATAGIDX (of_int t)) < DT_EXTRANUM) DT_EXTRA_values \<and>
   distinct (map (DT_VALTAGIDX \<circ> snd) DT_VAL_values) \<and>
   distinct (map (DT_ADDRTAGIDX \<circ> snd) DT_ADDR_values) \<and>
   distinct (map (DT_VERSIONTAGIDX \<circ> snd) DT_VERSION_values)"
  by (intro conjI; simp add: tag_index_defs const_defs)

text \<open>The one count of the header that is too small: DT_PPC64_OPT is the third tag above its base.\<close>

lemma ppc64_count:
  "filter (\<lambda>(_, v). DT_PPC64_NUM \<le> v - DT_LOPROC) DT_PPC64_values = [(''DT_PPC64_OPT'', 0x70000003)]"
  by (simp add: const_defs)

section \<open>Round trips of the accessors\<close>

lemma pack_fields:
  fixes a b :: "'a::len word"
  assumes n: "n \<le> LENGTH('a)" and "take_bit (LENGTH('a) - n) a = a" "take_bit n b = b"
  shows "drop_bit n (push_bit n a + b) = a" and "take_bit n (push_bit n a + b) = b"
proof -
  have b: "bit b k \<Longrightarrow> k < n" for k
    using assms(3) bit_take_bit_iff [of n b k] by simp
  have a: "bit a k \<Longrightarrow> k < LENGTH('a) - n" for k
    using assms(2) bit_take_bit_iff [of "LENGTH('a) - n" a k] by simp
  have or: "push_bit n a + b = push_bit n a OR b"
    by (rule disjunctive_add) (use b in \<open>fastforce simp: bit_push_bit_iff\<close>)
  show "drop_bit n (push_bit n a + b) = a"
  proof (rule bit_word_eqI)
    fix k assume "k < LENGTH('a)"
    then show "bit (drop_bit n (push_bit n a + b)) k = bit a k"
      using a [of k] b [of "n + k"] unfolding or by (auto simp: bit_simps)
  qed
  show "take_bit n (push_bit n a + b) = b"
  proof (rule bit_word_eqI)
    fix k assume "k < LENGTH('a)"
    then show "bit (take_bit n (push_bit n a + b)) k = bit b k"
      using b [of k] unfolding or by (auto simp: bit_simps)
  qed
qed

lemma pack_or:
  fixes a b :: "'a::len word"
  shows "push_bit n a + take_bit n b = push_bit n a OR take_bit n b"
  by (rule disjunctive_add) (auto simp: bit_simps)

text \<open>The visibility values survive the mask that reads them from \<^verbatim>\<open>st_other\<close>.\<close>

lemma visibility_roundtrip:
  "(name, v) \<in> set STV_values \<Longrightarrow> ELF32_ST_VISIBILITY (of_int v) = of_int v"
  by (auto simp: ELF32_ST_VISIBILITY_def STV_values_def)

text \<open>A move record's info field gives back the symbol index and the size it was made from.\<close>

lemma m_info_roundtrip:
  assumes "s < 2 ^ 56" "n < 2 ^ 8"
  shows "ELF32_M_SYM (ELF32_M_INFO s n) = s \<and> ELF32_M_SIZE (ELF32_M_INFO s n) = n"
proof -
  have u: "ucast (ucast x :: u8) = take_bit 8 x" for x :: u64
    by (simp add: unsigned_ucast_eq)
  have "take_bit 56 s = s" "take_bit 8 n = n" using assms by (auto intro: take_bit_less)
  then show ?thesis
    using pack_fields [of 8 s n]
    by (simp add: ELF32_M_SYM_def ELF32_M_SIZE_def ELF32_M_INFO_def u)
qed

end
