(* ===== verification/Kernel_Calls.thy ===== *)
theory Kernel_Calls
  imports External_Calls "HOL-Library.Multiset" "HOL-Library.Sublist"
begin

text \<open>
  The functions of the Linux kernel that the FriendLoader module calls, in the style of
  \<^verbatim>\<open>External_Calls\<close>: the kernel is an environment that answers each call from the calls made so
  far. Handles are opaque: a pointer is \<^verbatim>\<open>NULL\<close>, an error pointer or a valid one, and a device
  number is a pair of major and minor. What the module holds of the kernel at a moment is a
  multiset computed from the history.
\<close>

section \<open>Calls and answers\<close>

datatype kptr = NULL | ERR_PTR int | Kptr nat

fun IS_ERR :: "kptr \<Rightarrow> bool" where
  "IS_ERR (ERR_PTR _) = True"
| "IS_ERR _ = False"

fun valid_ptr :: "kptr \<Rightarrow> bool" where
  "valid_ptr (Kptr _) = True"
| "valid_ptr _ = False"

datatype dev_t = MKDEV (MAJOR: nat) (MINOR: nat)

datatype cdev = memdevice_cdev | bootmemdevice_cdev | cpudevice_cdev

datatype file_operations = s_memdevice_fops | s_bootmemdevice_fops | s_cpudevice_fops

datatype kcall =
    Alloc_chrdev_region nat nat
  | Unregister_chrdev_region dev_t nat
  | Class_create string
  | Class_destroy kptr
  | Device_create kptr dev_t string
  | Device_destroy kptr dev_t
  | Cdev_init cdev file_operations
  | Cdev_add cdev dev_t nat
  | Cdev_del cdev
  | Kobject_create_and_add string
  | Sysfs_create_group kptr
  | Kobject_put kptr
  | Remap_pfn_range addr u64 u64 u64
  | Kmalloc nat
  | Get_online_cpus
  | Online_cpus
  | Put_online_cpus
  | Cpu_is_hotpluggable int
  | Cpu_present int
  | Cpu_online int
  | Cpu_down int
  | Cpu_up int
  | Cpu_present_to_apicid int
  | Get_uv_system_type
  | Preempt_disable
  | Preempt_enable
  | Spin_lock_irqsave
  | Spin_unlock_irqrestore
  | Cmos_write u8 u8
  | Phys_write16 u64 u16
  | Apic_read u32
  | Apic_write u32 u32
  | Apic_icr_write u32 int
  | Safe_apic_wait_icr_idle
  | Udelay nat
  | Mb
  | Pr string

text \<open>An answer: an integer, a device number, a pointer, and the processors of a cpu mask in order.\<close>

record kans =
  kret :: int
  kdev :: dev_t
  kobj :: kptr
  kcpus :: "int list"

type_synonym khistory = "(kcall, kans) history"
type_synonym kernel = "(kcall, kans) env"

text \<open>One call, on a history.\<close>

definition kcall :: "kernel \<Rightarrow> kcall \<Rightarrow> khistory \<Rightarrow> khistory" where
  "kcall K c h = snd (call K c h)"

lemma kcall_append: "kcall K c h = h @ [(c, K h c)]"
  by (simp add: kcall_def call_def Let_def)

text \<open>The calls that a piece of code made: the part of the history after \<open>h\<close>.\<close>

definition made :: "khistory \<Rightarrow> khistory \<Rightarrow> kcall \<Rightarrow> (int \<Rightarrow> bool) \<Rightarrow> bool" where
  "made h h' c P \<longleftrightarrow> (\<exists>a. (c, a) \<in> set (drop (length h) h') \<and> P (kret a))"

lemma prefix_call: "prefix h g \<Longrightarrow> prefix h (kcall K c g)"
  by (simp add: kcall_append)

lemma made_call:
  "prefix h g \<Longrightarrow> made h (kcall K c g) c' P \<longleftrightarrow> made h g c' P \<or> (c = c' \<and> P (kret (K g c)))"
  by (auto simp: made_def kcall_append prefix_def)

lemma made_mono: "prefix h g \<Longrightarrow> prefix g g' \<Longrightarrow> made h g c P \<Longrightarrow> made h g' c P"
  by (auto simp: made_def prefix_def)

section \<open>What the module holds\<close>

datatype resource =
    Chrdev_region dev_t nat
  | Class kptr
  | Device kptr dev_t
  | Cdev cdev
  | Kobject kptr

text \<open>
  A failed allocation holds nothing; a failed \<^verbatim>\<open>device_create\<close> answers an error pointer, a failed
  \<^verbatim>\<open>kobject_create_and_add\<close> answers \<^verbatim>\<open>NULL\<close>.
\<close>

fun acquires :: "kcall \<times> kans \<Rightarrow> resource multiset" where
  "acquires (Alloc_chrdev_region _ n, a) = (if kret a = 0 then {#Chrdev_region (kdev a) n#} else {#})"
| "acquires (Class_create _, a) = (if valid_ptr (kobj a) then {#Class (kobj a)#} else {#})"
| "acquires (Device_create c d _, a) = (if valid_ptr (kobj a) then {#Device c d#} else {#})"
| "acquires (Cdev_add c _ _, a) = (if kret a = 0 then {#Cdev c#} else {#})"
| "acquires (Kobject_create_and_add _, a) = (if valid_ptr (kobj a) then {#Kobject (kobj a)#} else {#})"
| "acquires _ = {#}"

fun releases :: "kcall \<Rightarrow> resource multiset" where
  "releases (Unregister_chrdev_region d n) = {#Chrdev_region d n#}"
| "releases (Class_destroy c) = {#Class c#}"
| "releases (Device_destroy c d) = {#Device c d#}"
| "releases (Cdev_del c) = {#Cdev c#}"
| "releases (Kobject_put k) = {#Kobject k#}"
| "releases _ = {#}"

definition held :: "khistory \<Rightarrow> resource multiset" where
  "held h = foldl (\<lambda>M x. M - releases (fst x) + acquires x) {#} h"

lemma held_Nil [simp]: "held [] = {#}"
  by (simp add: held_def)

lemma held_snoc: "held (h @ [x]) = held h - releases (fst x) + acquires x"
  by (simp add: held_def)

lemma held_call [simp]: "held (kcall K c h) = held h - releases c + acquires (c, K h c)"
  by (simp add: kcall_append held_snoc)

text \<open>
  The calls that can fail, and what counts as success; a region of device numbers begins at the
  minor that was asked for.
\<close>

fun succeeded :: "kcall \<times> kans \<Rightarrow> bool" where
  "succeeded (Alloc_chrdev_region b _, a) = (kret a = 0 \<and> MINOR (kdev a) = b)"
| "succeeded (Class_create _, a) = valid_ptr (kobj a)"
| "succeeded (Device_create _ _ _, a) = valid_ptr (kobj a)"
| "succeeded (Cdev_add _ _ _, a) = (kret a = 0)"
| "succeeded (Kobject_create_and_add _, a) = valid_ptr (kobj a)"
| "succeeded (Sysfs_create_group _, a) = (kret a = 0)"
| "succeeded _ = True"

text \<open>A kernel in which no call of the module fails.\<close>

definition never_fails :: "kernel \<Rightarrow> bool" where
  "never_fails K \<longleftrightarrow> (\<forall>h c. succeeded (c, K h c))"

lemma never_failsD: "never_fails K \<Longrightarrow> succeeded (c, K h c)"
  by (simp add: never_fails_def)

lemma valid_not_err: "valid_ptr p \<Longrightarrow> \<not> IS_ERR p \<and> p \<noteq> NULL"
  by (cases p) simp_all

section \<open>The global variables of the module\<close>

record friend_loader =
  memdevice_dev :: dev_t
  memdevice_class :: kptr
  bootmemdevice_dev :: dev_t
  bootmemdevice_class :: kptr
  minor_num :: nat
  cpudevice_major :: nat
  cpudevice_class :: kptr
  call_sysfs_kobj :: kptr
  unpluged_cpu_list :: "int list option"
  khist :: khistory

definition kdo :: "kernel \<Rightarrow> kcall \<Rightarrow> friend_loader \<Rightarrow> friend_loader" where
  "kdo K c s = s\<lparr>khist := kcall K c (khist s)\<rparr>"

text \<open>Error numbers, negated where they are returned.\<close>

definition EAGAIN :: int where "EAGAIN = 11"
definition EINVAL :: int where "EINVAL = 22"
definition EIO :: int where "EIO = 5"
definition ENXIO :: int where "ENXIO = 6"

lemmas errnos = EAGAIN_def EINVAL_def EIO_def ENXIO_def

end
