(* ===== verification/Mem_Device.thy ===== *)
theory Mem_Device
  imports Kernel_Calls Memory_Map
begin

text \<open>
  \<^verbatim>\<open>src/FriendLoader/call_interface.c\<close>: the character devices \<^verbatim>\<open>/dev/friend_mem\<close> and
  \<^verbatim>\<open>/dev/friend_bootmem0x70000\<close>. Their \<^verbatim>\<open>mmap\<close> handlers decide which physical pages a process
  may map; \<open>generic_memdevice_init\<close> registers a device and unwinds when a step fails.
\<close>

section \<open>mmap\<close>

definition PAGE_SHIFT :: nat where "PAGE_SHIFT = 12"

record vm_area_struct =
  vm_start :: u64
  vm_end :: u64
  vm_pgoff :: u64
  vm_page_prot :: u64

definition memdevice_open :: int where "memdevice_open = 0"
definition memdevice_close :: int where "memdevice_close = 0"

definition memdevice_mmap :: "kernel \<Rightarrow> vm_area_struct \<Rightarrow> khistory \<Rightarrow> int \<times> khistory" where
  "memdevice_mmap K vma h = (
     let size = vm_end vma - vm_start vma;
         phys_start = push_bit PAGE_SHIFT (vm_pgoff vma);
         phys_end = phys_start + size in
     if phys_end - 1 < phys_start then (- EINVAL, h)
     else if phys_start > DEPLOY_PHYS_MEM_SIZE \<or> phys_end > DEPLOY_PHYS_MEM_SIZE then (- EINVAL, h)
     else let c = Remap_pfn_range (vm_start vma)
                    (vm_pgoff vma + drop_bit PAGE_SHIFT DEPLOY_PHYS_ADDR_START) size (vm_page_prot vma);
              h' = kcall K c h in
     if kret (K h c) \<noteq> 0 then (- EAGAIN, h') else (0, h'))"

definition bootmemdevice_mmap :: "kernel \<Rightarrow> vm_area_struct \<Rightarrow> khistory \<Rightarrow> int \<times> khistory" where
  "bootmemdevice_mmap K vma h = (
     let size = vm_end vma - vm_start vma in
     if vm_pgoff vma > 0 then (- EINVAL, h)
     else if size \<noteq> TRAMPOLINE_SIZE then (- EINVAL, h)
     else let c = Remap_pfn_range (vm_start vma) (drop_bit PAGE_SHIFT TRAMPOLINE_ADDR) size
                    (vm_page_prot vma);
              h' = kcall K c h in
     if kret (K h c) \<noteq> 0 then (- EAGAIN, h') else (0, h'))"

section \<open>Registration\<close>

definition generic_memdevice_init :: "kernel \<Rightarrow> cdev \<Rightarrow> file_operations \<Rightarrow> string \<Rightarrow> string \<Rightarrow>
    dev_t \<Rightarrow> kptr \<Rightarrow> khistory \<Rightarrow> int \<times> dev_t \<times> kptr \<times> khistory" where
  "generic_memdevice_init K cdev fops cname fname dev cls h = (
     let a = K h (Alloc_chrdev_region 0 1); h = kcall K (Alloc_chrdev_region 0 1) h in
     if kret a \<noteq> 0 then (- ENXIO, dev, cls, kcall K (Pr ''failed to alloc_chrdev_region'') h)
     else let dev = kdev a;
              cls = kobj (K h (Class_create cname)); h = kcall K (Class_create cname) h in
     if IS_ERR cls then
       (- ENXIO, dev, cls, kcall K (Unregister_chrdev_region dev 1) (kcall K (Pr ''failed to class_create'') h))
     else let d = kobj (K h (Device_create cls dev fname)); h = kcall K (Device_create cls dev fname) h in
     if d = NULL then
       (- ENXIO, dev, cls, kcall K (Unregister_chrdev_region dev 1) (kcall K (Class_destroy cls) h))
     else let h = kcall K (Cdev_init cdev fops) h;
              r = kret (K h (Cdev_add cdev dev 1)); h = kcall K (Cdev_add cdev dev 1) h in
     if r \<noteq> 0 then
       (- ENXIO, dev, cls, kcall K (Unregister_chrdev_region dev 1) (kcall K (Class_destroy cls)
          (kcall K (Device_destroy cls dev) h)))
     else (0, dev, cls, h))"

definition bootmem_name :: string where
  "bootmem_name = ''friend_bootmem'' @ TRAMPOLINE_ADDR_STR"

definition memdevice_init :: "kernel \<Rightarrow> friend_loader \<Rightarrow> int \<times> friend_loader" where
  "memdevice_init K s = (
     let (_, dev, cls, h) = generic_memdevice_init K memdevice_cdev s_memdevice_fops
           ''friend_mem'' ''friend_mem'' (memdevice_dev s) (memdevice_class s) (khist s);
         s = s\<lparr>memdevice_dev := dev, memdevice_class := cls, khist := h\<rparr>;
         (_, dev, cls, h) = generic_memdevice_init K bootmemdevice_cdev s_bootmemdevice_fops
           ''friend_bootmem'' bootmem_name (bootmemdevice_dev s) (bootmemdevice_class s) (khist s);
         s = s\<lparr>bootmemdevice_dev := dev, bootmemdevice_class := cls, khist := h\<rparr> in
     (0, s))"

definition memdevice_exit :: "kernel \<Rightarrow> friend_loader \<Rightarrow> friend_loader" where
  "memdevice_exit K s = (
     let s = kdo K (Cdev_del memdevice_cdev) s;
         s = kdo K (Device_destroy (memdevice_class s) (memdevice_dev s)) s;
         s = kdo K (Class_destroy (memdevice_class s)) s;
         s = kdo K (Unregister_chrdev_region (memdevice_dev s) 1) s;
         s = kdo K (Cdev_del bootmemdevice_cdev) s;
         s = kdo K (Device_destroy (bootmemdevice_class s) (bootmemdevice_dev s)) s;
         s = kdo K (Class_destroy (bootmemdevice_class s)) s in
     kdo K (Unregister_chrdev_region (bootmemdevice_dev s) 1) s)"


section \<open>Which pages can be mapped\<close>

text \<open>A mapping of user space, as the kernel hands it to a driver.\<close>

definition user_vma :: "vm_area_struct \<Rightarrow> bool" where
  "user_vma vma \<longleftrightarrow> vm_start vma \<le> vm_end vma \<and> vm_end vma \<le> 2 ^ 47 \<and> vm_pgoff vma < 2 ^ 52"

definition mapped_size :: "vm_area_struct \<Rightarrow> nat" where
  "mapped_size vma = unat (vm_end vma) - unat (vm_start vma)"

definition mapped_offset :: "vm_area_struct \<Rightarrow> nat" where
  "mapped_offset vma = unat (vm_pgoff vma) * 4096"

lemma user_vma_unat:
  assumes "user_vma vma"
  shows "unat (vm_end vma - vm_start vma) = mapped_size vma"
    "unat (push_bit PAGE_SHIFT (vm_pgoff vma)) = mapped_offset vma" "mapped_size vma \<le> 2 ^ 47"
proof -
  have e: "unat (vm_start vma) \<le> unat (vm_end vma)" "unat (vm_end vma) \<le> 2 ^ 47"
    "unat (vm_pgoff vma) < 2 ^ 52"
    using assms by (simp_all add: user_vma_def word_le_nat_alt word_less_nat_alt)
  then show "unat (vm_end vma - vm_start vma) = mapped_size vma" "mapped_size vma \<le> 2 ^ 47"
    by (simp_all add: mapped_size_def unat_sub word_le_nat_alt)
  show "unat (push_bit PAGE_SHIFT (vm_pgoff vma)) = mapped_offset vma"
    using e(3) by (simp add: mapped_offset_def PAGE_SHIFT_def push_bit_eq_mult unat_word_ariths)
qed

definition mem_request :: "vm_area_struct \<Rightarrow> kcall" where
  "mem_request vma = Remap_pfn_range (vm_start vma) (vm_pgoff vma + 0x100000)
     (vm_end vma - vm_start vma) (vm_page_prot vma)"

lemma range_checks:
  fixes s n :: u64
  assumes "unat n \<le> 2 ^ 47" "unat s + unat n < 2 ^ 64"
  shows "(s + n - 1 < s \<or> s > DEPLOY_PHYS_MEM_SIZE \<or> s + n > DEPLOY_PHYS_MEM_SIZE) \<longleftrightarrow>
    \<not> (unat s + unat n \<le> 0x40000000 \<and> (n = 0 \<longrightarrow> s = 0))"
proof -
  have sum: "unat (s + n) = unat s + unat n" using assms(2) by (simp add: unat_word_ariths)
  have "s + n - 1 < s \<longleftrightarrow> n = 0 \<and> s \<noteq> 0"
  proof (cases "s + n = 0")
    case True
    then have "s = 0 \<and> n = 0" using sum by (simp add: unsigned_eq_0_iff)
    then show ?thesis by simp
  next
    case False
    then have "unat (s + n - 1) = unat s + unat n - 1" using sum by (simp add: unat_minus_one)
    moreover have "unat s + unat n \<noteq> 0" using False sum by (simp only: eq_0_unat not_False_eq_True)
    ultimately show ?thesis by (simp only: word_less_nat_alt eq_0_unat) arith
  qed
  then show ?thesis by (auto simp: word_less_nat_alt sum deploy_size)
qed

text \<open>The wrap-around of the physical range: beyond the checked sizes the sum is at least 2^52 away.\<close>

lemma range_checks_high:
  fixes s n :: u64
  assumes "unat n \<le> 2 ^ 47" "2 ^ 64 \<le> unat s + unat n"
  shows "s > DEPLOY_PHYS_MEM_SIZE"
  using assms by (simp add: word_less_nat_alt deploy_size)

lemma memdevice_mmap_cases:
  assumes "user_vma vma"
  shows "memdevice_mmap K vma h =
    (if mapped_offset vma + mapped_size vma \<le> 0x40000000 \<and> (mapped_size vma = 0 \<longrightarrow> mapped_offset vma = 0)
     then (if kret (K h (mem_request vma)) \<noteq> 0 then - EAGAIN else 0, kcall K (mem_request vma) h)
     else (- EINVAL, h))"
proof -
  note u = user_vma_unat [OF assms]
  let ?s = "push_bit PAGE_SHIFT (vm_pgoff vma)" and ?n = "vm_end vma - vm_start vma"
  have z: "?n = 0 \<longleftrightarrow> mapped_size vma = 0" "?s = 0 \<longleftrightarrow> mapped_offset vma = 0"
    by (simp_all only: eq_0_unat u)
  have "(?s + ?n - 1 < ?s \<or> ?s > DEPLOY_PHYS_MEM_SIZE \<or> ?s + ?n > DEPLOY_PHYS_MEM_SIZE) \<longleftrightarrow>
    \<not> (unat ?s + unat ?n \<le> 0x40000000 \<and> (?n = 0 \<longrightarrow> ?s = 0))"
  proof (cases "unat ?s + unat ?n < 2 ^ 64")
    case True with u show ?thesis by (intro range_checks) simp_all
  next
    case False
    then have "?s > DEPLOY_PHYS_MEM_SIZE" using u by (intro range_checks_high [of ?n]) simp_all
    then show ?thesis using False by simp
  qed
  then show ?thesis
    unfolding memdevice_mmap_def Let_def u z
    by (auto simp: mem_request_def PAGE_SHIFT_def DEPLOY_PHYS_ADDR_START_def)
qed

text \<open>The physical bytes that a successful \<^verbatim>\<open>remap_pfn_range\<close> makes visible.\<close>

fun remapped :: "kcall \<Rightarrow> addr set" where
  "remapped (Remap_pfn_range _ pfn n _) = region (push_bit PAGE_SHIFT pfn) (unat n)"
| "remapped _ = {}"

text \<open>
  C21: A process can map exactly the friend's memory through /dev/friend_mem. A request inside the
  first gigabyte of the device reaches the kernel and shows the process the physical bytes at the
  same distance from the start of the friend's memory, none of them outside it; the result is 0, or
  -EAGAIN when the kernel cannot do it. Every other request is refused with -EINVAL before any
  page is mapped.\<close>

theorem memdevice_mmap_confined:
  assumes "user_vma vma"
  shows "if mapped_offset vma + mapped_size vma \<le> unat DEPLOY_PHYS_MEM_SIZE \<and>
            (mapped_size vma = 0 \<longrightarrow> mapped_offset vma = 0)
    then \<exists>c. memdevice_mmap K vma h = (if kret (K h c) = 0 then 0 else - EAGAIN, h @ [(c, K h c)]) \<and>
           remapped c = region (DEPLOY_PHYS_ADDR_START + of_nat (mapped_offset vma)) (mapped_size vma) \<and>
           remapped c \<subseteq> deploy_region
    else memdevice_mmap K vma h = (- EINVAL, h)"
proof -
  have "of_nat (mapped_offset vma) = push_bit PAGE_SHIFT (vm_pgoff vma)"
    using user_vma_unat(2) [OF assms, symmetric] by simp
  then have "push_bit PAGE_SHIFT (vm_pgoff vma + 0x100000) = DEPLOY_PHYS_ADDR_START + of_nat (mapped_offset vma)"
    by (simp add: push_bit_add PAGE_SHIFT_def DEPLOY_PHYS_ADDR_START_def)
  then have r: "remapped (mem_request vma) =
      region (DEPLOY_PHYS_ADDR_START + of_nat (mapped_offset vma)) (mapped_size vma)"
    using user_vma_unat(1) [OF assms] by (simp add: mem_request_def)
  show ?thesis
  proof (cases "mapped_offset vma + mapped_size vma \<le> 0x40000000")
    case True
    then have "remapped (mem_request vma) \<subseteq> deploy_region"
      unfolding r by (intro region_shift) (simp add: deploy_size unat_of_nat take_bit_nat_eq_self)
    then show ?thesis
      unfolding memdevice_mmap_cases [OF assms] deploy_size r
      by (auto intro!: exI [of _ "mem_request vma"] simp: r kcall_append)
  next
    case False
    then show ?thesis unfolding memdevice_mmap_cases [OF assms] deploy_size by simp
  qed
qed

definition friend_vma :: vm_area_struct where
  "friend_vma = \<lparr>vm_start = DEPLOY_PHYS_ADDR_START, vm_end = DEPLOY_PHYS_ADDR_END, vm_pgoff = 0, vm_page_prot = 7\<rparr>"

theorem memdevice_mmap_confined_witness:
  "user_vma friend_vma \<and> (\<exists>c. memdevice_mmap (\<lambda>_ _. \<lparr>kret = 0, kdev = MKDEV 0 0, kobj = NULL, kcpus = []\<rparr>)
     friend_vma [] = (0, [(c, \<lparr>kret = 0, kdev = MKDEV 0 0, kobj = NULL, kcpus = []\<rparr>)]) \<and>
     remapped c = deploy_region)"
proof -
  have u: "user_vma friend_vma"
    by (simp add: user_vma_def friend_vma_def layout_simps)
  have "mapped_size friend_vma = 0x40000000" "mapped_offset friend_vma = 0"
    by (simp_all add: mapped_size_def mapped_offset_def friend_vma_def layout_simps)
  then show ?thesis
    using memdevice_mmap_confined [OF u, of "\<lambda>_ _. \<lparr>kret = 0, kdev = MKDEV 0 0, kobj = NULL, kcpus = []\<rparr>" "[]"] u
    by (auto simp: deploy_size)
qed

lemma bootmemdevice_mmap_cases:
  "bootmemdevice_mmap K vma h =
    (let c = Remap_pfn_range (vm_start vma) 0x70 (vm_end vma - vm_start vma) (vm_page_prot vma) in
     if vm_pgoff vma = 0 \<and> vm_end vma - vm_start vma = TRAMPOLINE_SIZE
     then (if kret (K h c) \<noteq> 0 then - EAGAIN else 0, kcall K c h)
     else (- EINVAL, h))"
  by (auto simp: bootmemdevice_mmap_def Let_def PAGE_SHIFT_def TRAMPOLINE_ADDR_def word_gt_0)

lemma boot_request_remapped:
  "remapped (Remap_pfn_range v 0x70 TRAMPOLINE_SIZE p) = trampoline_region"
  by (simp add: PAGE_SHIFT_def TRAMPOLINE_ADDR_def)

section \<open>What a registration holds\<close>

text \<open>The four resources of a registered device.\<close>

definition device_resources :: "cdev \<Rightarrow> dev_t \<Rightarrow> kptr \<Rightarrow> resource multiset" where
  "device_resources cdev dev cls = {#Chrdev_region dev 1, Class cls, Device cls dev, Cdev cdev#}"

text \<open>
  What the code relies on of the kernel: \<^verbatim>\<open>class_create\<close> never answers \<^verbatim>\<open>NULL\<close>, and
  \<^verbatim>\<open>alloc_chrdev_region\<close> gives out a number under which no device exists.
\<close>

definition class_never_null :: "kernel \<Rightarrow> bool" where
  "class_never_null K \<longleftrightarrow> (\<forall>h n. kobj (K h (Class_create n)) \<noteq> NULL)"

definition fresh_number :: "kernel \<Rightarrow> khistory \<Rightarrow> bool" where
  "fresh_number K h \<longleftrightarrow> (\<forall>c. Device c (kdev (K h (Alloc_chrdev_region 0 1))) \<notin># held h)"

lemma not_err_valid: "p \<noteq> NULL \<Longrightarrow> \<not> IS_ERR p \<Longrightarrow> valid_ptr p"
  by (cases p) simp_all

text \<open>The calls of a registration that succeeds, in order.\<close>

definition registration :: "cdev \<Rightarrow> file_operations \<Rightarrow> string \<Rightarrow> string \<Rightarrow> dev_t \<Rightarrow> kptr \<Rightarrow> kcall list" where
  "registration cdev fops cname fname dev cls = [Alloc_chrdev_region 0 1, Class_create cname,
     Device_create cls dev fname, Cdev_init cdev fops, Cdev_add cdev dev 1]"

text \<open>
  C22: What registering a memory device leaves behind. When it returns 0, it has made exactly the
  five calls in order and has acquired the number region, the class and the character device, and
  the device node if and only if the answer of its device_create was not an error pointer (the code
  only compares it with NULL, so it returns 0 without a device node when device_create fails with
  an error pointer). Otherwise it returns -ENXIO with everything acquired on the way released
  again, in whatever state the kernel was before.\<close>

theorem generic_memdevice_init_resources:
  assumes "class_never_null K" "fresh_number K h" "generic_memdevice_init K cdev fops cname fname dev0 cls0 h = (r, dev, cls, h')"
  shows "(r = 0 \<and> (\<exists>a0 a1 a2 a3 a4. h' = h @ zip (registration cdev fops cname fname dev cls) [a0, a1, a2, a3, a4] \<and>
             held h' = held h + (if IS_ERR (kobj a2) then device_resources cdev dev cls - {#Device cls dev#}
               else device_resources cdev dev cls))) \<or>
         (r = - ENXIO \<and> held h' = held h)"
proof -
  let ?A = "Alloc_chrdev_region 0 1"
  let ?h1 = "kcall K ?A h" and ?dev = "kdev (K h ?A)"
  let ?cls = "kobj (K ?h1 (Class_create cname))" and ?h2 = "kcall K (Class_create cname) ?h1"
  let ?d = "kobj (K ?h2 (Device_create ?cls ?dev fname))"
  let ?h3 = "kcall K (Cdev_init cdev fops) (kcall K (Device_create ?cls ?dev fname) ?h2)"
  have nodev: "Device ?cls ?dev \<notin># held h"
    using assms(2) unfolding fresh_number_def by blast
  have cls: "valid_ptr ?cls" if "\<not> IS_ERR ?cls"
    using that assms(1) by (intro not_err_valid) (auto simp: class_never_null_def)
  consider "kret (K h ?A) \<noteq> 0" | "kret (K h ?A) = 0" "IS_ERR ?cls"
    | "kret (K h ?A) = 0" "\<not> IS_ERR ?cls" "?d = NULL"
    | "kret (K h ?A) = 0" "\<not> IS_ERR ?cls" "?d \<noteq> NULL" "kret (K ?h3 (Cdev_add cdev ?dev 1)) \<noteq> 0"
    | "kret (K h ?A) = 0" "\<not> IS_ERR ?cls" "?d \<noteq> NULL" "kret (K ?h3 (Cdev_add cdev ?dev 1)) = 0"
    by blast
  then show ?thesis
  proof cases
    case 1 then show ?thesis using assms(3)
      by (auto simp: generic_memdevice_init_def Let_def)
  next
    case 2 then show ?thesis using assms(3)
      by (cases ?cls) (auto simp: generic_memdevice_init_def Let_def)
  next
    case 3 then show ?thesis using assms(3) cls
      by (auto simp: generic_memdevice_init_def Let_def)
  next
    case 4 then show ?thesis using assms(3) cls nodev
      by (cases ?d) (auto simp: generic_memdevice_init_def Let_def diff_single_trivial)
  next
    case 5
    then have "r = 0" "dev = ?dev" "cls = ?cls" "h' = kcall K (Cdev_add cdev ?dev 1) ?h3"
      using assms(3) by (auto simp: generic_memdevice_init_def Let_def)
    moreover have "held (kcall K (Cdev_add cdev ?dev 1) ?h3) = held h +
        (if IS_ERR ?d then device_resources cdev ?dev ?cls - {#Device ?cls ?dev#}
         else device_resources cdev ?dev ?cls)"
      using 5 cls by (cases ?d) (auto simp: device_resources_def)
    ultimately show ?thesis by (auto simp: kcall_append registration_def)
  qed
qed

text \<open>A kernel that answers every call with success, with pointers and majors numbered by the history.\<close>

definition demo_kernel :: kernel where
  "demo_kernel h c = \<lparr>kret = 0, kdev = MKDEV (240 + length h) (case c of Alloc_chrdev_region b _ \<Rightarrow> b | _ \<Rightarrow> 0),
     kobj = Kptr (length h), kcpus = [0, 1, 2]\<rparr>"

theorem generic_memdevice_init_resources_witness:
  "\<exists>h'. generic_memdevice_init demo_kernel memdevice_cdev s_memdevice_fops ''friend_mem'' ''friend_mem''
      (MKDEV 0 0) NULL [] = (0, MKDEV 240 0, Kptr 1, h') \<and>
    held h' = device_resources memdevice_cdev (MKDEV 240 0) (Kptr 1)"
proof -
  let ?r = "generic_memdevice_init demo_kernel memdevice_cdev s_memdevice_fops ''friend_mem'' ''friend_mem''
      (MKDEV 0 0) NULL []"
  have "class_never_null demo_kernel" "fresh_number demo_kernel []"
    by (simp_all add: class_never_null_def fresh_number_def demo_kernel_def)
  note t = generic_memdevice_init_resources [OF this]
  have r: "fst ?r = 0" "fst (snd ?r) = MKDEV 240 0" "fst (snd (snd ?r)) = Kptr 1"
    by (simp_all add: generic_memdevice_init_def Let_def demo_kernel_def kcall_append)
  have "?r = (0, MKDEV 240 0, Kptr 1, snd (snd (snd ?r)))"
    using r by (metis prod.collapse)
  moreover have "\<not> IS_ERR (kobj (snd (snd (snd (snd ?r)) ! 2)))"
    by (simp add: generic_memdevice_init_def Let_def demo_kernel_def kcall_append)
  ultimately show ?thesis
    using t [OF \<open>?r = _\<close>] by (auto simp: errnos registration_def)
qed

text \<open>A device_create that fails with an error pointer goes unnoticed.\<close>

lemma device_error_unnoticed:
  "\<exists>dev cls h'. generic_memdevice_init (\<lambda>h c. case c of
        Device_create _ _ _ \<Rightarrow> (demo_kernel h c)\<lparr>kobj := ERR_PTR (- 12)\<rparr> | _ \<Rightarrow> demo_kernel h c)
      memdevice_cdev s_memdevice_fops ''friend_mem'' ''friend_mem'' (MKDEV 0 0) NULL [] = (0, dev, cls, h') \<and>
    Device cls dev \<notin># held h'"
  by (auto simp: generic_memdevice_init_def Let_def demo_kernel_def)

section \<open>Loading and unloading\<close>

lemma generic_memdevice_init_ok:
  assumes "never_fails K"
  obtains dev cls h' where
    "generic_memdevice_init K cdev fops cname fname dev0 cls0 h = (0, dev, cls, h')"
    "held h' = held h + device_resources cdev dev cls"
    "prefix h h'" "\<exists>a. (Device_create cls dev fname, a) \<in> set h'"
proof -
  let ?A = "Alloc_chrdev_region 0 1" and ?C = "Class_create cname"
  let ?h1 = "kcall K ?A h" let ?h2 = "kcall K ?C ?h1"
  let ?D = "Device_create (kobj (K ?h1 ?C)) (kdev (K h ?A)) fname"
  let ?h3 = "kcall K (Cdev_init cdev fops) (kcall K ?D ?h2)"
  note ok = never_failsD [OF assms]
  have "kret (K h ?A) = 0" "valid_ptr (kobj (K ?h1 ?C))" "valid_ptr (kobj (K ?h2 ?D))"
    "kret (K ?h3 (Cdev_add cdev (kdev (K h ?A)) 1)) = 0"
    using ok [of ?A h] ok [of ?C ?h1] ok [of ?D ?h2] ok [of "Cdev_add cdev (kdev (K h ?A)) 1" ?h3] by simp_all
  then show ?thesis
    using valid_not_err [of "kobj (K ?h1 ?C)"] valid_not_err [of "kobj (K ?h2 ?D)"]
    by (intro that [of "kdev (K h ?A)" "kobj (K ?h1 ?C)" "kcall K (Cdev_add cdev (kdev (K h ?A)) 1) ?h3"])
      (simp_all add: generic_memdevice_init_def Let_def device_resources_def, auto simp: kcall_append)
qed

text \<open>The device nodes that the module creates for its memory devices.\<close>

lemma memdevice_init_creates:
  assumes "never_fails K" "name \<in> {''friend_mem'', bootmem_name}"
  shows "\<exists>cls dev a. (Device_create cls dev name, a) \<in> set (khist (snd (memdevice_init K s)))"
proof -
  obtain dev cls h where 1: "generic_memdevice_init K memdevice_cdev s_memdevice_fops
      ''friend_mem'' ''friend_mem'' (memdevice_dev s) (memdevice_class s) (khist s) = (0, dev, cls, h)"
    "\<exists>a. (Device_create cls dev ''friend_mem'', a) \<in> set h"
    using generic_memdevice_init_ok [OF assms(1)] by metis
  obtain dev' cls' h' where 2: "generic_memdevice_init K bootmemdevice_cdev s_bootmemdevice_fops
      ''friend_bootmem'' bootmem_name (bootmemdevice_dev s) (bootmemdevice_class s) h = (0, dev', cls', h')"
    "prefix h h'" "\<exists>a. (Device_create cls' dev' bootmem_name, a) \<in> set h'"
    using generic_memdevice_init_ok [OF assms(1)] by metis
  have "set h \<subseteq> set h'" using 2(2) by (rule set_mono_prefix)
  then show ?thesis using 1 2 assms(2) by (auto simp: memdevice_init_def)
qed

definition memdevice_resources :: "friend_loader \<Rightarrow> resource multiset" where
  "memdevice_resources s = device_resources memdevice_cdev (memdevice_dev s) (memdevice_class s) +
     device_resources bootmemdevice_cdev (bootmemdevice_dev s) (bootmemdevice_class s)"

lemma memdevice_init_held:
  assumes "never_fails K"
  shows "fst (memdevice_init K s) = 0"
    "held (khist (snd (memdevice_init K s))) = held (khist s) + memdevice_resources (snd (memdevice_init K s))"
proof -
  obtain dev cls h where 1: "generic_memdevice_init K memdevice_cdev s_memdevice_fops
      ''friend_mem'' ''friend_mem'' (memdevice_dev s) (memdevice_class s) (khist s) = (0, dev, cls, h)"
    "held h = held (khist s) + device_resources memdevice_cdev dev cls"
    using generic_memdevice_init_ok [OF assms] by metis
  obtain dev' cls' h' where 2: "generic_memdevice_init K bootmemdevice_cdev s_bootmemdevice_fops
      ''friend_bootmem'' bootmem_name (bootmemdevice_dev s) (bootmemdevice_class s) h = (0, dev', cls', h')"
    "held h' = held h + device_resources bootmemdevice_cdev dev' cls'"
    using generic_memdevice_init_ok [OF assms] by metis
  show "fst (memdevice_init K s) = 0"
    "held (khist (snd (memdevice_init K s))) = held (khist s) + memdevice_resources (snd (memdevice_init K s))"
    using 1 2 by (simp_all add: memdevice_init_def memdevice_resources_def)
qed

lemma memdevice_exit_held:
  "held (khist (memdevice_exit K s)) = held (khist s) - memdevice_resources s"
  by (simp add: memdevice_exit_def Let_def kdo_def memdevice_resources_def device_resources_def
      multiset_eq_iff)

end
