(* ===== verification/Cpu_Hotplug.thy ===== *)
theory Cpu_Hotplug
  imports Kernel_Calls Memory_Map
begin

text \<open>
  \<^verbatim>\<open>src/FriendLoader/cpu_hotplug.c\<close>: taking processors away from Linux, starting one at the
  trampoline by INIT and STARTUP interrupts, and giving it back. The local APIC is reached through
  kernel calls; the constants of the kernel's headers are fields of a record.
\<close>

record apic_header =
  APIC_LVR :: u32
  APIC_ESR :: u32
  APIC_INT_LEVELTRIG :: u32
  APIC_INT_ASSERT :: u32
  APIC_DM_INIT :: u32
  APIC_DM_STARTUP :: u32
  GET_APIC_MAXLVT :: "int \<Rightarrow> int"
  APIC_INTEGRATED :: bool
  TRAMPOLINE_PHYS_HIGH :: u64
  TRAMPOLINE_PHYS_LOW :: u64
  UV_NON_UNIQUE_APIC :: int

section \<open>Waking up a processor\<close>

definition smpboot_setup_warm_reset_vector :: "kernel \<Rightarrow> apic_header \<Rightarrow> u64 \<Rightarrow> khistory \<Rightarrow> khistory" where
  "smpboot_setup_warm_reset_vector K A start_eip h = (
     let h = kcall K Spin_lock_irqsave h;
         h = kcall K (Cmos_write 0xa 0xf) h;
         h = kcall K Spin_unlock_irqrestore h;
         h = kcall K (Phys_write16 (TRAMPOLINE_PHYS_HIGH A) (ucast (drop_bit 4 start_eip))) h in
     kcall K (Phys_write16 (TRAMPOLINE_PHYS_LOW A) (ucast (start_eip AND 0xf))) h)"

definition init_udelay :: nat where "init_udelay = 10000"

text \<open>Clearing and reading the error status register.\<close>

definition read_esr :: "kernel \<Rightarrow> apic_header \<Rightarrow> int \<Rightarrow> khistory \<Rightarrow> int \<times> khistory" where
  "read_esr K A maxlvt h = (
     let h = (if maxlvt > 3 then kcall K (Apic_write (APIC_ESR A) 0) h else h);
         c = Apic_read (APIC_ESR A) in
     (kret (K h c), kcall K c h))"

text \<open>The STARTUP loop with \<open>n\<close> iterations left.\<close>

fun startup_loop :: "kernel \<Rightarrow> apic_header \<Rightarrow> int \<Rightarrow> int \<Rightarrow> u64 \<Rightarrow> nat \<Rightarrow> int \<Rightarrow> int \<Rightarrow> khistory \<Rightarrow>
    int \<times> int \<times> khistory" where
  "startup_loop K A maxlvt apicid start_eip 0 send_status accept_status h = (send_status, accept_status, h)"
| "startup_loop K A maxlvt apicid start_eip (Suc n) send_status accept_status h = (
     let h = snd (read_esr K A maxlvt h);
         h = kcall K (Apic_icr_write (APIC_DM_STARTUP A OR ucast (drop_bit 12 start_eip)) apicid) h;
         h = kcall K (Udelay (if init_udelay = 0 then 10 else 300)) h;
         send_status = kret (K h Safe_apic_wait_icr_idle);
         h = kcall K Safe_apic_wait_icr_idle h;
         h = kcall K (Udelay (if init_udelay = 0 then 10 else 200)) h;
         accept_status = fst (read_esr K A maxlvt h) AND 0xEF;
         h = snd (read_esr K A maxlvt h) in
     if send_status \<noteq> 0 \<or> accept_status \<noteq> 0 then (send_status, accept_status, h)
     else startup_loop K A maxlvt apicid start_eip n send_status accept_status h)"

definition wakeup_secondary_cpu_via_init ::
    "kernel \<Rightarrow> apic_header \<Rightarrow> int \<Rightarrow> u64 \<Rightarrow> khistory \<Rightarrow> int \<times> khistory" where
  "wakeup_secondary_cpu_via_init K A apicid start_eip h = (
     let maxlvt = GET_APIC_MAXLVT A (kret (K h (Apic_read (APIC_LVR A))));
         h = kcall K (Apic_read (APIC_LVR A)) h;
         h = (if APIC_INTEGRATED A then snd (read_esr K A maxlvt h) else h);
         h = kcall K (Apic_icr_write (APIC_INT_LEVELTRIG A OR APIC_INT_ASSERT A OR APIC_DM_INIT A) apicid) h;
         h = kcall K Safe_apic_wait_icr_idle h;
         h = kcall K (Udelay init_udelay) h;
         h = kcall K (Apic_icr_write (APIC_INT_LEVELTRIG A OR APIC_DM_INIT A) apicid) h;
         send_status = kret (K h Safe_apic_wait_icr_idle);
         h = kcall K Safe_apic_wait_icr_idle h;
         h = kcall K Mb h;
         num_starts = (if APIC_INTEGRATED A then 2 else 0);
         (send_status, accept_status, h) =
           startup_loop K A maxlvt apicid start_eip num_starts send_status 0 h;
         h = (if send_status \<noteq> 0 then kcall K (Pr ''APIC never delivered'') h else h);
         h = (if accept_status \<noteq> 0 then kcall K (Pr ''APIC delivery error'') h else h) in
     (signed_take_bit 31 (send_status OR accept_status), h))"

section \<open>Unplugging, starting and replugging\<close>

text \<open>\<open>n\<close> is \<^verbatim>\<open>num_possible_cpus()\<close>, a constant of the machine.\<close>

definition get_cpu_num :: "friend_loader \<Rightarrow> int" where
  "get_cpu_num s = (case unpluged_cpu_list s of None \<Rightarrow> - 1
    | Some l \<Rightarrow> int (length (filter (\<lambda>c. c > 0) l)))"

text \<open>Filling the list from the online processors; an index past the end of the list is a fault.\<close>

fun collect_cpus :: "kernel \<Rightarrow> int list \<Rightarrow> nat \<Rightarrow> int list \<Rightarrow> khistory \<Rightarrow> (int list \<times> khistory) option" where
  "collect_cpus K [] i l h = Some (l, h)"
| "collect_cpus K (cpu # cpus) i l h = (
     if cpu = 0 then collect_cpus K cpus i l h
     else let c = Cpu_is_hotpluggable cpu; h' = kcall K c h in
     if kret (K h c) = 0 then collect_cpus K cpus i l h'
     else if i < length l then collect_cpus K cpus (i + 1) (l[i := cpu]) h'
     else None)"

fun down_cpus :: "kernel \<Rightarrow> int list \<Rightarrow> bool \<Rightarrow> int \<Rightarrow> khistory \<Rightarrow> bool \<times> int \<times> khistory" where
  "down_cpus K [] unpluged_flag ret1 h = (unpluged_flag, ret1, h)"
| "down_cpus K (c # cs) unpluged_flag ret1 h = (
     if c > 0 then
       let ret2 = kret (K h (Cpu_down c)) in
       down_cpus K cs True (if ret2 < 0 then - 1 else ret1) (kcall K (Cpu_down c) h)
     else down_cpus K cs unpluged_flag ret1 h)"

definition unplug_recorded :: "kernel \<Rightarrow> int list \<Rightarrow> friend_loader \<Rightarrow> int \<times> friend_loader" where
  "unplug_recorded K l s = (
     let (unpluged_flag, ret1, h) = down_cpus K l False 0 (khist s) in
     if \<not> unpluged_flag then (- 1, s\<lparr>khist := kcall K (Pr ''no unplugable cpu'') h\<rparr>)
     else (ret1, s\<lparr>khist := h\<rparr>))"

definition cpu_unplug :: "kernel \<Rightarrow> nat \<Rightarrow> friend_loader \<Rightarrow> (int \<times> friend_loader) option" where
  "cpu_unplug K n s = (case unpluged_cpu_list s of
      Some l \<Rightarrow> Some (unplug_recorded K l s)
    | None \<Rightarrow>
        let a = K (khist s) (Kmalloc (4 * n)); s = kdo K (Kmalloc (4 * n)) s in
        if kobj a = NULL then Some (- 1, s)
        else let s = kdo K Get_online_cpus s;
                 cpus = kcpus (K (khist s) Online_cpus);
                 s = kdo K Online_cpus s in
        (case collect_cpus K cpus 0 (replicate n (- 1)) (khist s) of
           None \<Rightarrow> None
         | Some (l, h) \<Rightarrow>
             let s = s\<lparr>unpluged_cpu_list := Some l, khist := kcall K Put_online_cpus h\<rparr> in
             Some (unplug_recorded K l s)))"

text \<open>The body of the \<^verbatim>\<open>do ... while (0)\<close>, left by \<^verbatim>\<open>break\<close> with \<open>rval\<close> set.\<close>

definition start_present :: "kernel \<Rightarrow> apic_header \<Rightarrow> int \<Rightarrow> khistory \<Rightarrow> int \<times> khistory" where
  "start_present K A i h = (
     let present = kret (K h (Cpu_present i)); h = kcall K (Cpu_present i) h in
     if present = 0 then (- 1, h)
     else let online = kret (K h (Cpu_online i)); h = kcall K (Cpu_online i) h;
              down = kret (K h (Cpu_down i)); h = (if online \<noteq> 0 then kcall K (Cpu_down i) h else h) in
     if online \<noteq> 0 \<and> down < 0 then (- 1, h)
     else let apicid = kret (K h (Cpu_present_to_apicid i)); h = kcall K (Cpu_present_to_apicid i) h in
     if i = 0 \<or> apicid = 0 then (- 1, h)
     else let (r, h) = wakeup_secondary_cpu_via_init K A apicid TRAMPOLINE_ADDR h in
     if r < 0 then (- 1, h) else (0, h))"

definition cpu_start :: "kernel \<Rightarrow> apic_header \<Rightarrow> int \<Rightarrow> khistory \<Rightarrow> int \<times> khistory" where
  "cpu_start K A i h = (
     let uv = kret (K h Get_uv_system_type);
         h = kcall K Get_uv_system_type h;
         h = (if uv \<noteq> UV_NON_UNIQUE_APIC A then smpboot_setup_warm_reset_vector K A TRAMPOLINE_ADDR h else h);
         h = kcall K Preempt_disable h;
         (rval, h) = start_present K A i h in
     (rval, kcall K Preempt_enable h))"

definition cpu_replug :: "kernel \<Rightarrow> int \<Rightarrow> khistory \<Rightarrow> int \<times> khistory" where
  "cpu_replug K i h = (if kret (K h (Cpu_up i)) < 0 then - 1 else 0, kcall K (Cpu_up i) h)"

section \<open>The interrupts that are sent\<close>

text \<open>What a history did with the interrupt command register and with the processors.\<close>

fun icr_write :: "kcall \<times> kans \<Rightarrow> (u32 \<times> int) list" where
  "icr_write (Apic_icr_write v apicid, _) = [(v, apicid)]"
| "icr_write _ = []"

definition icr_writes :: "khistory \<Rightarrow> (u32 \<times> int) list" where
  "icr_writes h = concat (map icr_write h)"

lemma icr_writes_call [simp]: "icr_writes (kcall K c h) = icr_writes h @ icr_write (c, K h c)"
  by (simp add: icr_writes_def kcall_append)

lemma icr_writes_read_esr [simp]: "icr_writes (snd (read_esr K A l h)) = icr_writes h"
  by (simp add: read_esr_def Let_def)

lemma icr_writes_warm_reset [simp]:
  "icr_writes (smpboot_setup_warm_reset_vector K A e h) = icr_writes h"
  by (simp add: smpboot_setup_warm_reset_vector_def Let_def)

definition sipi :: "apic_header \<Rightarrow> int \<Rightarrow> u32 \<times> int" where
  "sipi A apicid = (APIC_DM_STARTUP A OR 0x70, apicid)"

definition init_ipis :: "apic_header \<Rightarrow> int \<Rightarrow> (u32 \<times> int) list" where
  "init_ipis A apicid = [(APIC_INT_LEVELTRIG A OR APIC_INT_ASSERT A OR APIC_DM_INIT A, apicid),
     (APIC_INT_LEVELTRIG A OR APIC_DM_INIT A, apicid)]"

lemma startup_loop_ipis:
  assumes "startup_loop K A l apicid TRAMPOLINE_ADDR n s a h = (s', a', h')"
  shows "\<exists>m \<le> n. icr_writes h' = icr_writes h @ replicate m (sipi A apicid) \<and>
    (0 < n \<longrightarrow> 0 < m) \<and> (m < n \<longrightarrow> s' \<noteq> 0 \<or> a' \<noteq> 0)"
  using assms
proof (induction n arbitrary: s a h)
  case 0
  then show ?case by simp
next
  case (Suc n)
  have v: "(ucast (drop_bit 12 TRAMPOLINE_ADDR) :: u32) = 0x70" by (simp add: TRAMPOLINE_ADDR_def)
  let ?h1 = "kcall K (Udelay 300) (kcall K (Apic_icr_write (APIC_DM_STARTUP A OR 0x70) apicid)
      (snd (read_esr K A l h)))"
  let ?s = "kret (K ?h1 Safe_apic_wait_icr_idle)"
  let ?h2 = "kcall K (Udelay 200) (kcall K Safe_apic_wait_icr_idle ?h1)"
  let ?a = "fst (read_esr K A l ?h2) AND 0xEF" and ?h3 = "snd (read_esr K A l ?h2)"
  have w: "icr_writes ?h3 = icr_writes h @ [sipi A apicid]" by (simp add: sipi_def)
  have run: "(if ?s \<noteq> 0 \<or> ?a \<noteq> 0 then (?s, ?a, ?h3)
      else startup_loop K A l apicid TRAMPOLINE_ADDR n ?s ?a ?h3) = (s', a', h')"
    using Suc.prems by (simp add: v init_udelay_def Let_def)
  show ?case
  proof (cases "?s \<noteq> 0 \<or> ?a \<noteq> 0")
    case True
    then have "s' = ?s" "a' = ?a" "h' = ?h3" using run by simp_all
    then show ?thesis using True w by (intro exI [of _ 1]) auto
  next
    case False
    then have "startup_loop K A l apicid TRAMPOLINE_ADDR n ?s ?a ?h3 = (s', a', h')" using run by simp
    from Suc.IH [OF this] obtain m where "m \<le> n" "icr_writes h' = icr_writes ?h3 @ replicate m (sipi A apicid)"
      "m < n \<longrightarrow> s' \<noteq> 0 \<or> a' \<noteq> 0" by blast
    then show ?thesis using w by (intro exI [of _ "Suc m"]) auto
  qed
qed

lemma wakeup_prefix: "prefix h (snd (wakeup_secondary_cpu_via_init K A apicid e h))"
proof -
  have esr: "prefix g (snd (read_esr K A l g'))" if "prefix g g'" for g g' l
    using that by (simp add: read_esr_def Let_def prefix_call)
  have loop: "prefix g (snd (snd (startup_loop K A l apicid e n s a g')))" if "prefix g g'" for g g' l n s a
    using that by (induction n arbitrary: s a g') (simp_all add: Let_def prefix_call esr)
  show ?thesis
    by (simp add: wakeup_secondary_cpu_via_init_def Let_def case_prod_unfold prefix_call loop esr)
qed

lemma or_nonneg_31:
  fixes a b :: int
  assumes "0 \<le> a" "a < 2 ^ 31" "0 \<le> b" "b < 2 ^ 31"
  shows "0 \<le> signed_take_bit 31 (a OR b)"
proof -
  have "take_bit 31 (a OR b) = a OR b"
    using assms by (simp only: take_bit_or take_bit_int_eq_self)
  then have "a OR b < 2 ^ 31" by (metis take_bit_int_less_exp)
  moreover have "0 \<le> a OR b" using assms by simp
  ultimately have "\<not> bit (a OR b) 31" by (simp add: bit_iff_odd)
  then show ?thesis by (simp add: signed_take_bit_nonnegative_iff)
qed

text \<open>What the module expects of the local APIC: status words below 2^31.\<close>

definition apic_ok :: "kernel \<Rightarrow> bool" where
  "apic_ok K \<longleftrightarrow> (\<forall>h. 0 \<le> kret (K h Safe_apic_wait_icr_idle) \<and> kret (K h Safe_apic_wait_icr_idle) < 2 ^ 31)"

lemma startup_loop_status:
  assumes "apic_ok K" "0 \<le> s" "s < 2 ^ 31" "0 \<le> a" "a < 2 ^ 31"
    "startup_loop K A l apicid e n s a h = (s', a', h')"
  shows "0 \<le> s' \<and> s' < 2 ^ 31 \<and> 0 \<le> a' \<and> a' < 2 ^ 31"
proof -
  have "x AND 0xEF \<le> 0xEF" for x :: int using AND_upper2 [of "0xEF" x] by simp
  then have e: "0 \<le> x AND 0xEF \<and> x AND 0xEF < 2 ^ 31" for x :: int
    by (simp add: order.strict_trans1)
  show ?thesis
    using assms(2-)
  proof (induction n arbitrary: s a h)
    case (Suc n)
    have ih: "startup_loop K A l apicid e n 0 0 g = (s', a', h') \<Longrightarrow>
        0 \<le> s' \<and> s' < 2 ^ 31 \<and> 0 \<le> a' \<and> a' < 2 ^ 31" for g
      using Suc.IH [of 0 0 g] by simp
    from Suc.prems(5) show ?case
      unfolding startup_loop.simps Let_def
      by (split if_splits) (use assms(1) e in \<open>auto simp: apic_ok_def dest: ih\<close>)
  qed auto
qed

lemma wakeup_ipis:
  assumes "apic_ok K"
  obtains m where "icr_writes (snd (wakeup_secondary_cpu_via_init K A apicid TRAMPOLINE_ADDR h)) =
      icr_writes h @ init_ipis A apicid @ replicate m (sipi A apicid)"
    "m \<in> (if APIC_INTEGRATED A then {1, 2} else {0})"
    "0 \<le> fst (wakeup_secondary_cpu_via_init K A apicid TRAMPOLINE_ADDR h)"
proof -
  let ?l = "GET_APIC_MAXLVT A (kret (K h (Apic_read (APIC_LVR A))))"
  let ?h1 = "kcall K (Apic_read (APIC_LVR A)) h"
  let ?h2 = "if APIC_INTEGRATED A then snd (read_esr K A ?l ?h1) else ?h1"
  let ?i1 = "Apic_icr_write (APIC_INT_LEVELTRIG A OR APIC_INT_ASSERT A OR APIC_DM_INIT A) apicid"
  let ?i2 = "Apic_icr_write (APIC_INT_LEVELTRIG A OR APIC_DM_INIT A) apicid"
  let ?h3 = "kcall K ?i2 (kcall K (Udelay init_udelay) (kcall K Safe_apic_wait_icr_idle (kcall K ?i1 ?h2)))"
  let ?h4 = "kcall K Mb (kcall K Safe_apic_wait_icr_idle ?h3)"
  let ?n = "if APIC_INTEGRATED A then 2 else 0 :: nat"
  obtain s a g where run: "startup_loop K A ?l apicid TRAMPOLINE_ADDR ?n
      (kret (K ?h3 Safe_apic_wait_icr_idle)) 0 ?h4 = (s, a, g)"
    by (rule prod_cases3)
  have w: "icr_writes ?h4 = icr_writes h @ init_ipis A apicid" by (simp add: init_ipis_def)
  have "0 \<le> kret (K ?h3 Safe_apic_wait_icr_idle)" "kret (K ?h3 Safe_apic_wait_icr_idle) < 2 ^ 31"
    using assms unfolding apic_ok_def by blast+
  then have st: "0 \<le> s \<and> s < 2 ^ 31 \<and> 0 \<le> a \<and> a < 2 ^ 31"
    using startup_loop_status [OF assms _ _ _ _ run] by simp
  obtain m where m: "m \<le> ?n" "icr_writes g = icr_writes ?h4 @ replicate m (sipi A apicid)" "0 < ?n \<longrightarrow> 0 < m"
    using startup_loop_ipis [OF run] by (elim exE conjE) (rule that)
  have r: "wakeup_secondary_cpu_via_init K A apicid TRAMPOLINE_ADDR h = (signed_take_bit 31 (s OR a),
      let g = (if s \<noteq> 0 then kcall K (Pr ''APIC never delivered'') g else g) in
      if a \<noteq> 0 then kcall K (Pr ''APIC delivery error'') g else g)"
    unfolding wakeup_secondary_cpu_via_init_def Let_def run prod.case by simp
  show ?thesis
  proof (rule that [of m])
    show "icr_writes (snd (wakeup_secondary_cpu_via_init K A apicid TRAMPOLINE_ADDR h)) =
        icr_writes h @ init_ipis A apicid @ replicate m (sipi A apicid)"
      unfolding r using m(2) w by (simp add: Let_def)
    show "m \<in> (if APIC_INTEGRATED A then {1, 2} else {0})" using m(1,3) by (auto split: if_splits)
    show "0 \<le> fst (wakeup_secondary_cpu_via_init K A apicid TRAMPOLINE_ADDR h)"
      unfolding r fst_conv using st by (intro or_nonneg_31) simp_all
  qed
qed

text \<open>Where a processor begins that receives a STARTUP interrupt: its low byte is a page number.\<close>

definition sipi_start :: "u32 \<times> int \<Rightarrow> u64" where
  "sipi_start ipi = push_bit 12 (ucast (fst ipi AND 0xff))"

lemma start_present_sequence:
  assumes "apic_ok K" "prefix g0 h" "start_present K A i h = (r, h')"
  shows "prefix h h' \<and> (r = - 1 \<and> icr_writes h' = icr_writes h \<or>
    r = 0 \<and> i \<noteq> 0 \<and> made g0 h' (Cpu_present i) (\<lambda>v. v \<noteq> 0) \<and>
    (made g0 h' (Cpu_online i) (\<lambda>v. v = 0) \<or> made g0 h' (Cpu_down i) (\<lambda>v. v \<ge> 0)) \<and>
    (\<exists>apicid m. apicid \<noteq> 0 \<and> made g0 h' (Cpu_present_to_apicid i) (\<lambda>v. v = apicid) \<and>
      m \<in> (if APIC_INTEGRATED A then {1, 2} else {0}) \<and>
      icr_writes h' = icr_writes h @ init_ipis A apicid @ replicate m (sipi A apicid)))"
proof -
  define h1 where "h1 = kcall K (Cpu_present i) h"
  define h2 where "h2 = kcall K (Cpu_online i) h1"
  define online where "online = kret (K h1 (Cpu_online i))"
  define h3 where "h3 = (if online \<noteq> 0 then kcall K (Cpu_down i) h2 else h2)"
  define h4 where "h4 = kcall K (Cpu_present_to_apicid i) h3"
  define apicid where "apicid = kret (K h3 (Cpu_present_to_apicid i))"
  define w where "w = wakeup_secondary_cpu_via_init K A apicid TRAMPOLINE_ADDR h4"
  obtain m where m: "icr_writes (snd w) = icr_writes h4 @ init_ipis A apicid @ replicate m (sipi A apicid)"
    "m \<in> (if APIC_INTEGRATED A then {1, 2} else {0})" "0 \<le> fst w"
    unfolding w_def by (rule wakeup_ipis [OF assms(1)])
  have p: "prefix g0 h1" "prefix g0 h2" "prefix g0 h3" "prefix g0 h4" "prefix h4 (snd w)"
    "prefix h h1" "prefix h h3" "prefix h h4"
    using assms(2) wakeup_prefix by (auto simp: h1_def h2_def h3_def h4_def w_def prefix_call)
  have q: "icr_writes h1 = icr_writes h" "icr_writes h3 = icr_writes h" "icr_writes h4 = icr_writes h"
    by (simp_all add: h1_def h2_def h3_def h4_def)
  have run: "start_present K A i h = (if kret (K h (Cpu_present i)) = 0 then (- 1, h1)
      else if online \<noteq> 0 \<and> kret (K h2 (Cpu_down i)) < 0 then (- 1, h3)
      else if i = 0 \<or> apicid = 0 then (- 1, h4) else (0, snd w))"
    unfolding start_present_def Let_def case_prod_unfold h1_def [symmetric] online_def [symmetric]
      h2_def [symmetric] h3_def [symmetric] h4_def [symmetric] apicid_def [symmetric] w_def [symmetric]
    using m(3) by simp
  consider "r = - 1" "h' \<in> {h1, h3, h4}"
    | "r = 0" "h' = snd w" "kret (K h (Cpu_present i)) \<noteq> 0" "i \<noteq> 0" "apicid \<noteq> 0"
      "online = 0 \<or> kret (K h2 (Cpu_down i)) \<ge> 0"
    using assms(3) unfolding run by (auto split: if_splits)
  then show ?thesis
  proof cases
    case 1
    then show ?thesis using p q by auto
  next
    case 2
    have "made g0 h4 (Cpu_present i) (\<lambda>v. v \<noteq> 0)" "made g0 h4 (Cpu_present_to_apicid i) (\<lambda>v. v = apicid)"
      "made g0 h4 (Cpu_online i) (\<lambda>v. v = 0) \<or> made g0 h4 (Cpu_down i) (\<lambda>v. v \<ge> 0)"
      using 2 p assms(2) by (auto simp: h4_def h3_def h2_def h1_def made_call online_def apicid_def)
    then have "made g0 h' (Cpu_present i) (\<lambda>v. v \<noteq> 0)" "made g0 h' (Cpu_present_to_apicid i) (\<lambda>v. v = apicid)"
      "made g0 h' (Cpu_online i) (\<lambda>v. v = 0) \<or> made g0 h' (Cpu_down i) (\<lambda>v. v \<ge> 0)"
      using made_mono [OF p(4,5)] 2(2) by blast+
    moreover have "prefix h h'" using p 2(2) by (blast intro: prefix_order.trans)
    ultimately show ?thesis using 2 m(1,2) q(3) by metis
  qed
qed

text \<open>
  C20: cpu_start sends interrupts only to a processor that is present, is not running Linux (it was
  offline or has been taken down by this call), and is not the boot processor, neither by its
  number nor by its APIC id. It then sends INIT asserted, INIT deasserted, and on an integrated
  APIC one or two STARTUP interrupts, all to that processor's APIC id and with the trampoline as
  the start address, and returns 0, whatever the delivery status was. In every other case it
  returns -1 and no interrupt has been sent. Preemption is enabled again on every path.\<close>

theorem cpu_start_sequence:
  assumes "apic_ok K" "APIC_DM_STARTUP A AND 0xff = 0" "cpu_start K A i h = (r, h')"
  shows "made h h' Preempt_disable (\<lambda>_. True) \<and> fst (last h') = Preempt_enable \<and>
   (r = - 1 \<and> icr_writes h' = icr_writes h \<or>
    r = 0 \<and> i \<noteq> 0 \<and> made h h' (Cpu_present i) (\<lambda>v. v \<noteq> 0) \<and>
    (made h h' (Cpu_online i) (\<lambda>v. v = 0) \<or> made h h' (Cpu_down i) (\<lambda>v. v \<ge> 0)) \<and>
    (\<exists>apicid m. apicid \<noteq> 0 \<and> made h h' (Cpu_present_to_apicid i) (\<lambda>v. v = apicid) \<and>
      m \<in> (if APIC_INTEGRATED A then {1, 2} else {0}) \<and>
      icr_writes h' = icr_writes h @ init_ipis A apicid @ replicate m (sipi A apicid) \<and>
      sipi_start (sipi A apicid) = TRAMPOLINE_ADDR))"
proof -
  let ?h1 = "kcall K Get_uv_system_type h"
  define h2 where "h2 = kcall K Preempt_disable (if kret (K h Get_uv_system_type) \<noteq> UV_NON_UNIQUE_APIC A
    then smpboot_setup_warm_reset_vector K A TRAMPOLINE_ADDR ?h1 else ?h1)"
  have h2: "prefix h h2" "made h h2 Preempt_disable (\<lambda>_. True)" "icr_writes h2 = icr_writes h"
    by (simp_all add: h2_def smpboot_setup_warm_reset_vector_def Let_def prefix_call made_call)
  obtain h3 where h3: "start_present K A i h2 = (r, h3)" "h' = kcall K Preempt_enable h3"
    using assms(3) unfolding cpu_start_def Let_def case_prod_unfold h2_def [symmetric]
    by (metis prod.collapse prod.inject)
  note seq = start_present_sequence [OF assms(1) h2(1) h3(1)]
  have "prefix h2 h3" using seq by blast
  with h2(1) have p: "prefix h h3" "prefix h2 h3" "icr_writes h' = icr_writes h3"
    by (auto simp: h3(2) intro: prefix_order.trans)
  have last: "fst (last h') = Preempt_enable" by (simp add: h3(2) kcall_append)
  have m: "made h h' c P \<longleftrightarrow> made h h3 c P" if "c \<noteq> Preempt_enable" for c P
    using that p(1) by (simp add: h3(2) made_call)
  have "sipi_start (sipi A apicid) = TRAMPOLINE_ADDR" for apicid
    using assms(2) by (simp add: sipi_start_def sipi_def bit.conj_disj_distrib2 TRAMPOLINE_ADDR_def)
  moreover have "made h h3 Preempt_disable (\<lambda>_. True)" using made_mono [OF h2(1) p(2) h2(2)] .
  ultimately show ?thesis using seq p(3) last h2(3) by (simp add: m)
qed

definition demo_apic :: apic_header where
  "demo_apic = \<lparr>APIC_LVR = 0x30, APIC_ESR = 0x280, APIC_INT_LEVELTRIG = 0x8000, APIC_INT_ASSERT = 0x4000,
     APIC_DM_INIT = 0x500, APIC_DM_STARTUP = 0x600, GET_APIC_MAXLVT = (\<lambda>v. v div 0x10000 mod 256),
     APIC_INTEGRATED = True, TRAMPOLINE_PHYS_HIGH = 0x469, TRAMPOLINE_PHYS_LOW = 0x467, UV_NON_UNIQUE_APIC = 3\<rparr>"

definition apic_kernel :: kernel where
  "apic_kernel h c = \<lparr>kret = (case c of Cpu_present _ \<Rightarrow> 1 | Cpu_present_to_apicid i \<Rightarrow> 2 * i | _ \<Rightarrow> 0),
     kdev = MKDEV 0 0, kobj = Kptr 0, kcpus = [0, 1, 2, 3]\<rparr>"

lemma apic_kernel_ok: "apic_ok apic_kernel"
  by (simp add: apic_ok_def apic_kernel_def)

theorem cpu_start_sequence_witness:
  "\<exists>h'. cpu_start apic_kernel demo_apic 3 [] = (0, h') \<and> fst (last h') = Preempt_enable \<and>
     icr_writes h' = [(0xc500, 6), (0x8500, 6), (0x670, 6), (0x670, 6)] \<and>
     sipi_start (0x670, 6) = TRAMPOLINE_ADDR"
proof -
  let ?r = "cpu_start apic_kernel demo_apic 3 []"
  have two: "startup_loop K A l i e 2 s a h = startup_loop K A l i e (Suc (Suc 0)) s a h" for K A l i e s a h
    by (simp only: numeral_2_eq_2)
  have v: "icr_writes (snd ?r) = [(0xc500, 6), (0x8500, 6), (0x670, 6), (0x670, 6)]" "fst ?r = 0"
    by (simp_all add: cpu_start_def start_present_def wakeup_secondary_cpu_via_init_def Let_def two
        read_esr_def init_udelay_def smpboot_setup_warm_reset_vector_def apic_kernel_def demo_apic_def
        TRAMPOLINE_ADDR_def icr_writes_def kcall_append)
  have "APIC_DM_STARTUP demo_apic AND 0xff = 0" by (simp add: demo_apic_def)
  from cpu_start_sequence [OF apic_kernel_ok this, of 3 "[]" 0 "snd ?r"] v
  have "fst (last (snd ?r)) = Preempt_enable"
    "\<exists>a m. icr_writes (snd ?r) = init_ipis demo_apic a @ replicate m (sipi demo_apic a) \<and> m \<in> {1, 2 :: nat} \<and>
      sipi_start (sipi demo_apic a) = TRAMPOLINE_ADDR"
    by (auto simp: prod_eq_iff icr_writes_def demo_apic_def)
  moreover have "sipi demo_apic 6 = (0x670, 6)" by (simp add: sipi_def demo_apic_def)
  ultimately show ?thesis using v
    by (intro exI [of _ "snd ?r"]) (auto simp: prod_eq_iff init_ipis_def sipi_start_def sipi_def demo_apic_def)
qed

section \<open>Taking processors from Linux\<close>

text \<open>The processors a history took down, with the kernel's answers.\<close>

definition downs :: "khistory \<Rightarrow> (int \<times> int) list" where
  "downs h = concat (map (\<lambda>(c, a). case c of Cpu_down i \<Rightarrow> [(i, kret a)] | _ \<Rightarrow> []) h)"

lemma downs_call [simp]:
  "downs (kcall K c h) = downs h @ (case c of Cpu_down i \<Rightarrow> [(i, kret (K h c))] | _ \<Rightarrow> [])"
  by (simp add: downs_def kcall_append)

lemma down_cpus_run:
  assumes "down_cpus K l f r h = (f', r', h')"
  shows "\<exists>as. downs h' = downs h @ zip (filter (\<lambda>c. c > 0) l) as \<and> length as = length (filter (\<lambda>c. c > 0) l) \<and>
    (f' \<longleftrightarrow> f \<or> filter (\<lambda>c. c > 0) l \<noteq> []) \<and> r' = (if \<exists>a \<in> set as. a < 0 then - 1 else r)"
  using assms
proof (induction l arbitrary: f r h)
  case Nil
  then show ?case by simp
next
  case (Cons c l)
  show ?case
  proof (cases "c > 0")
    case True
    let ?a = "kret (K h (Cpu_down c))"
    from Cons.prems True have "down_cpus K l True (if ?a < 0 then - 1 else r) (kcall K (Cpu_down c) h) = (f', r', h')"
      by simp
    from Cons.IH [OF this] obtain as where
      "downs h' = downs (kcall K (Cpu_down c) h) @ zip (filter (\<lambda>c. c > 0) l) as"
      "length as = length (filter (\<lambda>c. c > 0) l)" "f'"
      "r' = (if \<exists>a \<in> set as. a < 0 then - 1 else if ?a < 0 then - 1 else r)" by auto
    then show ?thesis using True by (intro exI [of _ "?a # as"]) auto
  next
    case False
    then show ?thesis using Cons by simp
  qed
qed

text \<open>
  The processors that are recorded: online, not 0, and hot-pluggable; \<open>hp\<close> says which are, and
  does not change while the list is built.
\<close>

lemma collect_cpus_run:
  assumes "\<And>h c. (kret (K h (Cpu_is_hotpluggable c)) \<noteq> 0) = hp c"
    "i + length (filter (\<lambda>c. c \<noteq> 0 \<and> hp c) cpus) \<le> length l"
  shows "\<exists>h'. collect_cpus K cpus i l h =
      Some (take i l @ filter (\<lambda>c. c \<noteq> 0 \<and> hp c) cpus @ drop (i + length (filter (\<lambda>c. c \<noteq> 0 \<and> hp c) cpus)) l, h') \<and>
    downs h' = downs h"
  using assms(2)
proof (induction cpus arbitrary: i l h)
  case Nil
  then show ?case by simp
next
  case (Cons c cs)
  let ?h = "kcall K (Cpu_is_hotpluggable c) h"
  consider "c = 0" | "c \<noteq> 0" "\<not> hp c" | "c \<noteq> 0" "hp c" by blast
  then show ?case
  proof cases
    case 1 then show ?thesis using Cons by simp
  next
    case 2 then show ?thesis using Cons.IH [of i l ?h] Cons.prems assms(1) [of h c] by (auto simp: Let_def)
  next
    case 3
    then have "i < length l" using Cons.prems by simp
    moreover have "take (Suc i) (l[i := c]) = take i l @ [c]"
      using \<open>i < length l\<close> by (simp add: take_Suc_conv_app_nth)
    ultimately show ?thesis
      using 3 Cons.IH [of "Suc i" "l[i := c]" ?h] Cons.prems assms(1) [of h c] by (auto simp: Let_def)
  qed
qed

text \<open>
  C25: The first cpu_unplug takes exactly the online hot-pluggable processors other than processor 0
  from Linux, each once and in the order of the online mask, and records them; the record never
  overflows its allocation because no more processors are online than are possible. The result is
  0 when there was one and the kernel took them all down, and -1 otherwise; get_cpu_num then
  counts the recorded processors.\<close>

theorem cpu_unplug_first:
  assumes "\<And>h c. (kret (K h (Cpu_is_hotpluggable c)) \<noteq> 0) = hp c"
    "\<And>h. kcpus (K h Online_cpus) = online" "length online \<le> n" "\<forall>c \<in> set online. 0 \<le> c"
    "unpluged_cpu_list s = None" "kobj (K (khist s) (Kmalloc (4 * n))) \<noteq> NULL"
  defines "taken \<equiv> filter (\<lambda>c. c \<noteq> 0 \<and> hp c) online"
  shows "\<exists>r s' as. cpu_unplug K n s = Some (r, s') \<and>
    downs (khist s') = downs (khist s) @ zip taken as \<and> length as = length taken \<and>
    r = (if taken \<noteq> [] \<and> (\<forall>a \<in> set as. 0 \<le> a) then 0 else - 1) \<and>
    get_cpu_num s' = int (length taken)"
proof -
  define h1 where "h1 = kcall K Online_cpus (kcall K Get_online_cpus (kcall K (Kmalloc (4 * n)) (khist s)))"
  have d1: "downs h1 = downs (khist s)" by (simp add: h1_def)
  let ?l = "taken @ replicate (n - length taken) (- 1)"
  have "length taken \<le> n" using assms(3) length_filter_le [of _ online] unfolding taken_def by (rule le_trans [rotated])
  then obtain h2 where h2: "collect_cpus K online 0 (replicate n (- 1)) h1 = Some (?l, h2)" "downs h2 = downs (khist s)"
    using collect_cpus_run [of K hp, OF assms(1), of 0 online "replicate n (- 1)" h1] d1
    by (auto simp: taken_def)
  have pos: "filter (\<lambda>c. c > 0) ?l = taken"
    using assms(4) by (auto simp: taken_def intro!: filter_cong)
  obtain f r h3 where run: "down_cpus K ?l False 0 (kcall K Put_online_cpus h2) = (f, r, h3)"
    by (rule prod_cases3)
  then obtain as where as: "downs h3 = downs h2 @ zip taken as" "length as = length taken"
    "f \<longleftrightarrow> taken \<noteq> []" "r = (if \<exists>a \<in> set as. a < 0 then - 1 else 0)"
    using down_cpus_run [OF run] unfolding pos by auto
  have r: "r = (if \<forall>a \<in> set as. 0 \<le> a then 0 else - 1)" using as(4) by (force simp: not_le)
  let ?s = "\<lambda>h. s\<lparr>khist := h, unpluged_cpu_list := Some ?l\<rparr>"
  have res: "cpu_unplug K n s = Some (if f then (r, ?s h3) else (- 1, ?s (kcall K (Pr ''no unplugable cpu'') h3)))"
    using assms(5,6) h2(1) run
    by (simp add: cpu_unplug_def unplug_recorded_def Let_def kdo_def assms(2) h1_def [symmetric])
  show ?thesis
  proof (cases f)
    case True
    then show ?thesis using res as(1-3) r h2(2) pos
      by (intro exI [of _ r] exI [of _ "?s h3"] exI [of _ as]) (simp_all add: get_cpu_num_def)
  next
    case False
    then show ?thesis using res as h2(2) pos
      by (intro exI [of _ "- 1"] exI [of _ "?s (kcall K (Pr ''no unplugable cpu'') h3)"] exI [of _ as])
        (auto simp: get_cpu_num_def)
  qed
qed

definition demo_module :: friend_loader where
  "demo_module = \<lparr>memdevice_dev = MKDEV 0 0, memdevice_class = NULL, bootmemdevice_dev = MKDEV 0 0,
     bootmemdevice_class = NULL, minor_num = 0, cpudevice_major = 0, cpudevice_class = NULL,
     call_sysfs_kobj = NULL, unpluged_cpu_list = None, khist = []\<rparr>"

definition hotplug_kernel :: kernel where
  "hotplug_kernel h c = \<lparr>kret = (case c of Cpu_is_hotpluggable i \<Rightarrow> (if i = 2 then 0 else 1) | _ \<Rightarrow> 0),
     kdev = MKDEV 0 0, kobj = Kptr 0, kcpus = [0, 1, 2, 3]\<rparr>"

theorem cpu_unplug_first_witness:
  "\<exists>s' as. cpu_unplug hotplug_kernel 4 demo_module = Some (0, s') \<and> downs (khist s') = zip [1, 3] as \<and>
     length as = 2 \<and> get_cpu_num s' = 2"
proof -
  have run: "\<exists>s'. cpu_unplug hotplug_kernel 4 demo_module = Some (0, s')"
    by (simp add: cpu_unplug_def unplug_recorded_def Let_def kdo_def demo_module_def hotplug_kernel_def
        numeral_eq_Suc)
  have t: "filter (\<lambda>c. c \<noteq> 0 \<and> c \<noteq> 2) [0, 1, 2, 3 :: int] = [1, 3]" by simp
  have "\<exists>r s' as. cpu_unplug hotplug_kernel 4 demo_module = Some (r, s') \<and>
    downs (khist s') = downs (khist demo_module) @ zip [1, 3] as \<and> length as = length [1, 3 :: int] \<and>
    r = (if [1, 3 :: int] \<noteq> [] \<and> (\<forall>a \<in> set as. 0 \<le> a) then 0 else - 1) \<and>
    get_cpu_num s' = int (length [1, 3 :: int])"
    by (rule cpu_unplug_first [of hotplug_kernel "\<lambda>c. c \<noteq> 2" "[0, 1, 2, 3]" 4 demo_module, unfolded t])
      (simp_all add: hotplug_kernel_def demo_module_def)
  moreover have "downs (khist demo_module) = []" by (simp add: downs_def demo_module_def)
  ultimately show ?thesis using run by (auto simp: numeral_2_eq_2)
qed

end
