(* ===== verification/Decimal.thy ===== *)
theory Decimal
  imports Toshokan_Prelude
begin

text \<open>The decimal numeral that \<^verbatim>\<open>%d\<close> prints for a number that is not negative.\<close>

fun dec :: "nat \<Rightarrow> string" where
  "dec n = (if n < 10 then [char_of (48 + n)] else dec (n div 10) @ [char_of (48 + n mod 10)])"

declare dec.simps [simp del]

lemma dec_length: "0 < k \<Longrightarrow> n < 10 ^ k \<longleftrightarrow> length (dec n) \<le> k"
proof (induction n arbitrary: k rule: dec.induct)
  case (1 n)
  show ?case
  proof (cases "n < 10")
    case True
    then have "n < 10 ^ k" using 1(2) power_increasing [of 1 k "10::nat"] by simp
    then show ?thesis using True 1(2) by (simp add: dec.simps)
  next
    case False
    show ?thesis
    proof (cases "k = 1")
      case True
      then show ?thesis using False
        by (subst dec.simps) (simp, subst dec.simps, simp)
    next
      case k: False
      then obtain j where j: "k = Suc j" "0 < j" using 1(2) by (cases k) auto
      have "n < 10 ^ k \<longleftrightarrow> n div 10 < 10 ^ j" using j by (simp add: div_less_iff_less_mult mult.commute)
      then show ?thesis using 1(1) [OF False j(2)] False j by (subst dec.simps) simp
    qed
  qed
qed

fun undec :: "string \<Rightarrow> nat" where
  "undec s = foldl (\<lambda>v c. 10 * v + (of_char c - 48)) 0 s"

lemma undec_dec: "undec (dec n) = n"
proof (induction n rule: dec.induct)
  case (1 n)
  then show ?case by (subst dec.simps) (simp add: of_char_of)
qed

lemma dec_inject: "dec m = dec n \<longleftrightarrow> m = n"
  by (metis undec_dec)

end
