(* ===== verification/Friend_Loader.thy ===== *)
theory Friend_Loader
  imports Mem_Device Cpu_Hotplug Decimal
begin

text \<open>
  The rest of the kernel module: the processor devices of \<^verbatim>\<open>src/FriendLoader/cpudevice.c\<close>, the
  version file of \<^verbatim>\<open>version.c\<close>, and loading and unloading in \<^verbatim>\<open>main.c\<close>.
\<close>

section \<open>cpudevice.c\<close>

definition MINOR_BASE :: nat where "MINOR_BASE = 0"

definition cpuid_of :: "nat \<Rightarrow> int" where
  "cpuid_of iminor = int iminor - int MINOR_BASE + 1"

definition cpudevice_open :: "kernel \<Rightarrow> apic_header \<Rightarrow> nat \<Rightarrow> khistory \<Rightarrow> int \<times> khistory" where
  "cpudevice_open K A iminor h = (
     let (r, h) = cpu_start K A (cpuid_of iminor) h in
     if r = 0 then (0, kcall K (Pr ''starting processor core'') h)
     else (0, kcall K (Pr ''failed starting processor core'') h))"

definition cpudevice_close :: "kernel \<Rightarrow> nat \<Rightarrow> khistory \<Rightarrow> int \<times> khistory" where
  "cpudevice_close K iminor h = (
     let (r, h) = cpu_replug K (cpuid_of iminor) h in
     if r = 0 then (0, kcall K (Pr ''stopped processor core'') h)
     else (0, kcall K (Pr ''failed to stop processor core'') h))"

definition friend_cpu_name :: "nat \<Rightarrow> string" where
  "friend_cpu_name minor = ''friend_cpu'' @ dec (minor - MINOR_BASE + 1)"

definition create_cpu_devices :: "kernel \<Rightarrow> nat list \<Rightarrow> friend_loader \<Rightarrow> friend_loader" where
  "create_cpu_devices K minors s = fold (\<lambda>minor s.
     kdo K (Device_create (cpudevice_class s) (MKDEV (cpudevice_major s) minor) (friend_cpu_name minor)) s) minors s"

definition cpudevice_init :: "kernel \<Rightarrow> nat \<Rightarrow> friend_loader \<Rightarrow> int \<times> friend_loader" where
  "cpudevice_init K n s = (
     let s = s\<lparr>minor_num := n - 1\<rparr> in
     if minor_num s = 0 then (- EIO, s)
     else let c = Alloc_chrdev_region MINOR_BASE (minor_num s); a = K (khist s) c; s = kdo K c s in
     if kret a \<noteq> 0 then (- ENXIO, kdo K (Pr ''failed to alloc_chrdev_region'') s)
     else let s = s\<lparr>cpudevice_major := MAJOR (kdev a)\<rparr>;
              dev = MKDEV (cpudevice_major s) MINOR_BASE;
              s = kdo K (Cdev_init cpudevice_cdev s_cpudevice_fops) s;
              r = kret (K (khist s) (Cdev_add cpudevice_cdev dev (minor_num s)));
              s = kdo K (Cdev_add cpudevice_cdev dev (minor_num s)) s in
     if r \<noteq> 0 then
       (- ENXIO, kdo K (Unregister_chrdev_region dev (minor_num s)) (kdo K (Pr ''failed to cdev_add'') s))
     else let cls = kobj (K (khist s) (Class_create ''friend_cpu''));
              s = (kdo K (Class_create ''friend_cpu'') s)\<lparr>cpudevice_class := cls\<rparr> in
     if IS_ERR cls then
       (- ENXIO, kdo K (Unregister_chrdev_region dev (minor_num s))
          (kdo K (Cdev_del cpudevice_cdev) (kdo K (Pr ''failed to class_create'') s)))
     else (0, create_cpu_devices K [MINOR_BASE..<MINOR_BASE + minor_num s] s))"

definition cpudevice_exit :: "kernel \<Rightarrow> friend_loader \<Rightarrow> friend_loader" where
  "cpudevice_exit K s = (
     let s = fold (\<lambda>minor s. kdo K (Device_destroy (cpudevice_class s) (MKDEV (cpudevice_major s) minor)) s)
               [MINOR_BASE..<MINOR_BASE + minor_num s] s;
         s = kdo K (Class_destroy (cpudevice_class s)) s;
         s = kdo K (Cdev_del cpudevice_cdev) s in
     kdo K (Unregister_chrdev_region (MKDEV (cpudevice_major s) MINOR_BASE) (minor_num s)) s)"

section \<open>version.c\<close>

text \<open>\<^verbatim>\<open>kmod_version_string\<close> of \<^verbatim>\<open>src/common/version.h\<close>, without the final NUL.\<close>

definition kmod_version_string :: string where
  "kmod_version_string = ''v0.05''"

definition version_bytes :: string where
  "version_bytes = kmod_version_string @ [CHR 0x00]"

text \<open>Copying past the end of the array is a fault.\<close>

definition call_read :: "nat \<Rightarrow> nat \<Rightarrow> string option" where
  "call_read off cnt = (if off + cnt \<le> length version_bytes
     then Some (take cnt (drop off version_bytes)) else None)"

definition version_interface_init :: "kernel \<Rightarrow> friend_loader \<Rightarrow> int \<times> friend_loader" where
  "version_interface_init K s = (
     let p = kobj (K (khist s) (Kobject_create_and_add ''info''));
         s = (kdo K (Kobject_create_and_add ''info'') s)\<lparr>call_sysfs_kobj := p\<rparr> in
     if p = NULL then (- 1, kdo K (Pr ''kobject_create_and_add failed'') s)
     else let ret = kret (K (khist s) (Sysfs_create_group p)); s = kdo K (Sysfs_create_group p) s in
     if ret \<noteq> 0 then (- 1, kdo K (Pr ''sysfs_create_group failed'') (kdo K (Kobject_put p) s))
     else (0, s))"

definition version_interface_exit :: "kernel \<Rightarrow> friend_loader \<Rightarrow> friend_loader" where
  "version_interface_exit K s = kdo K (Kobject_put (call_sysfs_kobj s)) s"

section \<open>main.c\<close>

definition friend_loader_init :: "kernel \<Rightarrow> nat \<Rightarrow> friend_loader \<Rightarrow> int \<times> friend_loader" where
  "friend_loader_init K n s = (
     let s = kdo K (Pr ''init'') s;
         (r, s) = memdevice_init K s in
     if r < 0 then (- EIO, kdo K (Pr ''failed to init call interface'') s)
     else let (r, s) = cpudevice_init K n s in
     if r < 0 then (r, s)
     else let (r, s) = version_interface_init K s in
     if r < 0 then (- EIO, kdo K (Pr ''failed to init version interface'') s)
     else (0, s))"

definition friend_loader_exit :: "kernel \<Rightarrow> friend_loader \<Rightarrow> friend_loader" where
  "friend_loader_exit K s = (
     let s = version_interface_exit K s;
         s = cpudevice_exit K s;
         s = memdevice_exit K s in
     kdo K (Pr ''exit'') s)"

section \<open>Resources of the processor devices\<close>

definition cpu_devices :: "friend_loader \<Rightarrow> nat list \<Rightarrow> resource multiset" where
  "cpu_devices s minors = mset (map (\<lambda>i. Device (cpudevice_class s) (MKDEV (cpudevice_major s) i)) minors)"

definition cpudevice_resources :: "friend_loader \<Rightarrow> resource multiset" where
  "cpudevice_resources s = {#Chrdev_region (MKDEV (cpudevice_major s) 0) (minor_num s), Cdev cpudevice_cdev,
     Class (cpudevice_class s)#} + cpu_devices s [0..<minor_num s]"

lemma create_cpu_devices_held:
  assumes "never_fails K"
  shows "\<exists>h. create_cpu_devices K minors s = s\<lparr>khist := h\<rparr> \<and> held h = held (khist s) + cpu_devices s minors"
proof (induction minors arbitrary: s)
  case Nil
  show ?case by (intro exI [of _ "khist s"]) (simp add: create_cpu_devices_def cpu_devices_def)
next
  case (Cons i minors)
  let ?c = "Device_create (cpudevice_class s) (MKDEV (cpudevice_major s) i) (friend_cpu_name i)"
  have "valid_ptr (kobj (K (khist s) ?c))" using never_failsD [OF assms, of ?c] by simp
  then have "held (khist (kdo K ?c s)) = held (khist s) + cpu_devices s [i]"
    by (simp add: kdo_def cpu_devices_def)
  then show ?case using Cons.IH [of "kdo K ?c s"]
    by (auto simp: create_cpu_devices_def cpu_devices_def kdo_def)
qed

lemma destroy_cpu_devices_held:
  "\<exists>h. fold (\<lambda>minor s. kdo K (Device_destroy (cpudevice_class s) (MKDEV (cpudevice_major s) minor)) s) minors s =
      s\<lparr>khist := h\<rparr> \<and> held h = held (khist s) - cpu_devices s minors"
proof (induction minors arbitrary: s)
  case Nil
  show ?case by (intro exI [of _ "khist s"]) (simp add: cpu_devices_def)
next
  case (Cons i minors)
  show ?case
    using Cons.IH [of "kdo K (Device_destroy (cpudevice_class s) (MKDEV (cpudevice_major s) i)) s"]
    by (auto simp: cpu_devices_def kdo_def)
qed

lemma cpudevice_exit_held:
  "held (khist (cpudevice_exit K s)) = held (khist s) - cpudevice_resources s"
    "cpudevice_exit K s = s\<lparr>khist := khist (cpudevice_exit K s)\<rparr>"
proof -
  obtain h where "fold (\<lambda>minor s. kdo K (Device_destroy (cpudevice_class s) (MKDEV (cpudevice_major s) minor)) s)
      [0..<minor_num s] s = s\<lparr>khist := h\<rparr>" "held h = held (khist s) - cpu_devices s [0..<minor_num s]"
    using destroy_cpu_devices_held by blast
  then show "held (khist (cpudevice_exit K s)) = held (khist s) - cpudevice_resources s"
    "cpudevice_exit K s = s\<lparr>khist := khist (cpudevice_exit K s)\<rparr>"
    by (simp_all add: cpudevice_exit_def MINOR_BASE_def Let_def kdo_def cpudevice_resources_def multiset_eq_iff)
qed

lemma cpudevice_init_held:
  assumes "never_fails K" "2 \<le> n"
  shows "\<exists>s'. cpudevice_init K n s = (0, s') \<and> held (khist s') = held (khist s) + cpudevice_resources s' \<and>
    memdevice_resources s' = memdevice_resources s"
proof -
  note ok = never_failsD [OF assms(1)]
  let ?n = "n - 1"
  let ?A = "Alloc_chrdev_region 0 ?n"
  let ?M = "MAJOR (kdev (K (khist s) ?A))"
  let ?h1 = "kcall K (Cdev_init cpudevice_cdev s_cpudevice_fops) (kcall K ?A (khist s))"
  let ?D = "Cdev_add cpudevice_cdev (MKDEV ?M 0) ?n" and ?C = "Class_create ''friend_cpu''"
  let ?h2 = "kcall K ?D ?h1"
  let ?s = "s\<lparr>minor_num := ?n, cpudevice_major := ?M, khist := kcall K ?C ?h2, cpudevice_class := kobj (K ?h2 ?C)\<rparr>"
  have a: "kret (K (khist s) ?A) = 0" "MKDEV ?M 0 = kdev (K (khist s) ?A)" "kret (K ?h1 ?D) = 0"
    "valid_ptr (kobj (K ?h2 ?C))"
    using ok [of ?A "khist s"] ok [of ?D ?h1] ok [of ?C ?h2] by (simp_all add: dev_t.expand)
  then have he: "held (khist ?s) = held (khist s) + {#Chrdev_region (MKDEV ?M 0) ?n, Cdev cpudevice_cdev,
      Class (kobj (K ?h2 ?C))#}"
    by simp
  obtain h where h: "create_cpu_devices K [0..<?n] ?s = ?s\<lparr>khist := h\<rparr>"
    "held h = held (khist ?s) + cpu_devices ?s [0..<?n]"
    using create_cpu_devices_held [OF assms(1)] by blast
  have "cpudevice_init K n s = (0, create_cpu_devices K [0..<?n] ?s)"
    using a assms(2) valid_not_err [OF a(4)]
    by (simp add: cpudevice_init_def Let_def MINOR_BASE_def kdo_def)
  moreover have "held h = held (khist s) + cpudevice_resources (?s\<lparr>khist := h\<rparr>)"
    unfolding h(2) he by (simp add: cpudevice_resources_def cpu_devices_def)
  ultimately show ?thesis using h(1) by (intro exI [of _ "?s\<lparr>khist := h\<rparr>"]) (simp add: memdevice_resources_def)
qed

lemma version_interface_init_held:
  assumes "never_fails K"
  shows "\<exists>h p. version_interface_init K s = (0, s\<lparr>call_sysfs_kobj := p, khist := h\<rparr>) \<and>
    held h = held (khist s) + {#Kobject p#}"
proof -
  let ?c = "Kobject_create_and_add ''info''"
  let ?p = "kobj (K (khist s) ?c)"
  have "valid_ptr ?p" "kret (K (kcall K ?c (khist s)) (Sysfs_create_group ?p)) = 0"
    using never_failsD [OF assms, of ?c] never_failsD [OF assms, of "Sysfs_create_group ?p"] by simp_all
  then show ?thesis using valid_not_err [of ?p]
    by (intro exI [of _ "kcall K (Sysfs_create_group ?p) (kcall K ?c (khist s))"] exI [of _ ?p])
      (simp add: version_interface_init_def Let_def kdo_def)
qed

text \<open>
  C23: When no kernel call fails and there is a second processor, loading the module returns 0 and
  leaves it with exactly the two memory devices, the processor devices (one per possible processor
  but the first) and the version directory; unloading gives every one of them back.\<close>

theorem load_unload:
  assumes "never_fails K" "2 \<le> n" "held (khist s) = {#}"
  shows "\<exists>s'. friend_loader_init K n s = (0, s') \<and>
    held (khist s') = memdevice_resources s' + cpudevice_resources s' + {#Kobject (call_sysfs_kobj s')#} \<and>
    held (khist (friend_loader_exit K s')) = {#}"
proof -
  let ?s0 = "kdo K (Pr ''init'') s"
  define s1 where "s1 = snd (memdevice_init K ?s0)"
  have 1: "memdevice_init K ?s0 = (0, s1)" "held (khist s1) = memdevice_resources s1"
    using memdevice_init_held [OF assms(1), of ?s0] assms(3) by (simp_all add: s1_def prod_eq_iff kdo_def)
  obtain s2 where 2: "cpudevice_init K n s1 = (0, s2)"
    "held (khist s2) = memdevice_resources s2 + cpudevice_resources s2"
    using cpudevice_init_held [OF assms(1,2), of s1] 1(2) by auto
  obtain h p where 3: "version_interface_init K s2 = (0, s2\<lparr>call_sysfs_kobj := p, khist := h\<rparr>)"
    "held h = held (khist s2) + {#Kobject p#}"
    using version_interface_init_held [OF assms(1)] by blast
  let ?s3 = "s2\<lparr>call_sysfs_kobj := p, khist := h\<rparr>"
  have same: "memdevice_resources ?s3 = memdevice_resources s2" "cpudevice_resources ?s3 = cpudevice_resources s2"
    by (simp_all add: memdevice_resources_def cpudevice_resources_def cpu_devices_def)
  have run: "friend_loader_init K n s = (0, ?s3)"
    by (simp add: friend_loader_init_def Let_def 1(1) 2(1) 3(1))
  have he: "held (khist ?s3) = memdevice_resources ?s3 + cpudevice_resources ?s3 + {#Kobject p#}"
    using 2(2) 3(2) same by simp
  let ?t = "version_interface_exit K ?s3"
  have t: "held (khist ?t) = memdevice_resources ?t + cpudevice_resources ?t"
    using he by (simp add: version_interface_exit_def kdo_def memdevice_resources_def cpudevice_resources_def
        cpu_devices_def)
  have "memdevice_resources (cpudevice_exit K ?t) = memdevice_resources ?t"
    by (subst cpudevice_exit_held(2)) (simp add: memdevice_resources_def)
  then have "held (khist (memdevice_exit K (cpudevice_exit K ?t))) = {#}"
    by (simp add: memdevice_exit_held cpudevice_exit_held(1) t)
  then have "held (khist (friend_loader_exit K ?s3)) = {#}"
    by (simp add: friend_loader_exit_def Let_def kdo_def)
  then show ?thesis using run he by (intro exI [of _ ?s3]) simp
qed

lemma demo_never_fails: "never_fails demo_kernel"
proof -
  have "succeeded (c, demo_kernel h c)" for c h
    by (cases c) (simp_all add: demo_kernel_def)
  then show ?thesis by (simp add: never_fails_def)
qed

theorem load_unload_witness:
  "\<exists>s'. friend_loader_init demo_kernel 4 demo_module = (0, s') \<and>
     held (khist (friend_loader_exit demo_kernel s')) = {#}"
  using load_unload [OF demo_never_fails, of 4 demo_module] by (auto simp: demo_module_def)

text \<open>
  C27: On a machine with one processor loading fails with -EIO after both memory devices have been
  registered, and none of their eight resources is given back.\<close>

theorem load_fails_on_one_cpu:
  assumes "never_fails K" "held (khist s) = {#}"
  shows "\<exists>s'. friend_loader_init K 1 s = (- EIO, s') \<and> held (khist s') = memdevice_resources s' \<and>
    size (held (khist s')) = 8"
proof -
  let ?s0 = "kdo K (Pr ''init'') s"
  define s1 where "s1 = snd (memdevice_init K ?s0)"
  have 1: "memdevice_init K ?s0 = (0, s1)" "held (khist s1) = memdevice_resources s1"
    using memdevice_init_held [OF assms(1), of ?s0] assms(2) by (simp_all add: s1_def prod_eq_iff kdo_def)
  have "friend_loader_init K 1 s = (- EIO, s1\<lparr>minor_num := 0\<rparr>)"
    by (simp add: friend_loader_init_def cpudevice_init_def Let_def 1(1) errnos)
  then show ?thesis using 1(2) by (simp add: memdevice_resources_def device_resources_def)
qed

theorem load_fails_on_one_cpu_witness:
  "\<exists>s'. friend_loader_init demo_kernel 1 demo_module = (- 5, s') \<and> size (held (khist s')) = 8"
  using load_fails_on_one_cpu [OF demo_never_fails, of demo_module] by (auto simp: demo_module_def EIO_def)

section \<open>The devices that are created and what opening one does\<close>

text \<open>
  The open of a processor device succeeds also when the processor could not be started, for
  example when it is not present.
\<close>

lemma cpudevice_open_result: "fst (cpudevice_open K A minor h) = 0"
  by (simp add: cpudevice_open_def case_prod_unfold Let_def)

lemma open_of_absent_cpu:
  "fst (cpudevice_open (\<lambda>_ _. \<lparr>kret = 0, kdev = MKDEV 0 0, kobj = NULL, kcpus = []\<rparr>) demo_apic 7 []) = 0"
  "fst (cpu_start (\<lambda>_ _. \<lparr>kret = 0, kdev = MKDEV 0 0, kobj = NULL, kcpus = []\<rparr>) demo_apic 8 []) = - 1"
  by (simp_all add: cpudevice_open_result cpu_start_def start_present_def Let_def)

end
