(* ===== verification/Hakase.thy ===== *)
theory Hakase
  imports Elf_Loader Loader16 Decimal "HOL-Library.Sublist"
begin

text \<open>
  \<^verbatim>\<open>src/hakase/hakase.cc\<close>: \<open>setup\<close> checks the version of the kernel module and the boot parameters
  of the host, maps the friend's memory, deploys the friend binary, prepares the trampoline and
  publishes the exported symbols; \<open>boot\<close> opens the processor devices one after the other. A result
  \<open>None\<close> is a fault of the process (an access to memory that is not mapped, a store past the end of
  a buffer, or a failed assertion).
\<close>

section \<open>C strings\<close>

definition cstr :: "string \<Rightarrow> string" where
  "cstr s = takeWhile (\<lambda>c. c \<noteq> CHR 0x00) s"

text \<open>Whether \<^verbatim>\<open>strstr\<close> finds the second string in the first.\<close>

fun strstr :: "string \<Rightarrow> string \<Rightarrow> bool" where
  "strstr [] n = (n = [])"
| "strstr (c # cs) n = (prefix n (c # cs) \<or> strstr cs n)"

lemma strstr_sublist: "strstr s n \<longleftrightarrow> sublist n s"
  by (induction s) (auto simp: sublist_Cons_right)

section \<open>The checks\<close>

text \<open>
  A stream is a number, negative for the null pointer. The text that was read is terminated in a
  buffer of 256 bytes, so more than 255 bytes would be a store past its end.
\<close>

definition read_text :: "os_env \<Rightarrow> int \<Rightarrow> proc \<Rightarrow> (string \<times> proc) option" where
  "read_text E fp p = (
     let (a, p) = os E (Fread fp 255) p in
     if length (data a) \<le> 255 then Some (cstr (data a @ [CHR 0x00]), p) else None)"

definition check_bootparam :: "os_env \<Rightarrow> proc \<Rightarrow> (int \<times> proc) option" where
  "check_bootparam E p = (
     let (a, p) = os E (Fopen ''/proc/cmdline'') p;
         cmdline_fp = ret a in
     if cmdline_fp < 0 then
       let (_, p) = os E (Print ''failed to open `cmdline`'') p in Some (- 1, p)
     else do {
       (buf, p) \<leftarrow> read_text E cmdline_fp p;
       if \<not> strstr buf ''memmap=8K$0x70000 memmap=1G$4G'' then
         let (_, p) = os E (Print ''error: physical memory is not isolated for toshokan.'') p in Some (- 1, p)
       else let (_, p) = os E (Fclose cmdline_fp) p in Some (0, p) })"

text \<open>\<open>kmod_version\<close> is the \<^verbatim>\<open>kmod_version_string\<close> hakase was compiled with.\<close>

definition check_version :: "os_env \<Rightarrow> string \<Rightarrow> proc \<Rightarrow> (int \<times> proc) option" where
  "check_version E kmod_version p = (
     let (a, p) = os E (Fopen ''/sys/module/friend_loader/info/version'') p;
         version_fp = ret a in
     if version_fp < 0 then
       let (_, p) = os E (Print ''failed to open `version`'') p in Some (- 1, p)
     else do {
       (buf, p) \<leftarrow> read_text E version_fp p;
       if \<not> strstr buf kmod_version then
         let (_, p) = os E (Print ''error: version mismatched'') p in Some (- 1, p)
       else let (_, p) = os E (Fclose version_fp) p in Some (0, p) })"

section \<open>The friend's memory\<close>

definition mmap_friend_mem :: "os_env \<Rightarrow> proc \<Rightarrow> (int \<times> proc) option" where
  "mmap_friend_mem E p = (
     let (a, p) = os E (Open ''/dev/friend_mem'') p;
         mem_fd = ret a in
     if mem_fd < 0 then let (_, p) = os E (Print ''Open call failed'') p in Some (- 1, p)
     else let (a, p) = os E (Mmap DEPLOY_PHYS_ADDR_START DEPLOY_PHYS_MEM_SIZE
                 (PROT_READ OR PROT_WRITE OR PROT_EXEC) (MAP_SHARED OR MAP_FIXED) mem_fd 0) p in
     if ptr a = MAP_FAILED then let (_, p) = os E (Print ''mmap operation failed...'') p in Some (- 1, p)
     else if ptr a \<noteq> DEPLOY_PHYS_ADDR_START then None
     else let (_, p) = os E (Close mem_fd) p in do {
       m \<leftarrow> memset (1024 * 4096) (pmem p) DEPLOY_PHYS_ADDR_START 0;
       Some (0, p\<lparr>pmem := m\<rparr>) })"

text \<open>The system calls of a successful run.\<close>

abbreviation friend_map :: "int \<Rightarrow> os_call" where
  "friend_map fd \<equiv> Mmap DEPLOY_PHYS_ADDR_START DEPLOY_PHYS_MEM_SIZE (PROT_READ OR PROT_WRITE OR PROT_EXEC)
     (MAP_SHARED OR MAP_FIXED) fd 0"

lemma mmap_friend_mem_calls:
  assumes "mmap_friend_mem E p = Some (0, p')"
  obtains a b c where "phist p' = phist p @ [(Open ''/dev/friend_mem'', a), (friend_map (ret a), b), (Close (ret a), c)]"
    "ptr b = DEPLOY_PHYS_ADDR_START"
proof -
  let ?o = "snd (os E (Open ''/dev/friend_mem'') p)" and ?a = "E (phist p) (Open ''/dev/friend_mem'')"
  let ?m = "snd (os E (friend_map (ret ?a)) ?o)" and ?b = "E (phist ?o) (friend_map (ret ?a))"
  from assms obtain m where "p' = (snd (os E (Close (ret ?a)) ?m))\<lparr>pmem := m\<rparr>" "ptr ?b = DEPLOY_PHYS_ADDR_START"
    by (auto simp: mmap_friend_mem_def Let_def case_prod_unfold bind_eq_Some_conv split: if_splits)
  then show ?thesis by (intro that) simp_all
qed

section \<open>Exported symbols\<close>

text \<open>
  The containers lie between two linker symbols, 16 bytes each: the address of the friend's
  variable and the value to store there. The loop ends only when the cursor meets the end exactly.
\<close>

partial_function (option) export_init :: "addr \<Rightarrow> addr \<Rightarrow> mem \<Rightarrow> mem option" where
  "export_init c export_symbol_end m = (if c = export_symbol_end then Some m
     else Option.bind (read64 m c) (\<lambda>shared_var_ptr.
          Option.bind (read64 m (c + 8)) (\<lambda>hakase_var_ptr.
          Option.bind (write64 m shared_var_ptr hakase_var_ptr) (\<lambda>m.
          export_init (c + 16) export_symbol_end m))))"

section \<open>Set-up and boot\<close>

text \<open>What the linker put into hakase.\<close>

record hakase_image =
  kmod_version :: string
  start_friend_bin :: addr
  stop_friend_bin :: addr
  friend16_bin :: addr
  friend16_size :: u64
  page_syms :: page_symbols
  export_symbol_start :: addr
  export_symbol_end :: addr

definition elfloader :: "hakase_image \<Rightarrow> ElfLoader" where
  "elfloader I = \<lparr>ld_addr = start_friend_bin I, ld_len = stop_friend_bin I - start_friend_bin I\<rparr>"

definition hakase_setup :: "os_env \<Rightarrow> hakase_image \<Rightarrow> proc \<Rightarrow> (int \<times> proc) option" where
  "hakase_setup E I p = do {
     (r, p) \<leftarrow> check_version E (kmod_version I) p;
     if r < 0 then Some (- 1, p) else do {
     (r, p) \<leftarrow> check_bootparam E p;
     if r < 0 then Some (- 1, p) else do {
     (r, p) \<leftarrow> mmap_friend_mem E p;
     if r < 0 then Some (- 1, p) else do {
     (ok, m) \<leftarrow> Deploy (elfloader I) (pmem p);
     let p = p\<lparr>pmem := m\<rparr>;
     if \<not> ok then let (_, p) = os E (Print ''error: failed to deploy elf binary'') p in Some (- 1, p) else do {
     entry \<leftarrow> GetEntry (elfloader I) (pmem p);
     (r, p) \<leftarrow> Init E (page_syms I) (friend16_bin I) (friend16_size I) entry p;
     if r < 0 then let (_, p) = os E (Print ''error: failed to init friend16 region'') p in Some (- 1, p) else do {
     m \<leftarrow> export_init (export_symbol_start I) (export_symbol_end I) (pmem p);
     Some (0, p\<lparr>pmem := m\<rparr>) }}}}}}"

definition cpu_path :: "nat \<Rightarrow> string" where
  "cpu_path i = ''/dev/friend_cpu'' @ dec i"

lemma cpu_path_fits: "length (cpu_path i) + 1 \<le> 20 \<longleftrightarrow> i < 10000"
  using dec_length [of 4 i] by (simp add: cpu_path_def)

text \<open>The loop of \<^verbatim>\<open>boot\<close> from \<open>i\<close> on; the name is printed into a buffer of 20 bytes.\<close>

function boot_loop :: "os_env \<Rightarrow> int \<Rightarrow> nat \<Rightarrow> proc \<Rightarrow> (int \<times> proc) option" where
  "boot_loop E mx i p = (if length (cpu_path i) + 1 > 20 then None
     else if ret (E (phist p) (Open (cpu_path i))) < 0
       then Some (int i - 1, snd (os E (Open (cpu_path i)) p))
     else if int i = mx then Some (int i, snd (os E (Open (cpu_path i)) p))
     else boot_loop E mx (i + 1) (snd (os E (Open (cpu_path i)) p)))"
  by auto

termination
proof (relation "measure (\<lambda>(E, mx, i, p). 10000 - i)")
  fix E :: os_env and mx :: int and i :: nat and p :: proc
  assume "\<not> 20 < length (cpu_path i) + 1"
  then have "i < 10000" using cpu_path_fits [of i] by linarith
  then show "((E, mx, i + 1, snd (os E (Open (cpu_path i)) p)), E, mx, i, p) \<in>
      measure (\<lambda>(E, mx, i, p). 10000 - i)" by simp
qed simp

declare boot_loop.simps [simp del]

definition boot :: "os_env \<Rightarrow> int \<Rightarrow> proc \<Rightarrow> (int \<times> proc) option" where
  "boot E mx p = boot_loop E mx 1 p"

section \<open>The checks decide by the text that was read\<close>

text \<open>The streams a history has opened and not closed.\<close>

fun stream_step :: "int set \<Rightarrow> os_call \<times> os_ans \<Rightarrow> int set" where
  "stream_step F (Fopen _, a) = (if ret a < 0 then F else insert (ret a) F)"
| "stream_step F (Fclose fp, _) = F - {fp}"
| "stream_step F _ = F"

definition open_streams :: "(os_call, os_ans) history \<Rightarrow> int set" where
  "open_streams h = foldl stream_step {} h"

lemma open_streams_append [simp]: "open_streams (h @ g) = foldl stream_step (open_streams h) g"
  by (simp add: open_streams_def)

text \<open>The text that a check reads: the first 255 bytes of the file up to a NUL.\<close>

definition stream_of :: "os_env \<Rightarrow> string \<Rightarrow> proc \<Rightarrow> int" where
  "stream_of E path p = ret (E (phist p) (Fopen path))"

definition text_of :: "os_env \<Rightarrow> string \<Rightarrow> proc \<Rightarrow> string" where
  "text_of E path p = data (E (phist p @ [(Fopen path, E (phist p) (Fopen path))]) (Fread (stream_of E path p) 255))"

definition check_file :: "os_env \<Rightarrow> string \<Rightarrow> string \<Rightarrow> string \<Rightarrow> string \<Rightarrow> proc \<Rightarrow> (int \<times> proc) option" where
  "check_file E path msg1 needle msg2 p = (
     let (a, p) = os E (Fopen path) p in
     if ret a < 0 then let (_, p) = os E (Print msg1) p in Some (- 1, p)
     else do {
       (buf, p') \<leftarrow> read_text E (ret a) p;
       if \<not> strstr buf needle then let (_, p) = os E (Print msg2) p' in Some (- 1, p)
       else let (_, p) = os E (Fclose (ret a)) p' in Some (0, p) })"

lemma checks_are_check_file:
  "check_bootparam E p = check_file E ''/proc/cmdline'' ''failed to open `cmdline`''
     ''memmap=8K$0x70000 memmap=1G$4G'' ''error: physical memory is not isolated for toshokan.'' p"
  "check_version E v p = check_file E ''/sys/module/friend_loader/info/version'' ''failed to open `version`''
     v ''error: version mismatched'' p"
  by (simp_all add: check_bootparam_def check_version_def check_file_def Let_def)

lemma check_file_result:
  assumes "length (text_of E path p) \<le> 255"
  shows "\<exists>p'. check_file E path msg1 needle msg2 p =
      Some (if 0 \<le> stream_of E path p \<and> sublist needle (cstr (text_of E path p)) then 0 else - 1, p') \<and>
    pmem p' = pmem p \<and> open_fds (phist p') = open_fds (phist p) \<and>
    open_streams (phist p') = (if stream_of E path p < 0 then open_streams (phist p)
      else if sublist needle (cstr (text_of E path p)) then open_streams (phist p) - {stream_of E path p}
      else insert (stream_of E path p) (open_streams (phist p)))"
proof -
  have c: "cstr (d @ [CHR 0x00]) = cstr d" for d by (induction d) (simp_all add: cstr_def)
  let ?p1 = "snd (os E (Fopen path) p)"
  have rt: "read_text E (stream_of E path p) ?p1 =
      Some (cstr (text_of E path p), snd (os E (Fread (stream_of E path p) 255) ?p1))"
    using assms unfolding read_text_def by (simp add: text_of_def stream_of_def case_prod_unfold Let_def c)
  show ?thesis
    using rt by (auto simp: check_file_def Let_def case_prod_unfold stream_of_def strstr_sublist)
qed

text \<open>
  C26: The two checks of the host decide by the text of a file: they return 0 exactly when the file
  opens and the first 255 bytes of it, up to the first NUL, contain the wanted words as one
  substring (for the boot parameters the two reservations, the trampoline's first and next to each
  other; for the version the string hakase was compiled with), and -1 otherwise. No memory is
  touched. A stream is closed again only when the check succeeds.\<close>

theorem checks_decide:
  assumes "length (text_of E ''/proc/cmdline'' p) \<le> 255"
    "length (text_of E ''/sys/module/friend_loader/info/version'' p) \<le> 255"
  shows "(\<exists>p'. check_bootparam E p = Some (if 0 \<le> stream_of E ''/proc/cmdline'' p \<and>
        sublist ''memmap=8K$0x70000 memmap=1G$4G'' (cstr (text_of E ''/proc/cmdline'' p)) then 0 else - 1, p') \<and>
      pmem p' = pmem p) \<and>
    (\<exists>p'. check_version E v p = Some (if 0 \<le> stream_of E ''/sys/module/friend_loader/info/version'' p \<and>
        sublist v (cstr (text_of E ''/sys/module/friend_loader/info/version'' p)) then 0 else - 1, p') \<and>
      pmem p' = pmem p \<and>
      (0 \<le> stream_of E ''/sys/module/friend_loader/info/version'' p \<and>
         \<not> sublist v (cstr (text_of E ''/sys/module/friend_loader/info/version'' p)) \<longrightarrow>
       stream_of E ''/sys/module/friend_loader/info/version'' p \<in> open_streams (phist p')))"
proof (intro conjI)
  let ?needle = "''memmap=8K$0x70000 memmap=1G$4G''"
  obtain p' where "check_bootparam E p = Some (if 0 \<le> stream_of E ''/proc/cmdline'' p \<and>
      sublist ?needle (cstr (text_of E ''/proc/cmdline'' p)) then 0 else - 1, p')" "pmem p' = pmem p"
    using check_file_result [OF assms(1), of "''failed to open `cmdline`''" ?needle
      "''error: physical memory is not isolated for toshokan.''", folded checks_are_check_file(1)]
    by (elim exE conjE) (rule that)
  then show "\<exists>p'. check_bootparam E p = Some (if 0 \<le> stream_of E ''/proc/cmdline'' p \<and>
      sublist ?needle (cstr (text_of E ''/proc/cmdline'' p)) then 0 else - 1, p') \<and> pmem p' = pmem p"
    by (intro exI [of _ p'] conjI)
next
  let ?path = "''/sys/module/friend_loader/info/version''"
  obtain p' where "check_version E v p =
      Some (if 0 \<le> stream_of E ?path p \<and> sublist v (cstr (text_of E ?path p)) then 0 else - 1, p')"
    "pmem p' = pmem p" "open_streams (phist p') = (if stream_of E ?path p < 0 then open_streams (phist p)
      else if sublist v (cstr (text_of E ?path p)) then open_streams (phist p) - {stream_of E ?path p}
      else insert (stream_of E ?path p) (open_streams (phist p)))"
    using check_file_result [OF assms(2), of "''failed to open `version`''" v "''error: version mismatched''",
      folded checks_are_check_file(2)]
    by (elim exE conjE) (rule that)
  then show "\<exists>p'. check_version E v p = Some (if 0 \<le> stream_of E ?path p \<and>
        sublist v (cstr (text_of E ?path p)) then 0 else - 1, p') \<and> pmem p' = pmem p \<and>
      (0 \<le> stream_of E ?path p \<and> \<not> sublist v (cstr (text_of E ?path p)) \<longrightarrow>
       stream_of E ?path p \<in> open_streams (phist p'))"
    by (intro exI [of _ p']) simp
qed

text \<open>A host whose files satisfy the checks, and the answers it gives.\<close>

definition good_host :: os_env where
  "good_host h c = (case c of
      Fopen _ \<Rightarrow> \<lparr>ret = 7, ptr = 0, data = [], pages = Map.empty\<rparr>
    | Fread _ _ \<Rightarrow> \<lparr>ret = 0, ptr = 0, data = ''quiet memmap=8K$0x70000 memmap=1G$4G'', pages = Map.empty\<rparr>
    | _ \<Rightarrow> \<lparr>ret = 3, ptr = 0, data = [], pages = Map.empty\<rparr>)"

theorem checks_decide_witness:
  "(\<exists>p'. check_bootparam good_host demo_proc = Some (0, p')) \<and>
   (\<exists>p'. check_version good_host ''v0.05'' demo_proc = Some (- 1, p') \<and> 7 \<in> open_streams (phist p'))"
proof -
  have t: "text_of good_host path p = ''quiet memmap=8K$0x70000 memmap=1G$4G''" "stream_of good_host path p = 7" for path p
    by (simp_all add: text_of_def stream_of_def good_host_def)
  have "cstr ''quiet memmap=8K$0x70000 memmap=1G$4G'' = ''quiet memmap=8K$0x70000 memmap=1G$4G''"
    by (simp add: cstr_def)
  moreover have "strstr ''quiet memmap=8K$0x70000 memmap=1G$4G'' ''memmap=8K$0x70000 memmap=1G$4G''"
    "\<not> strstr ''quiet memmap=8K$0x70000 memmap=1G$4G'' ''v0.05''" by simp_all
  ultimately show ?thesis
    using checks_decide [of good_host demo_proc "''v0.05''"] unfolding t strstr_sublist [symmetric] by auto
qed

section \<open>boot\<close>

lemma boot_loop_run:
  assumes "\<And>h i. 0 < i \<Longrightarrow> 0 \<le> ret (E h (Open (cpu_path i))) \<longleftrightarrow> i \<le> k" "k < 9999" "0 < i" "i \<le> k + 1"
    "0 < mx \<longrightarrow> int i \<le> mx"
  shows "\<exists>p'. boot_loop E mx i p = Some (if 0 < mx \<and> mx \<le> int k then mx else int k, p') \<and> pmem p' = pmem p \<and>
    map fst (phist p') = map fst (phist p) @
      map (Open \<circ> cpu_path) [i..<Suc (if 0 < mx \<and> mx \<le> int k then nat mx else k + 1)]"
  using assms(3-)
proof (induction "k + 1 - i" arbitrary: i p)
  case 0
  then have i: "i = k + 1" by simp
  moreover have "\<not> 0 \<le> ret (E h (Open (cpu_path (k + 1))))" for h using assms(1) [of "k + 1"] by simp
  moreover have "\<not> 20 < length (cpu_path (k + 1)) + 1" using cpu_path_fits [of "k + 1"] assms(2) by linarith
  ultimately show ?case using 0 by (subst boot_loop.simps) (auto simp: not_le)
next
  case (Suc d)
  then have i: "i \<le> k" by simp
  let ?p = "snd (os E (Open (cpu_path i)) p)"
  have ok: "\<not> ret (E (phist p) (Open (cpu_path i))) < 0" using assms(1) [of i "phist p"] Suc.prems i by simp
  have fit: "\<not> 20 < length (cpu_path i) + 1" using cpu_path_fits [of i] assms(2) i by linarith
  have step: "boot_loop E mx i p = (if int i = mx then Some (int i, ?p) else boot_loop E mx (i + 1) ?p)"
    using ok fit by (subst boot_loop.simps) simp
  show ?case
  proof (cases "int i = mx")
    case True
    then show ?thesis using step i Suc.prems by auto
  next
    case False
    have "d = k + 1 - (i + 1)" using Suc.hyps(2) by simp
    from Suc.hyps(1) [OF this, of ?p] obtain p' where
      "boot_loop E mx (i + 1) ?p = Some (if 0 < mx \<and> mx \<le> int k then mx else int k, p')" "pmem p' = pmem ?p"
      "map fst (phist p') = map fst (phist ?p) @
        map (Open \<circ> cpu_path) [i + 1..<Suc (if 0 < mx \<and> mx \<le> int k then nat mx else k + 1)]"
      using Suc.prems i False by auto
    moreover have "i < Suc (if 0 < mx \<and> mx \<le> int k then nat mx else k + 1)" using Suc.prems i by auto
    ultimately show ?thesis using step False
      by (intro exI [of _ p']) (simp add: upt_conv_Cons del: upt_Suc)
  qed
qed

text \<open>
  C24: On a host with k processor devices, k below 9999, boot terminates: it opens /dev/friend_cpu1,
  /dev/friend_cpu2, ... in this order until one does not open or the requested number is reached,
  and returns the number of devices it opened, k or the positive limit, whichever is less.\<close>

theorem boot_counts:
  assumes "\<And>h i. 0 < i \<Longrightarrow> 0 \<le> ret (E h (Open (cpu_path i))) \<longleftrightarrow> i \<le> k" "k < 9999"
  shows "\<exists>p'. boot E mx p = Some (if 0 < mx \<and> mx \<le> int k then mx else int k, p') \<and> pmem p' = pmem p \<and>
    map fst (phist p') = map fst (phist p) @
      map (Open \<circ> cpu_path) [1..<Suc (if 0 < mx \<and> mx \<le> int k then nat mx else k + 1)]"
  unfolding boot_def using assms by (intro boot_loop_run) auto

text \<open>The buffer for the device name is too small from the ten thousandth device on.\<close>

lemma boot_overflows:
  assumes "\<And>h. 0 \<le> ret (E h (Open (cpu_path 9999)))" "mx \<le> 0"
  shows "boot_loop E mx 9999 p = None"
proof -
  have "boot_loop E mx 10000 q = None" for q
    using cpu_path_fits [of 10000] by (subst boot_loop.simps) simp
  then show ?thesis
    using cpu_path_fits [of 9999] assms by (subst boot_loop.simps) (simp add: not_less)
qed

definition three_cpus :: os_env where
  "three_cpus h c = \<lparr>ret = (if c \<in> {Open (cpu_path 1), Open (cpu_path 2), Open (cpu_path 3)} then 5 else - 1),
     ptr = 0, data = [], pages = Map.empty\<rparr>"

theorem boot_counts_witness:
  "(\<exists>p'. boot three_cpus 0 demo_proc = Some (3, p')) \<and>
   (\<exists>p'. boot three_cpus 2 demo_proc = Some (2, p') \<and>
     map fst (phist p') = [Open (cpu_path 1), Open (cpu_path 2)])"
proof -
  have d: "cpu_path i = cpu_path j \<longleftrightarrow> i = j" for i j by (simp add: cpu_path_def dec_inject)
  have "0 \<le> ret (three_cpus h (Open (cpu_path i))) \<longleftrightarrow> i \<le> 3" if "0 < i" for h i
    using that by (auto simp: three_cpus_def d)
  note b = boot_counts [of three_cpus 3, OF this]
  have "[1..<Suc 2] = [1, 2 :: nat]" by (simp add: upt_rec)
  then show ?thesis using b [of 0 demo_proc] b [of 2 demo_proc] by (auto simp: demo_proc_def)
qed

section \<open>Exported symbols\<close>

text \<open>The pairs that \<open>n\<close> containers from \<open>c\<close> on hold.\<close>

definition exports :: "mem \<Rightarrow> addr \<Rightarrow> nat \<Rightarrow> (addr \<times> u64) list" where
  "exports m c n = map (\<lambda>i. (the (read64 m (c + 16 * of_nat i)), the (read64 m (c + 16 * of_nat i + 8)))) [0..<n]"

lemma exports_Suc: "exports m c (Suc n) = (the (read64 m c), the (read64 m (c + 8))) # exports m (c + 16) n"
  unfolding exports_def map_upt_Suc by (simp add: algebra_simps)

lemma exports_cong:
  assumes "\<And>x. x \<in> region c (16 * n) \<Longrightarrow> m' x = m x" "n < 2 ^ 60"
  shows "exports m' c n = exports m c n"
proof -
  have "read64 m' (c + 16 * of_nat i) = read64 m (c + 16 * of_nat i)"
    "read64 m' (c + 16 * of_nat i + 8) = read64 m (c + 16 * of_nat i + 8)" if "i < n" for i
  proof -
    have u: "unat (16 * of_nat i :: u64) = 16 * i" "unat (16 * of_nat i + 8 :: u64) = 16 * i + 8"
      using that assms(2) by (simp_all add: unat_word_ariths unat_of_nat take_bit_nat_eq_self)
    have "region (c + 16 * of_nat i) 8 \<subseteq> region c (16 * n)" "region (c + (16 * of_nat i + 8)) 8 \<subseteq> region c (16 * n)"
      using that u by (intro region_shift; simp)+
    then show "read64 m' (c + 16 * of_nat i) = read64 m (c + 16 * of_nat i)"
      "read64 m' (c + 16 * of_nat i + 8) = read64 m (c + 16 * of_nat i + 8)"
      using assms(1) by (auto intro!: read_le_cong simp: add.assoc)
  qed
  then show ?thesis by (auto simp: exports_def)
qed

text \<open>
  The loop stores every pair when the containers are mapped and no variable overlaps them, and it
  ends after as many rounds as there are containers.
\<close>

lemma export_init_run:
  assumes "n < 2 ^ 60" "region c (16 * n) \<subseteq> dom m"
    "\<forall>w \<in> set (exports m c n). region (fst w) 8 \<subseteq> dom m \<and> region (fst w) 8 \<inter> region c (16 * n) = {}"
  shows "\<exists>m'. export_init c (c + of_nat (16 * n)) m = Some m' \<and> write_all write64 m (exports m c n) = Some m'"
  using assms
proof (induction n arbitrary: c m)
  case 0
  show ?case by (subst export_init.simps) (simp add: exports_def)
next
  case (Suc n)
  let ?R = "region c (16 * Suc n)"
  have "unat (of_nat (16 * Suc n) :: u64) = 16 * Suc n"
    using Suc.prems(1) by (simp only: unat_of_nat) (simp add: take_bit_nat_eq_self)
  then have ne: "c \<noteq> c + of_nat (16 * Suc n)" by (metis add_cancel_left_right nat.distinct(1) mult_is_0 unat_0 zero_neq_numeral)
  have sub: "region c 8 \<subseteq> ?R" "region (c + 8) 8 \<subseteq> ?R" "region (c + 16) (16 * n) \<subseteq> ?R"
    by (simp_all add: region_mono region_shift)
  then obtain a v where av: "read64 m c = Some a" "read64 m (c + 8) = Some v"
    using Suc.prems(2) read_le_defined [of c 8 m] read_le_defined [of "c + 8" 8 m] by blast
  have a: "region a 8 \<subseteq> dom m" "region a 8 \<inter> ?R = {}" using Suc.prems(3) av by (simp_all add: exports_Suc)
  then obtain m1 where m1: "write64 m a v = Some m1" using write_le_defined by blast
  then have d1: "dom m1 = dom m" by (rule write_le_dom)
  have keep: "m1 x = m x" if "x \<in> ?R" for x
    using that a(2) by (intro write_le_frame [OF m1]) blast
  have ex: "exports m1 (c + 16) n = exports m (c + 16) n"
    using keep sub(3) Suc.prems(1) by (intro exports_cong) auto
  obtain m' where m': "export_init (c + 16) (c + 16 + of_nat (16 * n)) m1 = Some m'"
    "write_all write64 m1 (exports m (c + 16) n) = Some m'"
    using Suc.IH [of "c + 16" m1] Suc.prems sub(3) d1 ex by (force simp: exports_Suc)
  have "c + of_nat (16 * Suc n) = c + 16 + of_nat (16 * n)" by simp
  then have "export_init c (c + of_nat (16 * Suc n)) m = Some m'"
    using ne av m1 m'(1) by (subst export_init.simps) (simp add: add.assoc)
  then show ?case using m'(2) av m1 by (simp add: exports_Suc)
qed

section \<open>Set-up\<close>

text \<open>What the binary contributes: page tables, the boot code and the export table are where they belong.\<close>

definition image_ok :: "hakase_image \<Rightarrow> mem \<Rightarrow> nat \<Rightarrow> bool" where
  "image_ok I m n \<longleftrightarrow> symbols_ok (page_syms I) \<and> friend16_size I \<le> PAGE_SIZE \<and>
     region (friend16_bin I) (unat (friend16_size I)) \<subseteq> dom m - deploy_region \<and>
     n < 2 ^ 60 \<and> export_symbol_end I = export_symbol_start I + of_nat (16 * n) \<and>
     region (export_symbol_start I) (16 * n) \<subseteq> dom m - deploy_region \<and>
     distinct (map fst (exports m (export_symbol_start I) n)) \<and>
     (\<forall>w \<in> set (exports m (export_symbol_start I) n).
        aligned8 (fst w) \<and> region (fst w) 8 \<subseteq> deploy_region - table_pages (page_syms I))"

definition exported_vars :: "hakase_image \<Rightarrow> mem \<Rightarrow> nat \<Rightarrow> addr set" where
  "exported_vars I m n = (\<Union>w \<in> set (exports m (export_symbol_start I) n). region (fst w) 8)"

lemma setup_run:
  fixes I n
  defines "L \<equiv> elfloader I" and "S \<equiv> page_syms I"
  assumes v: "check_version E (kmod_version I) p = Some (0, p1)" and b: "check_bootparam E p1 = Some (0, p2)"
    and mm: "mmap_friend_mem E p2 = Some (0, p3)"
    and elf: "image_apart L (pmem p3)" "header_ok L (pmem p3)" "Elf_Loader.tables_ok L (pmem p3)"
    and ent: "GetEntry L (pmem p3) = Some ent" and img: "image_ok I (pmem p3) n"
    and boot: "bootmem_maps E (p3\<lparr>pmem := deployed L (pmem p3)\<rparr>)"
  shows "\<exists>p'. hakase_setup E I p = Some (0, p') \<and>
    boot_ready ent (pmem p3) (friend16_bin I) (unat (friend16_size I)) (booted p') \<and>
    (\<forall>x \<in> deploy_region - table_pages S - exported_vars I (pmem p3) n. pmem p' x = deployed L (pmem p3) x) \<and>
    (\<forall>(a, w) \<in> set (exports (pmem p3) (export_symbol_start I) n). read64 (pmem p') a = Some w) \<and>
    (\<forall>x \<in> deploy_region. booted p' x = pmem p' x)"
proof -
  let ?m3 = "pmem p3" and ?m4 = "deployed L (pmem p3)" and ?c = "export_symbol_start I"
  let ?p4 = "p3\<lparr>pmem := ?m4\<rparr>" and ?ws = "exports (pmem p3) (export_symbol_start I) n"
  have dep: "Deploy L ?m3 = Some (True, ?m4)" "same_image L ?m3 ?m4" using Deploy_run [OF elf] by simp_all
  have out: "?m4 x = ?m3 x" if "x \<notin> deploy_region" for x using deployed_outside [OF elf(3) that] .
  have d4: "dom ?m4 = dom ?m3" "deploy_region \<subseteq> dom ?m3"
    using dep(2) elf(1) by (auto simp: same_image_def image_apart_def)
  have "64 \<le> unat (ld_len L)" using elf(3) by (simp add: Elf_Loader.tables_ok_def)
  then have ent4: "GetEntry L ?m4 = Some ent"
    using ent read_stable [OF dep(2), of 24 8] by (simp add: GetEntry_def Ehdr_GetEntry_def ehdr_fields)
  have bin: "region (friend16_bin I) (unat (friend16_size I)) \<subseteq> dom ?m3 - deploy_region"
    and c: "region ?c (16 * n) \<subseteq> dom ?m3 - deploy_region" and n: "n < 2 ^ 60"
    and ce: "export_symbol_end I = ?c + of_nat (16 * n)"
    and ws: "\<forall>w \<in> set ?ws. aligned8 (fst w)" "distinct (map fst ?ws)"
      "\<And>w. w \<in> set ?ws \<Longrightarrow> region (fst w) 8 \<subseteq> deploy_region - table_pages S"
    using img unfolding image_ok_def S_def by auto
  have pre: "symbols_ok S" "deploy_region \<subseteq> dom (pmem ?p4)"
    "region (friend16_bin I) (unat (friend16_size I)) \<subseteq> dom (pmem ?p4)" "friend16_size I \<le> PAGE_SIZE"
    using img d4 bin by (auto simp: image_ok_def S_def)
  obtain p5 where run: "Init E S (friend16_bin I) (friend16_size I) ent ?p4 = Some (0, p5)"
    and d5: "dom (pmem p5) = dom (pmem ?p4)" and fr: "\<forall>x. x \<notin> table_pages S \<longrightarrow> pmem p5 x = pmem ?p4 x"
    and ready: "\<forall>m. (\<forall>x \<in> table_pages S. m x = pmem p5 x) \<longrightarrow>
       boot_ready ent (pmem ?p4) (friend16_bin I) (unat (friend16_size I)) (booted (p5\<lparr>pmem := m\<rparr>))"
    and bt: "\<forall>m. \<forall>x \<in> deploy_region. booted (p5\<lparr>pmem := m\<rparr>) x = m x"
    by (rule Init_ready [OF boot pre, where ent = ent]) (rule that)
  have "0 \<notin> deploy_region" unfolding in_deploy_region by (simp add: DEPLOY_PHYS_ADDR_START_def)
  then have tp: "table_pages S \<subseteq> deploy_region"
    by (intro table_pages_deploy [of S 0] tables_ok_outside [OF pre(1)]) (simp_all add: aligned_to_def)
  have same5: "pmem p5 x = ?m3 x" if "x \<notin> deploy_region" for x using fr tp out [OF that] that by (auto simp: subset_iff)
  have ex5: "exports (pmem p5) ?c n = ?ws" using same5 c n by (intro exports_cong) auto
  have d45: "dom (pmem p5) = dom ?m3" using d5 d4 by simp
  have pw: "\<forall>w \<in> set ?ws. region (fst w) 8 \<subseteq> dom (pmem p5) \<and> region (fst w) 8 \<inter> region ?c (16 * n) = {}"
  proof
    fix w assume "w \<in> set ?ws"
    from ws(3) [OF this] show "region (fst w) 8 \<subseteq> dom (pmem p5) \<and> region (fst w) 8 \<inter> region ?c (16 * n) = {}"
      unfolding d45 using d4(2) c by blast
  qed
  obtain m6 where m6: "export_init ?c (export_symbol_end I) (pmem p5) = Some m6" "write_all write64 (pmem p5) ?ws = Some m6"
    using export_init_run [of n ?c "pmem p5", unfolded ex5, OF n _ pw] c d45 ce by auto
  have fr6: "m6 x = pmem p5 x" if "x \<notin> exported_vars I ?m3 n" for x
    using write_all_frame [OF m6(2)] that by (auto simp: exported_vars_def)
  have "x \<notin> exported_vars I ?m3 n" if "x \<in> table_pages S" for x
    using ws(3) that by (auto simp: exported_vars_def)
  then have rdy: "boot_ready ent ?m4 (friend16_bin I) (unat (friend16_size I)) (booted (p5\<lparr>pmem := m6\<rparr>))"
    using ready [rule_format, of m6] fr6 by simp
  have code: "?m4 (friend16_bin I + (x - TRAMPOLINE_ADDR)) = ?m3 (friend16_bin I + (x - TRAMPOLINE_ADDR))"
    if "x \<in> region TRAMPOLINE_ADDR (unat (friend16_size I))" for x
    using that bin by (intro out) (auto simp: in_region_iff subset_iff)
  have set: "hakase_setup E I p = Some (0, p5\<lparr>pmem := m6\<rparr>)"
    unfolding hakase_setup_def using v b mm dep(1) ent4 run m6(1) by (simp add: L_def S_def Let_def)
  show ?thesis
  proof (intro exI [of _ "p5\<lparr>pmem := m6\<rparr>"] conjI ballI)
    show "boot_ready ent ?m3 (friend16_bin I) (unat (friend16_size I)) (booted (p5\<lparr>pmem := m6\<rparr>))"
      using rdy code by (simp add: boot_ready_def)
    fix x assume "x \<in> deploy_region - table_pages S - exported_vars I ?m3 n"
    then show "pmem (p5\<lparr>pmem := m6\<rparr>) x = ?m4 x" using fr fr6 by simp
  next
    fix w assume "w \<in> set ?ws"
    then show "case w of (a, w) \<Rightarrow> read64 (pmem (p5\<lparr>pmem := m6\<rparr>)) a = Some w"
      using wm.rd_write_all_distinct [OF ws(1,2) m6(2)] by (auto split: prod.split)
  next
    fix x assume "x \<in> deploy_region"
    then show "booted (p5\<lparr>pmem := m6\<rparr>) x = pmem (p5\<lparr>pmem := m6\<rparr>) x" using bt by simp
  qed (rule set)
qed

text \<open>
  C18: Set-up composes its parts into a friend that can be started. When the checks pass, the
  friend's memory has been mapped, the friend binary is a well-formed ELF file and the boot memory
  can be mapped, hakase_setup returns 0; the memory that the processors boot on has the boot code,
  the entry address of the friend binary and page tables that map the friend's memory and the
  first 2MB to themselves; the friend's memory holds what the ELF file describes, except for the
  pages of those tables and the exported variables; and every exported variable holds the address
  that hakase gave it.\<close>

theorem setup_ready:
  fixes I n
  defines "L \<equiv> elfloader I" and "S \<equiv> page_syms I"
  assumes v: "check_version E (kmod_version I) p = Some (0, p1)" and b: "check_bootparam E p1 = Some (0, p2)"
    and mm: "mmap_friend_mem E p2 = Some (0, p3)"
    and elf: "image_apart L (pmem p3)" "header_ok L (pmem p3)" "Elf_Loader.tables_ok L (pmem p3)"
    and ent: "GetEntry L (pmem p3) = Some ent" and img: "image_ok I (pmem p3) n"
    and boot: "bootmem_maps E (p3\<lparr>pmem := deployed L (pmem p3)\<rparr>)"
  shows "\<exists>p'. hakase_setup E I p = Some (0, p') \<and>
    boot_ready ent (pmem p3) (friend16_bin I) (unat (friend16_size I)) (booted p') \<and>
    (\<forall>x \<in> deploy_region - table_pages S - exported_vars I (pmem p3) n. pmem p' x = deployed L (pmem p3) x) \<and>
    (\<forall>(a, w) \<in> set (exports (pmem p3) (export_symbol_start I) n). read64 (pmem p') a = Some w)"
  using setup_run [OF assms(3-) [unfolded L_def]] unfolding L_def S_def by blast

subsection \<open>An instance\<close>

definition setup_env :: os_env where
  "setup_env h c = (case c of
      Fopen _ \<Rightarrow> \<lparr>ret = 7, ptr = 0, data = [], pages = Map.empty\<rparr>
    | Fread _ _ \<Rightarrow> \<lparr>ret = 0, ptr = 0, data = ''v0.05 memmap=8K$0x70000 memmap=1G$4G'', pages = Map.empty\<rparr>
    | Mmap a _ _ _ _ _ \<Rightarrow> (if a = 0 then \<lparr>ret = 0, ptr = 0x7f0000000000, data = [],
          pages = (\<lambda>x. if x \<in> region 0x7f0000000000 0x2000 then Some 0 else None)\<rparr>
        else \<lparr>ret = 0, ptr = a, data = [], pages = (\<lambda>x. if x \<in> deploy_region then Some 0 else None)\<rparr>)
    | _ \<Rightarrow> \<lparr>ret = 3, ptr = 0, data = [], pages = Map.empty\<rparr>)"

definition setup_image :: hakase_image where
  "setup_image = \<lparr>kmod_version = ''v0.05'', start_friend_bin = 0x1000, stop_friend_bin = 0x10ba,
     friend16_bin = 0x1000, friend16_size = 16, page_syms = demo_symbols,
     export_symbol_start = 0x2000, export_symbol_end = 0x2000\<rparr>"

definition setup_proc :: proc where
  "setup_proc = \<lparr>pmem = (\<lambda>a. if unat (a - 0x1000) < 186 then Some (example_file ! unat (a - 0x1000)) else None),
     phist = []\<rparr>"

abbreviation setup_mem :: mem where
  "setup_mem \<equiv> example_mem_with (\<lambda>_. 0)"

lemma setup_checks:
  "\<exists>p'. check_version setup_env (kmod_version setup_image) p = Some (0, p') \<and> pmem p' = pmem p"
  "\<exists>p'. check_bootparam setup_env p = Some (0, p') \<and> pmem p' = pmem p"
proof -
  let ?t = "''v0.05 memmap=8K$0x70000 memmap=1G$4G''"
  have t: "text_of setup_env path p = ?t" "stream_of setup_env path p = 7" for path
    by (simp_all add: text_of_def stream_of_def setup_env_def)
  have c: "cstr ?t = ?t" by (simp add: cstr_def)
  have "strstr ?t ''v0.05''" "strstr ?t ''memmap=8K$0x70000 memmap=1G$4G''" by simp_all
  then have n: "sublist ''v0.05'' (cstr ?t)" "sublist ''memmap=8K$0x70000 memmap=1G$4G'' (cstr ?t)"
    unfolding c strstr_sublist [symmetric] by simp_all
  have len: "length (text_of setup_env path p) \<le> 255" for path by (simp add: t)
  show "\<exists>p'. check_version setup_env (kmod_version setup_image) p = Some (0, p') \<and> pmem p' = pmem p"
    using check_file_result [OF len, of "''/sys/module/friend_loader/info/version''"
      "''failed to open `version`''" "''v0.05''" "''error: version mismatched''", folded checks_are_check_file(2)] n(1)
    unfolding t by (auto simp: setup_image_def)
  show "\<exists>p'. check_bootparam setup_env p = Some (0, p') \<and> pmem p' = pmem p"
    using check_file_result [OF len, of "''/proc/cmdline''" "''failed to open `cmdline`''"
      "''memmap=8K$0x70000 memmap=1G$4G''" "''error: physical memory is not isolated for toshokan.''",
      folded checks_are_check_file(1)] n(2)
    unfolding t by auto
qed

lemma example_apart_deploy: "unat (a - 0x1000) < 186 \<Longrightarrow> a \<notin> deploy_region"
  using region_disjoint [of "0x1000" 186 DEPLOY_PHYS_ADDR_START "unat DEPLOY_PHYS_MEM_SIZE"]
  by (auto simp: in_region_iff deploy_size DEPLOY_PHYS_ADDR_START_def)

lemma setup_mem_deploy: "a \<in> deploy_region \<Longrightarrow> setup_mem a = Some 0"
  using example_apart_deploy [of a] unfolding in_deploy_region by (auto simp: example_mem_with_def)

lemma setup_mmap:
  assumes "pmem p = pmem setup_proc"
  shows "\<exists>p'. mmap_friend_mem setup_env p = Some (0, p') \<and> pmem p' = setup_mem"
proof -
  let ?pg = "\<lambda>x. if x \<in> deploy_region then Some (0 :: u8) else None"
  have "(pmem setup_proc ++ ?pg) a = setup_mem a" for a
    using example_apart_deploy [of a] setup_mem_deploy [of a]
    by (auto simp: map_add_def setup_proc_def example_mem_with_def in_deploy_region [symmetric] split: if_splits)
  then have M: "pmem setup_proc ++ ?pg = setup_mem" by (rule ext)
  have dom: "region DEPLOY_PHYS_ADDR_START (1024 * 4096) \<subseteq> deploy_region"
    by (intro region_mono) (simp add: deploy_size)
  moreover have "deploy_region \<subseteq> dom setup_mem" using setup_mem_deploy by blast
  ultimately obtain m where m: "memset (1024 * 4096) setup_mem DEPLOY_PHYS_ADDR_START 0 = Some m"
    using memset_defined by blast
  have "m = setup_mem"
  proof
    fix a
    show "m a = setup_mem a"
    proof (cases "a \<in> region DEPLOY_PHYS_ADDR_START (1024 * 4096)")
      case True
      then have "m a = Some 0" "a \<in> deploy_region" using memset_value [OF m] dom by auto
      then show ?thesis using setup_mem_deploy by simp
    next
      case False then show ?thesis using memset_frame [OF m] by simp
    qed
  qed
  with m show ?thesis
    using assms M
    by (simp add: mmap_friend_mem_def Let_def case_prod_unfold setup_env_def DEPLOY_PHYS_ADDR_START_def MAP_FAILED_def)
qed

lemma setup_bootmem:
  assumes "dom m = dom setup_mem"
  shows "bootmem_maps setup_env (p\<lparr>pmem := m\<rparr>)"
proof -
  have "region 0x7f0000000000 0x2000 \<inter> deploy_region = {}"
    by (subst Int_commute, rule region_disjoint) (simp_all add: deploy_size DEPLOY_PHYS_ADDR_START_def)
  moreover have "region 0x7f0000000000 0x2000 \<inter> region 0x1000 186 = {}"
    by (subst Int_commute, rule region_disjoint) simp_all
  moreover have "dom m \<subseteq> deploy_region \<union> region 0x1000 186"
  proof
    fix x assume "x \<in> dom m"
    then have "unat (x - 0x1000) < 186 \<or> x \<in> deploy_region"
      unfolding assms in_deploy_region by (auto simp: example_mem_with_def split: if_splits)
    then show "x \<in> deploy_region \<union> region 0x1000 186" by (auto simp: in_region_iff)
  qed
  ultimately have free: "region 0x7f0000000000 0x2000 \<inter> dom m = {}" by blast
  have b: "bootmem_of setup_env (p\<lparr>pmem := m\<rparr>) = \<lparr>ret = 0, ptr = 0x7f0000000000, data = [],
        pages = (\<lambda>x. if x \<in> region 0x7f0000000000 0x2000 then Some 0 else None)\<rparr>"
    by (simp add: bootmem_of_def setup_env_def boot_dev_def Let_def)
  show ?thesis
    unfolding bootmem_maps_def b Let_def
    using free by (simp add: setup_env_def boot_dev_def MAP_FAILED_def aligned_to_def dom_def)
qed

lemma setup_instance:
  obtains p1 p2 p3 where "check_version setup_env (kmod_version setup_image) setup_proc = Some (0, p1)"
    "check_bootparam setup_env p1 = Some (0, p2)" "mmap_friend_mem setup_env p2 = Some (0, p3)"
    "image_apart (elfloader setup_image) (pmem p3)" "header_ok (elfloader setup_image) (pmem p3)"
    "Elf_Loader.tables_ok (elfloader setup_image) (pmem p3)"
    "GetEntry (elfloader setup_image) (pmem p3) = Some 0x100000000" "image_ok setup_image (pmem p3) 0"
    "bootmem_maps setup_env (p3\<lparr>pmem := deployed (elfloader setup_image) (pmem p3)\<rparr>)" "pmem p3 = setup_mem"
proof -
  let ?I = setup_image
  have L: "elfloader ?I = example_loader" by (simp add: elfloader_def setup_image_def example_loader_def)
  obtain p1 where 1: "check_version setup_env (kmod_version ?I) setup_proc = Some (0, p1)" "pmem p1 = pmem setup_proc"
    using setup_checks(1) by blast
  obtain p2 where 2: "check_bootparam setup_env p1 = Some (0, p2)" "pmem p2 = pmem setup_proc"
    using setup_checks(2) [of p1] 1(2) by auto
  obtain p3 where 3: "mmap_friend_mem setup_env p2 = Some (0, p3)" "pmem p3 = setup_mem"
    using setup_mmap [OF 2(2)] by blast
  have "dom (deployed example_loader setup_mem) = dom setup_mem"
    using Deploy_run(2) [OF example_apart example_header example_tables] by (simp add: same_image_def)
  then have boot: "bootmem_maps setup_env (p3\<lparr>pmem := deployed (elfloader ?I) (pmem p3)\<rparr>)"
    unfolding L 3(2) by (rule setup_bootmem)
  have ent: "GetEntry (elfloader ?I) (pmem p3) = Some 0x100000000"
    unfolding L 3(2) by (simp add: GetEntry_def Ehdr_GetEntry_def ehdr_fields read_le_numeral example_defs)
  have "region 0x1000 16 \<subseteq> dom setup_mem" by (auto simp: in_region_iff example_mem_with_def dom_def)
  moreover have "region 0x1000 16 \<inter> deploy_region = {}" using example_apart_deploy by (auto simp: in_region_iff)
  moreover have "symbols_ok demo_symbols"
    by (simp add: symbols_ok_def demo_symbols_def aligned_to_def DEPLOY_PHYS_ADDR_START_def DEPLOY_PHYS_ADDR_END_def)
  ultimately have img: "image_ok ?I (pmem p3) 0"
    unfolding 3(2) image_ok_def by (auto simp: setup_image_def exports_def PAGE_SIZE_def)
  have elf: "image_apart (elfloader ?I) (pmem p3)" "header_ok (elfloader ?I) (pmem p3)"
    "Elf_Loader.tables_ok (elfloader ?I) (pmem p3)"
    unfolding L 3(2) by (rule example_apart example_header example_tables)+
  show ?thesis by (rule that [OF 1(1) 2(1) 3(1) elf ent img boot 3(2)])
qed

theorem setup_ready_witness:
  "\<exists>p'. hakase_setup setup_env setup_image setup_proc = Some (0, p') \<and>
     boot_ready 0x100000000 setup_mem 0x1000 16 (booted p')"
proof -
  obtain p1 p2 p3 where run: "check_version setup_env (kmod_version setup_image) setup_proc = Some (0, p1)"
    "check_bootparam setup_env p1 = Some (0, p2)" "mmap_friend_mem setup_env p2 = Some (0, p3)"
    and ok: "image_apart (elfloader setup_image) (pmem p3)" "header_ok (elfloader setup_image) (pmem p3)"
      "Elf_Loader.tables_ok (elfloader setup_image) (pmem p3)"
      "GetEntry (elfloader setup_image) (pmem p3) = Some 0x100000000" "image_ok setup_image (pmem p3) 0"
      "bootmem_maps setup_env (p3\<lparr>pmem := deployed (elfloader setup_image) (pmem p3)\<rparr>)" "pmem p3 = setup_mem"
    by (rule setup_instance)
  from setup_ready [OF run ok(1-6)] show ?thesis unfolding ok(7) by (auto simp: setup_image_def)
qed

end
