(* ===== verification/Boot16.thy ===== *)
theory Boot16
  imports Loader16
begin

text \<open>
  \<^verbatim>\<open>src/hakase/friend_boot16.S\<close>: the code a processor runs at the trampoline, from real mode to
  the friend's entry in long mode. The state is what the code depends on: the control registers,
  EFER, the segment registers and the descriptor table; an action that the processor answers with
  an exception is \<open>None\<close>.
\<close>

section \<open>The processor\<close>

datatype cpu_mode = Real16 | Prot32 | Long64

record boot_cpu =
  cr0 :: u32
  cr3 :: u64
  cr4 :: u32
  efer :: u32
  cpu_mode :: cpu_mode
  cs :: u16
  ds :: u16
  ss :: u16
  gdt :: "u64 list"
  int_flag :: bool
  cpu_rip :: addr

definition desc_of :: "boot_cpu \<Rightarrow> u16 \<Rightarrow> u64 option" where
  "desc_of c sel = (let i = unat (drop_bit 3 sel) in if i < length (gdt c) then Some (gdt c ! i) else None)"

text \<open>Bits of a segment descriptor: executable 43, code or data 44, present 47, long 53, 32-bit 54.\<close>

definition code_desc :: "u64 \<Rightarrow> bool" where
  "code_desc d \<longleftrightarrow> bit d 47 \<and> bit d 44 \<and> bit d 43"

definition data_desc :: "u64 \<Rightarrow> bool" where
  "data_desc d \<longleftrightarrow> bit d 47 \<and> bit d 44 \<and> \<not> bit d 43 \<and> bit d 41"

definition long_active :: "boot_cpu \<Rightarrow> bool" where
  "long_active c \<longleftrightarrow> bit (efer c) 8 \<and> bit (cr0 c) 31"

text \<open>A far jump in protected mode: the code descriptor decides the mode.\<close>

definition ljmp :: "u16 \<Rightarrow> addr \<Rightarrow> boot_cpu \<Rightarrow> boot_cpu option" where
  "ljmp sel target c = (if \<not> bit (cr0 c) 0 then None else case desc_of c sel of
      None \<Rightarrow> None
    | Some d \<Rightarrow>
        if \<not> code_desc d then None
        else if long_active c \<and> bit d 53 \<and> \<not> bit d 54 then
          Some (c\<lparr>cs := sel, cpu_mode := Long64, cpu_rip := target\<rparr>)
        else if \<not> bit d 53 \<and> bit d 54 then Some (c\<lparr>cs := sel, cpu_mode := Prot32, cpu_rip := target\<rparr>)
        else None)"

definition load_data_seg :: "u16 \<Rightarrow> boot_cpu \<Rightarrow> bool" where
  "load_data_seg sel c = (case desc_of c sel of None \<Rightarrow> False | Some d \<Rightarrow> data_desc d)"

text \<open>
  Storing CR0: paging needs protection, and turning it on with EFER.LME set needs CR4.PAE.
\<close>

definition set_cr0 :: "u32 \<Rightarrow> boot_cpu \<Rightarrow> boot_cpu option" where
  "set_cr0 v c = (if bit v 31 \<and> \<not> bit v 0 then None
     else if bit v 31 \<and> \<not> bit (cr0 c) 31 \<and> bit (efer c) 8 \<and> \<not> bit (cr4 c) 5 then None
     else Some (c\<lparr>cr0 := v\<rparr>))"

section \<open>The code\<close>

definition gdt_desc32 :: "u64 list" where
  "gdt_desc32 = [0, 0x00CF9A000000FFFF, 0x00CF92000000FFFF]"

definition gdt_desc64 :: "u64 list" where
  "gdt_desc64 = [0, 0, 0x00209a0000000000, 0x0000920000000000, 0x0000f20000000000, 0x0020fa0000000000]"

text \<open>The offset of the slot for the entry address, behind the jump at the start, aligned to 8.\<close>

definition addr_slot :: u64 where "addr_slot = 8"

text \<open>\<open>l32\<close> and \<open>l64\<close> are the offsets of the labels \<^verbatim>\<open>entry32\<close> and \<^verbatim>\<open>start\<close>.\<close>

definition entry16 :: "u64 \<Rightarrow> boot_cpu \<Rightarrow> boot_cpu option" where
  "entry16 l32 c = (if cpu_mode c \<noteq> Real16 then None else do {
     let c = c\<lparr>int_flag := False\<rparr>;
     let c = c\<lparr>ds := cs c\<rparr>;
     let c = c\<lparr>gdt := gdt_desc32\<rparr>;
     c \<leftarrow> set_cr0 (cr0 c OR push_bit 0 1) c;
     ljmp 0x08 (TRAMPOLINE_ADDR + l32) c })"

definition entry32 :: "u64 \<Rightarrow> boot_cpu \<Rightarrow> boot_cpu option" where
  "entry32 l64 c = (if cpu_mode c \<noteq> Prot32 \<or> \<not> load_data_seg 0x10 c then None else do {
     let c = c\<lparr>ds := 0x10\<rparr>;
     let c = c\<lparr>cr3 := INITIAL_PML4T\<rparr>;
     let c = c\<lparr>cr4 := cr4 c OR (push_bit 4 1 OR push_bit 5 1 OR push_bit 7 1)\<rparr>;
     let c = c\<lparr>efer := efer c OR push_bit 8 1\<rparr>;
     c \<leftarrow> set_cr0 ((cr0 c OR push_bit 31 1) AND NOT (push_bit 30 1 OR push_bit 29 1)) c;
     let c = c\<lparr>gdt := gdt_desc64\<rparr>;
     ljmp 0x10 (TRAMPOLINE_ADDR + l64) c })"

text \<open>The last part runs under paging and fetches the entry through it.\<close>

definition start64 :: "mem \<Rightarrow> boot_cpu \<Rightarrow> boot_cpu option" where
  "start64 pm c = (if cpu_mode c \<noteq> Long64 \<or> \<not> load_data_seg 0x18 c then None else do {
     let c = c\<lparr>ds := 0x18\<rparr>;
     let c = c\<lparr>ss := 0x18\<rparr>;
     let rax = TRAMPOLINE_ADDR + addr_slot;
     a \<leftarrow> translate_read pm (cr3 c) rax;
     target \<leftarrow> read64 pm a;
     Some (c\<lparr>cpu_rip := target\<rparr>) })"

definition boot16 :: "mem \<Rightarrow> u64 \<Rightarrow> u64 \<Rightarrow> boot_cpu \<Rightarrow> boot_cpu option" where
  "boot16 pm l32 l64 c = do {
     c \<leftarrow> entry16 l32 c;
     c \<leftarrow> entry32 l64 c;
     start64 pm c }"

section \<open>What the code does\<close>

text \<open>A processor after a STARTUP interrupt with vector \<open>vec\<close>: real mode, paging and EFER off.\<close>

definition after_sipi :: "u16 \<Rightarrow> boot_cpu \<Rightarrow> bool" where
  "after_sipi vec c \<longleftrightarrow> cpu_mode c = Real16 \<and> cs c = push_bit 8 vec \<and> cpu_rip c = 0 \<and>
     \<not> bit (cr0 c) 0 \<and> \<not> bit (cr0 c) 31 \<and> \<not> bit (cr0 c) 16 \<and> \<not> bit (efer c) 8"

lemma code32: "code_desc 0x00CF9A000000FFFF" "\<not> bit (0x00CF9A000000FFFF :: u64) 53" "bit (0x00CF9A000000FFFF :: u64) 54"
  and data32: "data_desc 0x00CF92000000FFFF"
  and code64: "code_desc 0x00209a0000000000" "bit (0x00209a0000000000 :: u64) 53" "\<not> bit (0x00209a0000000000 :: u64) 54"
  and data64: "data_desc 0x0000920000000000"
  by (simp_all add: code_desc_def data_desc_def bit_iff_odd_drop_bit)

lemma entry16_run:
  assumes "after_sipi vec c"
  shows "entry16 l32 c = Some (c\<lparr>int_flag := False, ds := cs c, gdt := gdt_desc32, cr0 := cr0 c OR 1,
    cs := 0x08, cpu_mode := Prot32, cpu_rip := TRAMPOLINE_ADDR + l32\<rparr>)"
  using assms code32
  by (simp add: entry16_def after_sipi_def set_cr0_def ljmp_def desc_of_def gdt_desc32_def long_active_def
      bit_or_iff)

lemma entry32_run:
  assumes "cpu_mode c = Prot32" "gdt c = gdt_desc32" "bit (cr0 c) 0" "\<not> bit (cr0 c) 31"
  shows "\<exists>c'. entry32 l64 c = Some c' \<and> cpu_mode c' = Long64 \<and> cr3 c' = INITIAL_PML4T \<and> gdt c' = gdt_desc64 \<and>
    long_active c' \<and> int_flag c' = int_flag c \<and> (bit (cr0 c') 16 \<longleftrightarrow> bit (cr0 c) 16)"
proof -
  have seg: "load_data_seg 0x10 c" using assms(2) data32 by (simp add: load_data_seg_def desc_of_def gdt_desc32_def)
  let ?v = "(cr0 c OR push_bit 31 1) AND NOT (push_bit 30 1 OR push_bit 29 1) :: u32"
  have v: "bit ?v 31" "bit ?v 0" "bit ?v 16 = bit (cr0 c) 16" using assms(3) by (simp_all add: bit_simps)
  show ?thesis
    using assms seg code64 v
    by (simp add: entry32_def set_cr0_def ljmp_def desc_of_def gdt_desc64_def long_active_def Let_def bit_or_iff bit_simps)
qed

lemma start64_run:
  assumes "cpu_mode c = Long64" "gdt c = gdt_desc64" "cr3 c = INITIAL_PML4T" "boot_ready ent m bin n pm"
  shows "start64 pm c = Some (c\<lparr>ds := 0x18, ss := 0x18, cpu_rip := ent\<rparr>)"
proof -
  have "walk pm INITIAL_PML4T (TRAMPOLINE_ADDR + addr_slot) = Some (TRAMPOLINE_ADDR + addr_slot, True)"
    and "read64 pm (TRAMPOLINE_ADDR + addr_slot) = Some ent"
    using assms(4) by (simp_all add: boot_ready_def addr_slot_def TRAMPOLINE_ADDR_def)
  moreover have "load_data_seg 0x18 c"
    using assms(2) data64 by (simp add: load_data_seg_def desc_of_def gdt_desc64_def)
  ultimately show ?thesis using assms(1,3) by (simp add: start64_def translate_read_def)
qed

lemma boot16_run:
  assumes "after_sipi vec c" "boot_ready ent m bin n pm"
  shows "\<exists>c'. boot16 pm l32 l64 c = Some c' \<and> cpu_mode c' = Long64 \<and> cpu_rip c' = ent \<and> cr3 c' = INITIAL_PML4T \<and>
    long_active c' \<and> \<not> int_flag c' \<and> \<not> bit (cr0 c') 16"
proof -
  let ?c1 = "c\<lparr>int_flag := False, ds := cs c, gdt := gdt_desc32, cr0 := cr0 c OR 1,
    cs := 0x08, cpu_mode := Prot32, cpu_rip := TRAMPOLINE_ADDR + l32\<rparr>"
  have b: "bit (cr0 ?c1) 0" "\<not> bit (cr0 ?c1) 31" "\<not> bit (cr0 ?c1) 16"
    using assms(1) by (simp_all add: after_sipi_def bit_or_iff bit_1_iff)
  obtain c2 where c2: "entry32 l64 ?c1 = Some c2" "cpu_mode c2 = Long64" "cr3 c2 = INITIAL_PML4T"
    "gdt c2 = gdt_desc64" "long_active c2" "int_flag c2 = int_flag ?c1" "bit (cr0 c2) 16 \<longleftrightarrow> bit (cr0 ?c1) 16"
    using entry32_run [of ?c1 l64] b(1,2) by auto
  have "boot16 pm l32 l64 c = Some (c2\<lparr>ds := 0x18, ss := 0x18, cpu_rip := ent\<rparr>)"
    using entry16_run [OF assms(1)] c2(1) start64_run [OF c2(2,4,3) assms(2)] by (simp add: boot16_def)
  then show ?thesis using c2 b(3) by (simp add: long_active_def)
qed

end
