(* ===== verification/Interrupt_Controller.thy ===== *)
theory Interrupt_Controller
  imports Toshokan_Prelude
begin

text \<open>
  \<^verbatim>\<open>src/hakase/deprecated/interrupt.cc\<close>: the table of interrupt callbacks. A callback is a
  function pointer (\<open>None\<close> is the null pointer) with its argument. The channel from which vector
  numbers are read (\<^verbatim>\<open>I2H\<close>) and the code behind a function pointer are not part of the repository:
  \<^verbatim>\<open>OldRead\<close>, \<^verbatim>\<open>Return\<close> and the effect of a call are parameters. The result \<open>None\<close> of an operation is
  an access outside the table.
\<close>

section \<open>The table and its operations\<close>

definition kIntVectorNum :: int where "kIntVectorNum = 256"

definition kError :: int where "kError = - 1"

record ('f, 'a) IntCallback =
  callback :: "'f option"
  arg :: 'a

record ('f, 'a, 'c) InterruptController =
  i2h :: 'c
  callbacks :: "('f, 'a) IntCallback list"

definition in_table :: "int \<Rightarrow> ('f, 'a, 'c) InterruptController \<Rightarrow> bool" where
  "in_table v s \<longleftrightarrow> 0 \<le> v \<and> v < int (length (callbacks s))"

definition put_callback ::
  "int \<Rightarrow> 'f option \<Rightarrow> 'a \<Rightarrow> ('f, 'a, 'c) InterruptController \<Rightarrow> ('f, 'a, 'c) InterruptController" where
  "put_callback v f a s = s\<lparr>callbacks := (callbacks s)[nat v := \<lparr>callback = f, arg = a\<rparr>]\<rparr>"

definition ProcessInterrupt ::
  "('c \<Rightarrow> nat \<Rightarrow> int) \<Rightarrow> ('c \<Rightarrow> nat \<Rightarrow> 'c) \<Rightarrow>
   ('f \<Rightarrow> 'a \<Rightarrow> ('f, 'a, 'c) InterruptController \<Rightarrow> ('f, 'a, 'c) InterruptController) \<Rightarrow>
   ('f, 'a, 'c) InterruptController \<Rightarrow> (bool \<times> int \<times> ('f, 'a, 'c) InterruptController) option" where
  "ProcessInterrupt OldRead Return call s = (
     let vnum = OldRead (i2h s) 0;
         s = s\<lparr>i2h := Return (i2h s) 0\<rparr> in
     if \<not> in_table vnum s then None
     else case callback (callbacks s ! nat vnum) of
       Some f \<Rightarrow> Some (True, vnum, call f (arg (callbacks s ! nat vnum)) s)
     | None \<Rightarrow> Some (False, vnum, s))"

definition InterruptController_Init :: "('f, 'a, 'c) InterruptController \<Rightarrow> ('f, 'a, 'c) InterruptController" where
  "InterruptController_Init s = s\<lparr>callbacks := map (\<lambda>e. e\<lparr>callback := None\<rparr>) (callbacks s)\<rparr>"

function find_free :: "int \<Rightarrow> ('f, 'a, 'c) InterruptController \<Rightarrow> int" where
  "find_free vector s = (if vector < kIntVectorNum then
       (if callback (callbacks s ! nat vector) = None then vector else find_free (vector + 1) s)
     else kError)"
  by auto
termination
  by (relation "measure (\<lambda>(vector, s). nat (kIntVectorNum - vector))") auto

declare find_free.simps [simp del]

definition SetIntCallback ::
  "'f option \<Rightarrow> 'a \<Rightarrow> ('f, 'a, 'c) InterruptController \<Rightarrow> int \<times> ('f, 'a, 'c) InterruptController" where
  "SetIntCallback f a s = (let vector = find_free 32 s in
     if vector = kError then (kError, s) else (vector, put_callback vector f a s))"

definition SetExceptionCallback ::
  "int \<Rightarrow> 'f option \<Rightarrow> 'a \<Rightarrow> ('f, 'a, 'c) InterruptController \<Rightarrow> ('f, 'a, 'c) InterruptController option" where
  "SetExceptionCallback vector f a s = (if \<not> in_table vector s then None else Some (put_callback vector f a s))"

section \<open>The table as a partial function\<close>

text \<open>The array has 256 entries; what a client sees of it is which vectors have a callback.\<close>

definition table_ok :: "('f, 'a, 'c) InterruptController \<Rightarrow> bool" where
  "table_ok s \<longleftrightarrow> int (length (callbacks s)) = kIntVectorNum"

definition handler :: "('f, 'a, 'c) InterruptController \<Rightarrow> int \<Rightarrow> ('f \<times> 'a) option" where
  "handler s v = (if in_table v s then map_option (\<lambda>f. (f, arg (callbacks s ! nat v))) (callback (callbacks s ! nat v))
     else None)"

text \<open>
  An allocator of the numbers from \<open>lo\<close> to below \<open>hi\<close>: a registration takes the lowest free number
  or fails when there is none, and changes nothing else.
\<close>

fun register_all :: "('h \<Rightarrow> 's \<Rightarrow> int \<times> 's) \<Rightarrow> 'h list \<Rightarrow> 's \<Rightarrow> int list \<times> 's" where
  "register_all register [] s = ([], s)"
| "register_all register (h # hs) s =
     (let (r, s) = register h s; (rs, s) = register_all register hs s in (r # rs, s))"

definition table_of :: "int \<Rightarrow> 'h list \<Rightarrow> int \<Rightarrow> 'h option" where
  "table_of lo hs v = (if lo \<le> v \<and> v < lo + int (length hs) then Some (hs ! nat (v - lo)) else None)"

lemma table_of_append: "(table_of lo hs)(lo + int (length hs) \<mapsto> h) = table_of lo (hs @ [h])"
  by (auto simp: table_of_def fun_eq_iff nth_append)

locale vector_table =
  fixes ok :: "'s \<Rightarrow> bool"
    and view :: "'s \<Rightarrow> int \<Rightarrow> 'h option"
    and clear :: "'s \<Rightarrow> 's"
    and register :: "'h \<Rightarrow> 's \<Rightarrow> int \<times> 's"
    and lo hi :: int
  assumes lo_hi: "lo \<le> hi"
    and ok_clear: "ok s \<Longrightarrow> ok (clear s)"
    and view_clear: "ok s \<Longrightarrow> view (clear s) = Map.empty"
    and ok_register: "ok s \<Longrightarrow> ok (snd (register h s))"
    and register_free: "ok s \<Longrightarrow> lo \<le> v \<Longrightarrow> v < hi \<Longrightarrow> view s v = None \<Longrightarrow>
      \<forall>u. lo \<le> u \<and> u < v \<longrightarrow> view s u \<noteq> None \<Longrightarrow>
      fst (register h s) = v \<and> view (snd (register h s)) = (view s)(v \<mapsto> h)"
    and register_full: "ok s \<Longrightarrow> \<forall>u. lo \<le> u \<and> u < hi \<longrightarrow> view s u \<noteq> None \<Longrightarrow> register h s = (- 1, s)"
begin

lemma register_next:
  assumes "ok s" "view s = table_of lo hs" "lo + int (length hs) < hi"
  shows "fst (register h s) = lo + int (length hs)" "view (snd (register h s)) = table_of lo (hs @ [h])"
  using register_free [OF assms(1), of "lo + int (length hs)" h] assms(2,3)
  by (auto simp: table_of_def simp flip: table_of_append)

lemma register_none:
  assumes "ok s" "view s = table_of lo hs" "hi \<le> lo + int (length hs)"
  shows "register h s = (- 1, s)"
  using register_full [OF assms(1), of h] assms(2,3) by (simp add: table_of_def)

lemma register_all_full:
  assumes "ok s" "view s = table_of lo hs" "hi \<le> lo + int (length hs)"
  shows "register_all register xs s = (replicate (length xs) (- 1), s)"
  using register_none [OF assms] by (induction xs) auto

lemma register_all_from:
  assumes "ok s" "view s = table_of lo hs" "lo + int (length hs) \<le> hi"
  shows "fst (register_all register xs s) =
      map (\<lambda>i. let v = lo + int (length hs + i) in if v < hi then v else - 1) [0..<length xs] \<and>
    view (snd (register_all register xs s)) = table_of lo (take (nat (hi - lo)) (hs @ xs)) \<and>
    ok (snd (register_all register xs s))"
  using assms
proof (induction xs arbitrary: s hs)
  case Nil
  then show ?case by simp
next
  case (Cons x xs)
  show ?case
  proof (cases "lo + int (length hs) < hi")
    case True
    obtain r s' where r: "register x s = (r, s')" by force
    have "r = lo + int (length hs)" "view s' = table_of lo (hs @ [x])" "ok s'"
      using register_next [OF Cons.prems(1,2) True, of x] ok_register [OF Cons.prems(1), of x] r by simp_all
    then show ?thesis
      using Cons.IH [of s' "hs @ [x]"] True r
      by (simp add: split_beta map_upt_Suc ac_simps del: upt_Suc)
  next
    case False
    then have "hi \<le> lo + int (length hs)" by simp
    then show ?thesis
      using register_all_full [OF Cons.prems(1,2), of "x # xs"] Cons.prems
      by (auto simp: Let_def map_replicate_const simp del: upt_Suc register_all.simps)
  qed
qed

lemma register_all_clear:
  assumes "ok s"
  shows "fst (register_all register xs (clear s)) = map (\<lambda>i. if lo + int i < hi then lo + int i else - 1) [0..<length xs]"
    and "view (snd (register_all register xs (clear s))) = table_of lo (take (nat (hi - lo)) xs)"
    and "ok (snd (register_all register xs (clear s)))"
  using register_all_from [OF ok_clear [OF assms], of "[]" xs] view_clear [OF assms] lo_hi
  by (simp_all add: table_of_def fun_eq_iff Let_def)

end

section \<open>The controller is such a table\<close>

lemma find_free_at:
  "v \<le> kIntVectorNum \<Longrightarrow> w \<le> v \<Longrightarrow> \<forall>u. w \<le> u \<and> u < v \<longrightarrow> callback (callbacks s ! nat u) \<noteq> None \<Longrightarrow>
   v < kIntVectorNum \<longrightarrow> callback (callbacks s ! nat v) = None \<Longrightarrow>
   find_free w s = (if v < kIntVectorNum then v else kError)"
proof (induction w s rule: find_free.induct)
  case (1 w s)
  show ?case
  proof (cases "w = v")
    case True
    then show ?thesis using 1 by (subst find_free.simps) auto
  next
    case False
    then have "w < v" "callback (callbacks s ! nat w) \<noteq> None" using "1.prems" by auto
    then show ?thesis using 1 by (subst find_free.simps) auto
  qed
qed

lemma handler_callback:
  "table_ok s \<Longrightarrow> 0 \<le> v \<Longrightarrow> v < kIntVectorNum \<Longrightarrow> handler s v = None \<longleftrightarrow> callback (callbacks s ! nat v) = None"
  by (simp add: handler_def in_table_def table_ok_def)

lemma handler_put:
  "table_ok s \<Longrightarrow> 0 \<le> v \<Longrightarrow> v < kIntVectorNum \<Longrightarrow> handler (put_callback v (Some f) a s) = (handler s)(v \<mapsto> (f, a))"
  by (auto simp: handler_def in_table_def table_ok_def put_callback_def fun_eq_iff nth_list_update)

abbreviation SetIntHandler where "SetIntHandler \<equiv> \<lambda>(f, a). SetIntCallback (Some f) a"

interpretation ic: vector_table table_ok handler InterruptController_Init SetIntHandler 32 kIntVectorNum
proof unfold_locales
  fix s :: "('a, 'b, 'c) InterruptController" and h :: "'a \<times> 'b" and v
  assume ok: "table_ok s"
  show "table_ok (InterruptController_Init s)" using ok by (simp add: table_ok_def InterruptController_Init_def)
  show "handler (InterruptController_Init s) = Map.empty"
    by (auto simp: handler_def InterruptController_Init_def in_table_def fun_eq_iff)
  show "table_ok (snd (SetIntHandler h s))"
    using ok by (cases h) (simp add: table_ok_def SetIntCallback_def put_callback_def Let_def)
  show "fst (SetIntHandler h s) = v \<and> handler (snd (SetIntHandler h s)) = (handler s)(v \<mapsto> h)"
    if v: "32 \<le> v" "v < kIntVectorNum" "handler s v = None" "\<forall>u. 32 \<le> u \<and> u < v \<longrightarrow> handler s u \<noteq> None"
  proof -
    have "find_free 32 s = v" using v ok by (subst find_free_at [of v]) (auto simp: handler_callback)
    then show ?thesis using v ok by (cases h) (simp add: SetIntCallback_def kError_def handler_put)
  qed
  show "SetIntHandler h s = (- 1, s)" if "\<forall>u. 32 \<le> u \<and> u < kIntVectorNum \<longrightarrow> handler s u \<noteq> None"
    using that ok find_free_at [of kIntVectorNum 32 s]
    by (cases h) (simp add: SetIntCallback_def kError_def handler_callback kIntVectorNum_def)
qed (simp add: kIntVectorNum_def)

lemma ProcessInterrupt_handler:
  assumes "table_ok s" "OldRead (i2h s) 0 = v" "0 \<le> v" "v < kIntVectorNum"
  shows "ProcessInterrupt OldRead Return call s = (let s' = s\<lparr>i2h := Return (i2h s) 0\<rparr> in
    case handler s v of Some (f, a) \<Rightarrow> Some (True, v, call f a s') | None \<Rightarrow> Some (False, v, s'))"
  using assms by (simp add: ProcessInterrupt_def handler_def in_table_def table_ok_def Let_def split: option.splits)

text \<open>
  C36: Interrupt callbacks are allocated and dispatched. Registered one after the other on a fresh
  controller, callbacks get the vectors 32, 33, ... in order, and kError once the 224 vectors are
  used up; an interrupt with an allocated vector is acknowledged and runs the callback that was
  given that vector, with its argument, and any other vector of the table is acknowledged and
  reported as having no callback.\<close>

theorem callbacks_dispatched:
  assumes "table_ok s"
    "register_all (\<lambda>(f, a). SetIntCallback (Some f) a) hs (InterruptController_Init s) = (rs, s')"
    "OldRead (i2h s') 0 = v" "0 \<le> v" "v < kIntVectorNum"
  shows "rs = map (\<lambda>i. if i < 224 then 32 + int i else kError) [0..<length hs] \<and>
    ProcessInterrupt OldRead Return call s' =
      (if 32 \<le> v \<and> v < 32 + int (min 224 (length hs))
       then Some (True, v, call (fst (hs ! nat (v - 32))) (snd (hs ! nat (v - 32))) (s'\<lparr>i2h := Return (i2h s') 0\<rparr>))
       else Some (False, v, s'\<lparr>i2h := Return (i2h s') 0\<rparr>))"
proof
  note r = ic.register_all_clear [OF assms(1), of hs, unfolded assms(2), simplified]
  show "rs = map (\<lambda>i. if i < 224 then 32 + int i else kError) [0..<length hs]"
    using r(1) by (auto simp: kIntVectorNum_def kError_def)
  show "ProcessInterrupt OldRead Return call s' = (if 32 \<le> v \<and> v < 32 + int (min 224 (length hs))
       then Some (True, v, call (fst (hs ! nat (v - 32))) (snd (hs ! nat (v - 32))) (s'\<lparr>i2h := Return (i2h s') 0\<rparr>))
       else Some (False, v, s'\<lparr>i2h := Return (i2h s') 0\<rparr>))"
    using ProcessInterrupt_handler [of s' OldRead v Return call] r(2,3) assms(3-5)
    by (auto simp: table_of_def kIntVectorNum_def Let_def split_beta)
qed

lemma i2h_register_all: "i2h (snd (register_all SetIntHandler hs s)) = i2h s"
proof (induction hs arbitrary: s)
  case (Cons h hs)
  then show ?case by (cases h) (simp add: split_beta SetIntCallback_def put_callback_def Let_def)
qed simp

definition demo_controller :: "(string, nat, int) InterruptController" where
  "demo_controller = \<lparr>i2h = 33, callbacks = replicate 256 \<lparr>callback = Some ''stale'', arg = 0\<rparr>\<rparr>"

text \<open>Witness: two callbacks, and an interrupt with the vector of the second.\<close>

theorem callbacks_dispatched_witness:
  "\<exists>rs s'. register_all (\<lambda>(f, a). SetIntCallback (Some f) a) [(''timer'', 1), (''disk'', 2)]
       (InterruptController_Init demo_controller) = (rs, s') \<and> rs = [32, 33] \<and>
     ProcessInterrupt (\<lambda>c _. c) (\<lambda>c _. 0) (\<lambda>f a s. if f = ''disk'' then s\<lparr>i2h := int a\<rparr> else s) s' =
       Some (True, 33, s'\<lparr>i2h := 2\<rparr>)"
proof -
  let ?hs = "[(''timer'', 1), (''disk'', 2)] :: (string \<times> nat) list"
  obtain rs s' where run: "register_all SetIntHandler ?hs (InterruptController_Init demo_controller) = (rs, s')"
    by (cases "register_all SetIntHandler ?hs (InterruptController_Init demo_controller)")
  have "i2h s' = 33"
    using i2h_register_all [of ?hs "InterruptController_Init demo_controller"] run
    by (simp add: InterruptController_Init_def demo_controller_def)
  then show ?thesis
    using callbacks_dispatched [OF _ run, of "\<lambda>c _. c" 33 "\<lambda>c _. 0"
      "\<lambda>f a s. if f = ''disk'' then s\<lparr>i2h := int a\<rparr> else s"] run
    by (simp add: table_ok_def demo_controller_def kIntVectorNum_def upt_rec)
qed

end
