(* ===== verification/Memory_Fields.thy ===== *)
theory Memory_Fields
  imports Word_Memory
begin

text \<open>
  Structures in memory: fields of different widths stored one after the other, and what is read
  back from them.
\<close>

section \<open>Consecutive fields in memory\<close>

fun store_fields :: "mem \<Rightarrow> addr \<Rightarrow> (nat \<times> u64) list \<Rightarrow> mem option" where
  "store_fields m a [] = Some m"
| "store_fields m a ((n, v) # fs) = do { m \<leftarrow> write_le n m a v; store_fields m (a + of_nat n) fs }"

fun read_fields :: "mem \<Rightarrow> addr \<Rightarrow> nat list \<Rightarrow> u64 list option" where
  "read_fields m a [] = Some []"
| "read_fields m a (n # ns) = do { v \<leftarrow> read_le n m a; vs \<leftarrow> read_fields m (a + of_nat n) ns; Some (v # vs) }"

abbreviation fields_len :: "(nat \<times> u64) list \<Rightarrow> nat" where "fields_len fs \<equiv> sum_list (map fst fs)"

lemma region_split: "n + k \<le> 2 ^ 64 \<Longrightarrow> region a (n + k) = region a n \<union> region (a + of_nat n) k"
proof (induction n arbitrary: a)
  case (Suc n)
  then show ?case by (simp add: region_Suc ac_simps Un_assoc)
qed simp

lemma region_after: "n + k \<le> 2 ^ 64 \<Longrightarrow> region a n \<inter> region (a + of_nat n) k = {}"
proof (rule ccontr)
  assume le: "n + k \<le> 2 ^ 64" and "region a n \<inter> region (a + of_nat n) k \<noteq> {}"
  then obtain x where x: "unat (x - a) < n" "unat (x - (a + of_nat n)) < k" by (auto simp: in_region_iff)
  have n: "n < 2 ^ 64" using le x(2) by simp
  then have un: "unat (of_nat n :: u64) = n" by (simp add: unat_of_nat take_bit_nat_eq_self)
  have "unat (d - of_nat n) = 2 ^ 64 + unat d - n" if "unat d < n" for d :: u64
    using that un by (simp add: unat_sub_if')
  from this [OF x(1)] show False using x le by (simp add: diff_diff_add)
qed

lemma store_fields_frame: "store_fields m a fs = Some m' \<Longrightarrow> fields_len fs \<le> 2 ^ 64 \<Longrightarrow>
    x \<notin> region a (fields_len fs) \<Longrightarrow> m' x = m x"
proof (induction fs arbitrary: m a)
  case (Cons f fs)
  obtain n v where f: "f = (n, v)" by (cases f)
  obtain m1 where m1: "write_le n m a v = Some m1" "store_fields m1 (a + of_nat n) fs = Some m'"
    using Cons.prems(1) by (auto simp: f bind_eq_Some_conv)
  have "region a (fields_len (f # fs)) = region a n \<union> region (a + of_nat n) (fields_len fs)"
    using Cons.prems(2) f by (simp add: region_split)
  then show ?case
    using Cons.IH [OF m1(2)] write_le_frame [OF m1(1)] Cons.prems(2,3) f by simp
qed simp

lemma store_fields_dom: "store_fields m a fs = Some m' \<Longrightarrow> dom m' = dom m"
proof (induction fs arbitrary: m a)
  case (Cons f fs)
  obtain n v where f: "f = (n, v)" by (cases f)
  obtain m1 where m1: "write_le n m a v = Some m1" "store_fields m1 (a + of_nat n) fs = Some m'"
    using Cons.prems by (auto simp: f bind_eq_Some_conv)
  show ?case using Cons.IH [OF m1(2)] write_le_dom [OF m1(1)] by simp
qed simp

lemma store_fields_defined: "region a (fields_len fs) \<subseteq> dom m \<Longrightarrow> fields_len fs \<le> 2 ^ 64 \<Longrightarrow>
    \<exists>m'. store_fields m a fs = Some m'"
proof (induction fs arbitrary: m a)
  case (Cons f fs)
  obtain n v where f: "f = (n, v)" by (cases f)
  have s: "region a n \<subseteq> dom m" "region (a + of_nat n) (fields_len fs) \<subseteq> dom m"
    using Cons.prems f region_split [of n "fields_len fs" a] by auto
  obtain m1 where m1: "write_le n m a v = Some m1" using write_le_defined [OF s(1)] by blast
  then show ?case using Cons.IH [of "a + of_nat n" m1] Cons.prems(2) s(2) write_le_dom [OF m1] f by simp
qed simp

lemma read_fields_stored: "store_fields m a fs = Some m' \<Longrightarrow> fields_len fs \<le> 2 ^ 64 \<Longrightarrow> \<forall>f \<in> set fs. fst f \<le> 8 \<Longrightarrow>
    read_fields m' a (map fst fs) = Some (map (\<lambda>(n, v). take_bit (8 * n) v) fs)"
proof (induction fs arbitrary: m a)
  case (Cons f fs)
  obtain n v where f: "f = (n, v)" by (cases f)
  obtain m1 where m1: "write_le n m a v = Some m1" "store_fields m1 (a + of_nat n) fs = Some m'"
    using Cons.prems(1) by (auto simp: f bind_eq_Some_conv)
  have len: "fields_len fs \<le> 2 ^ 64" "n + fields_len fs \<le> 2 ^ 64" using Cons.prems(2) f by simp_all
  have "read_le n m' a = read_le n m1 a"
    using store_fields_frame [OF m1(2) len(1)] region_after [OF len(2), of a] by (intro read_le_cong) auto
  then show ?case
    using read_le_write_le_same [OF _ m1(1)] Cons.IH [OF m1(2)] Cons.prems(3) len f by simp
qed simp

lemma read_le_add: "read_le (n + k) m a =
    do { x \<leftarrow> read_le n m a; y \<leftarrow> read_le k m (a + of_nat n); Some (x OR push_bit (8 * n) y) }"
proof (induction n arbitrary: a)
  case (Suc n)
  have "push_bit 8 (x OR push_bit (8 * n) y) = push_bit 8 x OR push_bit (8 + 8 * n) y" for x y :: u64
    by (rule bit_eqI) (auto simp: bit_simps)
  then show ?case
    using Suc by (cases "m a"; cases "read_le n m (a + 1)"; cases "read_le k m (a + 1 + of_nat n)")
      (simp_all add: ac_simps or.assoc)
qed simp

end
