(* ===== verification/Exceptions.thy ===== *)
theory Exceptions
  imports Memory_Fields X86_Code Boot16
begin

text \<open>
  Exceptions as the tutorials handle them (\<^verbatim>\<open>src/tutorial/interrupt\<close>, \<^verbatim>\<open>src/tutorial/paging/pagefault\<close>
  and \<^verbatim>\<open>src/tutorial/paging/copy_on_write\<close>): the interrupt descriptor table that
  \<^verbatim>\<open>setup_inthandler\<close> builds in memory, the processor's side of it (delivery of an exception, return
  by \<^verbatim>\<open>iretq\<close>), and the entry code of the handlers (\<^verbatim>\<open>int.S\<close>).
\<close>

section \<open>The interrupt descriptor table\<close>

text \<open>
  \<^verbatim>\<open>setup_inthandler\<close> fills the entry of vector \<open>n\<close> (0 in the interrupt tutorials, 14 in the paging
  tutorials) and the operand of \<^verbatim>\<open>lidt\<close>; \<open>idt\<close> and \<open>idtr\<close> are the addresses of the two variables.
  Assignments to the 32-bit and 16-bit fields keep the low bits of the 64-bit expressions.
\<close>

definition idt_entry :: "addr \<Rightarrow> (nat \<times> u64) list" where
  "idt_entry vaddr = [
     (4, (vaddr AND 0xFFFF) OR push_bit 16 0x10),
     (4, (vaddr AND 0xFFFF0000) OR push_bit 8 0xE OR push_bit 15 1),
     (4, drop_bit 32 vaddr),
     (4, 0)]"

definition idtr_operand :: "addr \<Rightarrow> (nat \<times> u64) list" where
  "idtr_operand idt_addr = [
     (2, 0x10 * 64 - 1),
     (2, idt_addr AND 0xffff),
     (2, drop_bit 16 idt_addr AND 0xffff),
     (2, drop_bit 32 idt_addr AND 0xffff),
     (2, drop_bit 48 idt_addr AND 0xffff)]"

definition setup_inthandler :: "nat \<Rightarrow> addr \<Rightarrow> addr \<Rightarrow> addr \<Rightarrow> mem \<Rightarrow> mem option" where
  "setup_inthandler n idt idtr handler m = do {
     m \<leftarrow> store_fields m (idt + 16 * of_nat n) (idt_entry handler);
     store_fields m idtr (idtr_operand idt) }"

text \<open>The processor's side: the operand of \<^verbatim>\<open>lidt\<close> and a 16-byte gate.\<close>

record gate =
  gate_offset :: u64
  gate_selector :: u16
  gate_ist :: u64
  gate_type :: u64
  gate_system :: bool
  gate_dpl :: u64
  gate_present :: bool

definition decode_gate :: "u64 \<Rightarrow> u64 \<Rightarrow> gate" where
  "decode_gate lo hi = \<lparr>
     gate_offset = take_bit 16 lo OR push_bit 16 (drop_bit 48 lo) OR push_bit 32 (take_bit 32 hi),
     gate_selector = ucast (drop_bit 16 lo),
     gate_ist = take_bit 3 (drop_bit 32 lo),
     gate_type = take_bit 4 (drop_bit 40 lo),
     gate_system = (\<not> bit lo 44),
     gate_dpl = take_bit 2 (drop_bit 45 lo),
     gate_present = bit lo 47\<rparr>"

definition load_idtr :: "mem \<Rightarrow> addr \<Rightarrow> (u64 \<times> addr) option" where
  "load_idtr m a = do { limit \<leftarrow> read16 m a; base \<leftarrow> read64 m (a + 2); Some (limit, base) }"

definition load_gate :: "mem \<Rightarrow> u64 \<times> addr \<Rightarrow> nat \<Rightarrow> gate option" where
  "load_gate m idtr n = (if 16 * of_nat n + 15 > fst idtr then None else do {
     lo \<leftarrow> read64 m (snd idtr + 16 * of_nat n);
     hi \<leftarrow> read64 m (snd idtr + 16 * of_nat n + 8);
     Some (decode_gate lo hi) })"

definition interrupt_gate :: "addr \<Rightarrow> gate" where
  "interrupt_gate vaddr = \<lparr>gate_offset = vaddr, gate_selector = 0x10, gate_ist = 0, gate_type = 0xE,
     gate_system = True, gate_dpl = 0, gate_present = True\<rparr>"

lemma gate_bits:
  fixes v :: u64
  defines "lo \<equiv> take_bit 32 ((v AND 0xFFFF) OR push_bit 16 0x10) OR
       push_bit 32 (take_bit 32 ((v AND 0xFFFF0000) OR push_bit 8 0xE OR push_bit 15 1))"
  shows "bit lo k \<longleftrightarrow> k < 16 \<and> bit v k \<or> k \<in> {20, 41, 42, 43, 47} \<or> 48 \<le> k \<and> k < 64 \<and> bit v (k - 32)"
proof -
  have c: "(0xFFFF :: u64) = mask 16" "(0xFFFF0000 :: u64) = push_bit 16 (mask 16)"
    "push_bit 16 0x10 = (push_bit 20 1 :: u64)" "push_bit 8 0xE = (push_bit 9 1 OR push_bit 10 1 OR push_bit 11 1 :: u64)"
    by (simp_all add: mask_eq_exp_minus_1)
  have one: "bit (push_bit n 1 :: u64) k \<longleftrightarrow> k = n \<and> n < 64" for n k by (auto simp: bit_simps)
  have a: "bit ((v AND mask 16) OR push_bit 20 1) k \<longleftrightarrow> k < 16 \<and> bit v k \<or> k = 20" for k
    unfolding bit_or_iff bit_and_iff bit_mask_iff one by auto
  have b: "bit ((v AND push_bit 16 (mask 16)) OR (push_bit 9 1 OR push_bit 10 1 OR push_bit 11 1) OR push_bit 15 1) k \<longleftrightarrow>
      16 \<le> k \<and> k < 32 \<and> bit v k \<or> k \<in> {9, 10, 11, 15}" for k
    unfolding bit_or_iff bit_and_iff one bit_push_bit_iff [of 16] bit_mask_iff by auto
  have k: "bit lo k \<longleftrightarrow> k < 32 \<and> (k < 16 \<and> bit v k \<or> k = 20) \<or>
     32 \<le> k \<and> k < 64 \<and> (16 \<le> k - 32 \<and> k - 32 < 32 \<and> bit v (k - 32) \<or> k - 32 \<in> {9, 10, 11, 15})"
    unfolding lo_def c bit_or_iff [of "take_bit 32 _"] bit_take_bit_iff bit_push_bit_iff [of 32] a b by auto
  show ?thesis
  proof (cases "k < 32")
    case True then show ?thesis unfolding k by auto
  next
    case False
    then obtain j where "k = j + 32" by (metis le_add_diff_inverse2 not_less)
    then show ?thesis unfolding k by auto
  qed
qed

lemma decode_bits:
  fixes v lo :: u64
  assumes lo: "\<And>k. bit lo k \<longleftrightarrow> k < 16 \<and> bit v k \<or> k \<in> {20, 41, 42, 43, 47} \<or> 48 \<le> k \<and> k < 64 \<and> bit v (k - 32)"
  shows "take_bit 16 lo OR push_bit 16 (drop_bit 48 lo) OR push_bit 32 (take_bit 32 (take_bit 32 (drop_bit 32 v))) = v"
    and "(ucast (drop_bit 16 lo) :: u16) = 0x10" "take_bit 3 (drop_bit 32 lo) = 0" "take_bit 4 (drop_bit 40 lo) = 0xE"
    "take_bit 2 (drop_bit 45 lo) = 0" "\<not> bit lo 44" "bit lo 47"
proof -
  show "take_bit 16 lo OR push_bit 16 (drop_bit 48 lo) OR push_bit 32 (take_bit 32 (take_bit 32 (drop_bit 32 v))) = v"
  proof (rule bit_word_eqI)
    fix n assume "n < LENGTH(64)"
    then have n: "n < 64" by simp
    then show "bit (take_bit 16 lo OR push_bit 16 (drop_bit 48 lo) OR push_bit 32 (take_bit 32 (take_bit 32 (drop_bit 32 v)))) n =
        bit v n"
      by (cases "n < 16"; cases "n < 32") (auto simp: bit_or_iff bit_take_bit_iff bit_push_bit_iff bit_drop_bit_eq lo)
  qed
  have e: "(0x10 :: u16) = push_bit 4 1" "(0xE :: u64) = push_bit 1 1 OR push_bit 2 1 OR push_bit 3 1" by simp_all
  have one: "bit (push_bit 4 1 :: u16) n \<longleftrightarrow> n = 4" "bit (push_bit 1 1 :: u64) n \<longleftrightarrow> n = 1"
    "bit (push_bit 2 1 :: u64) n \<longleftrightarrow> n = 2" "bit (push_bit 3 1 :: u64) n \<longleftrightarrow> n = 3" for n
    by (simp_all only: bit_push_bit_iff bit_1_iff) auto
  show "(ucast (drop_bit 16 lo) :: u16) = 0x10"
    unfolding e by (rule bit_eqI, unfold one) (auto simp: bit_simps lo)
  show "take_bit 4 (drop_bit 40 lo) = 0xE"
    unfolding e by (rule bit_eqI, unfold bit_or_iff one) (auto simp: bit_simps lo)
  show "take_bit 3 (drop_bit 32 lo) = 0" "take_bit 2 (drop_bit 45 lo) = 0"
    by (rule bit_eqI; auto simp: bit_simps lo)+
  show "\<not> bit lo 44" "bit lo 47" by (simp_all add: lo)
qed

lemma decode_idt_entry:
  "decode_gate (take_bit 32 ((v AND 0xFFFF) OR push_bit 16 0x10) OR
       push_bit 32 (take_bit 32 ((v AND 0xFFFF0000) OR push_bit 8 0xE OR push_bit 15 1)))
     (take_bit 32 (drop_bit 32 v)) = interrupt_gate v"
  unfolding decode_gate_def interrupt_gate_def
  by (simp only: decode_bits [OF gate_bits] simp_thms)

lemma split_base:
  "take_bit 16 (a AND 0xffff) OR push_bit 16 (take_bit 16 (drop_bit 16 a AND 0xffff) OR
     push_bit 16 (take_bit 16 (drop_bit 32 a AND 0xffff) OR push_bit 16 (take_bit 16 (drop_bit 48 a AND 0xffff)))) = a"
  for a :: u64
proof (rule bit_word_eqI)
  fix n assume "n < LENGTH(64)"
  then have n: "n < 64" by simp
  have c: "(0xffff :: u64) = mask 16" by (simp add: mask_eq_exp_minus_1)
  show "bit (take_bit 16 (a AND 0xffff) OR push_bit 16 (take_bit 16 (drop_bit 16 a AND 0xffff) OR
     push_bit 16 (take_bit 16 (drop_bit 32 a AND 0xffff) OR push_bit 16 (take_bit 16 (drop_bit 48 a AND 0xffff))))) n = bit a n"
    unfolding c using n by (cases "n < 16"; cases "n < 32"; cases "n < 48")
      (auto simp: bit_or_iff bit_take_bit_iff bit_push_bit_iff bit_drop_bit_eq bit_and_iff bit_mask_iff)
qed

text \<open>What the processor reads of the two structures once they are in memory.\<close>

lemma fields_idtr:
  "read_fields m a [2, 2, 2, 2, 2] = Some [l, b0, b1, b2, b3] \<Longrightarrow>
   load_idtr m a = Some (l, b0 OR push_bit 16 (b1 OR push_bit 16 (b2 OR push_bit 16 b3)))"
  using read_le_add [of 2 6 m "a + 2"] read_le_add [of 2 4 m "a + 4"] read_le_add [of 2 2 m "a + 6"]
  by (auto simp: load_idtr_def bind_eq_Some_conv ac_simps)

lemma fields_gate:
  "read_fields m a [4, 4, 4, 4] = Some [w0, w1, w2, w3] \<Longrightarrow>
   read64 m a = Some (w0 OR push_bit 32 w1) \<and> read64 m (a + 8) = Some (w2 OR push_bit 32 w3)"
  using read_le_add [of 4 4 m a] read_le_add [of 4 4 m "a + 8"]
  by (auto simp: bind_eq_Some_conv ac_simps)

lemma load_idtr_stored:
  assumes "store_fields m a (idtr_operand idt) = Some m'"
  shows "load_idtr m' a = Some (0x3FF, idt)"
proof -
  have "read_fields m' a (map fst (idtr_operand idt)) = Some (map (\<lambda>(n, v). take_bit (8 * n) v) (idtr_operand idt))"
    using assms by (rule read_fields_stored) (auto simp: idtr_operand_def)
  then have "load_idtr m' a = Some (take_bit (8 * 2) (0x10 * 64 - 1), take_bit (8 * 2) (idt AND 0xffff) OR
      push_bit 16 (take_bit (8 * 2) (drop_bit 16 idt AND 0xffff) OR push_bit 16 (take_bit (8 * 2) (drop_bit 32 idt AND 0xffff) OR
      push_bit 16 (take_bit (8 * 2) (drop_bit 48 idt AND 0xffff)))))"
    unfolding idtr_operand_def list.map prod.case fst_conv by (rule fields_idtr)
  then show ?thesis using split_base [of idt] by simp
qed

lemma load_gate_stored:
  assumes "store_fields m (base + 16 * of_nat n) (idt_entry v) = Some m'" "16 * of_nat n + 15 \<le> limit"
  shows "load_gate m' (limit, base) n = Some (interrupt_gate v)"
proof -
  let ?a = "base + 16 * of_nat n"
  let ?w0 = "(v AND 0xFFFF) OR push_bit 16 0x10" and ?w1 = "(v AND 0xFFFF0000) OR push_bit 8 0xE OR push_bit 15 1"
  have "read_fields m' ?a (map fst (idt_entry v)) = Some (map (\<lambda>(n, v). take_bit (8 * n) v) (idt_entry v))"
    using assms(1) by (rule read_fields_stored) (auto simp: idt_entry_def)
  then have "read64 m' ?a = Some (take_bit (8 * 4) ?w0 OR push_bit 32 (take_bit (8 * 4) ?w1)) \<and>
      read64 m' (?a + 8) = Some (take_bit (8 * 4) (drop_bit 32 v) OR push_bit 32 (take_bit (8 * 4) 0))"
    unfolding idt_entry_def list.map prod.case fst_conv by (rule fields_gate)
  moreover have "decode_gate (take_bit (8 * 4) ?w0 OR push_bit 32 (take_bit (8 * 4) ?w1))
      (take_bit (8 * 4) (drop_bit 32 v) OR push_bit 32 (take_bit (8 * 4) 0)) = interrupt_gate v"
    using decode_idt_entry [of v] by simp
  ultimately show ?thesis using assms(2) by (simp only: load_gate_def fst_conv snd_conv bind.bind_lunit not_less if_True if_False leD)
qed

section \<open>The stack\<close>

primrec push_words :: "u64 list \<Rightarrow> mach \<Rightarrow> mach option" where
  "push_words [] s = Some s"
| "push_words (v # vs) s = do { s \<leftarrow> push_word v s; push_words vs s }"

primrec stack_at :: "mem \<Rightarrow> addr \<Rightarrow> u64 list \<Rightarrow> bool" where
  "stack_at m a [] = True"
| "stack_at m a (w # ws) = (read64 m a = Some w \<and> stack_at m (a + 8) ws)"

text \<open>The \<open>n\<close> words below the address \<open>sp\<close>.\<close>

primrec slots :: "addr \<Rightarrow> nat \<Rightarrow> addr set" where
  "slots sp 0 = {}"
| "slots sp (Suc n) = insert (sp - 8) (slots (sp - 8) n)"

definition room :: "mem \<Rightarrow> addr \<Rightarrow> nat \<Rightarrow> bool" where
  "room m sp n \<longleftrightarrow> aligned8 sp \<and> (\<forall>a \<in> slots sp n. read64 m a \<noteq> None)"

definition same_words :: "addr set \<Rightarrow> mem \<Rightarrow> mem \<Rightarrow> bool" where
  "same_words A m m' \<longleftrightarrow> (\<forall>a. aligned8 a \<longrightarrow> (a \<notin> A \<longrightarrow> read64 m' a = read64 m a) \<and>
     (read64 m a \<noteq> None \<longrightarrow> read64 m' a \<noteq> None))"

lemma same_words_refl [simp]: "same_words A m m"
  by (simp add: same_words_def)

lemma same_words_trans: "same_words A m m' \<Longrightarrow> same_words B m' m'' \<Longrightarrow> A \<union> B \<subseteq> C \<Longrightarrow> same_words C m m''"
  unfolding same_words_def by (metis UnCI subsetD)

lemma slots_add: "slots sp (n + k) = slots sp n \<union> slots (sp - 8 * of_nat n) k"
  by (induction n arbitrary: sp) (auto simp: algebra_simps)

lemma slots_mono: "n \<le> k \<Longrightarrow> slots sp n \<subseteq> slots sp k"
  using slots_add [of sp n "k - n"] by auto

lemma slots_aligned: "aligned8 sp \<Longrightarrow> a \<in> slots sp n \<Longrightarrow> aligned8 a"
proof (induction n arbitrary: sp)
  case (Suc n)
  then show ?case using aligned8_diff8 [OF Suc.prems(1)] by auto
qed simp

lemma slots_iff: "a \<in> slots sp n \<longleftrightarrow> (\<exists>k < n. a = sp - 8 * of_nat (Suc k))"
proof (induction n arbitrary: sp)
  case (Suc n)
  show ?case
  proof
    assume "a \<in> slots sp (Suc n)"
    then consider "a = sp - 8" | k where "k < n" "a = sp - 8 - 8 * of_nat (Suc k)" using Suc by auto
    then show "\<exists>k < Suc n. a = sp - 8 * of_nat (Suc k)"
      by cases (auto intro: exI [of _ 0] exI [of _ "Suc _"] simp: algebra_simps)
  next
    assume "\<exists>k < Suc n. a = sp - 8 * of_nat (Suc k)"
    then obtain k where k: "k < Suc n" "a = sp - 8 * of_nat (Suc k)" by blast
    show "a \<in> slots sp (Suc n)"
    proof (cases k)
      case (Suc j)
      then have "j < n" "a = sp - 8 - 8 * of_nat (Suc j)" using k by (simp_all add: algebra_simps)
      then show ?thesis using Suc.IH by auto
    qed (use k in simp)
  qed
qed simp

lemma stack_at_iff: "stack_at m a ws \<longleftrightarrow> (\<forall>k < length ws. read64 m (a + 8 * of_nat k) = Some (ws ! k))"
proof (induction ws arbitrary: a)
  case (Cons w ws)
  have "a + 8 + 8 * of_nat k = a + 8 * of_nat (Suc k)" for k by (simp add: algebra_simps)
  then have "stack_at m a (w # ws) \<longleftrightarrow> read64 m a = Some w \<and> (\<forall>k < length ws. read64 m (a + 8 * of_nat (Suc k)) = Some (ws ! k))"
    using Cons.IH by (simp only: stack_at.simps)
  then show ?case by (simp add: All_less_Suc2)
qed simp

lemma aligned8_minus: "aligned8 sp \<Longrightarrow> aligned8 (sp - 8 * of_nat n)"
proof (induction n)
  case (Suc n)
  then show ?case using aligned8_diff8 [of "sp - 8 * of_nat n"] by (simp add: algebra_simps)
qed simp

lemma of_nat_8_eq: "j < 2 ^ 60 \<Longrightarrow> k < 2 ^ 60 \<Longrightarrow> 8 * of_nat j + 8 * of_nat k = (0 :: u64) \<Longrightarrow> j = 0 \<and> k = 0"
proof -
  assume "j < 2 ^ 60" "k < 2 ^ 60" "8 * of_nat j + 8 * of_nat k = (0 :: u64)"
  moreover have "unat (of_nat (8 * j + 8 * k) :: u64) = 8 * j + 8 * k" if "j < 2 ^ 60" "k < 2 ^ 60"
    using that by (simp only: unat_of_nat) (simp add: take_bit_nat_eq_self)
  moreover have "8 * of_nat j + 8 * of_nat k = (of_nat (8 * j + 8 * k) :: u64)" by simp
  ultimately show ?thesis by (metis add_is_0 mult_eq_0_iff unsigned_0 zero_neq_numeral)
qed

lemma stack_above: "k < 2 ^ 60 \<Longrightarrow> n < 2 ^ 60 \<Longrightarrow> sp + 8 * of_nat k \<notin> slots sp n"
proof
  assume *: "k < 2 ^ 60" "n < 2 ^ 60" "sp + 8 * of_nat k \<in> slots sp n"
  then obtain j where j: "j < n" "sp + 8 * of_nat k = sp - 8 * of_nat (Suc j)" by (auto simp: slots_iff)
  then have "8 * of_nat (Suc j) + 8 * of_nat k = (0 :: u64)" by (simp add: algebra_simps)
  then show False using of_nat_8_eq [of "Suc j" k] * j(1) by simp
qed

lemma room_after:
  assumes "room m sp (n + k)" "same_words A m m'"
  shows "room m' (sp - 8 * of_nat n) k"
proof -
  have "aligned8 (sp - 8 * of_nat n)" using assms(1) by (simp add: room_def aligned8_minus)
  then show ?thesis
    using assms slots_aligned [of "sp - 8 * of_nat n"] by (auto simp: room_def slots_add same_words_def)
qed

lemma stack_slots: "k < n \<Longrightarrow> sp - 8 * of_nat n + 8 * of_nat k \<in> slots sp n"
  by (auto simp: slots_iff algebra_simps of_nat_diff intro!: exI [of _ "n - Suc k"])

lemma stack_at_same: "same_words (slots sp n) m m' \<Longrightarrow> aligned8 sp \<Longrightarrow> n < 2 ^ 60 \<Longrightarrow> length ws < 2 ^ 60 \<Longrightarrow>
    stack_at m sp ws \<Longrightarrow> stack_at m' sp ws"
proof -
  assume *: "same_words (slots sp n) m m'" "aligned8 sp" "n < 2 ^ 60" "length ws < 2 ^ 60" "stack_at m sp ws"
  have "read64 m' (sp + 8 * of_nat k) = read64 m (sp + 8 * of_nat k)" if "k < length ws" for k
  proof -
    have "aligned8 (sp + 8 * of_nat k)"
      using *(2) by (intro aligned8_add) (simp_all add: aligned8_iff unat_word_ariths mod_mod_cancel)
    then show ?thesis using * stack_above [of k n sp] that by (simp add: same_words_def)
  qed
  then show ?thesis using *(5) by (simp add: stack_at_iff)
qed

lemma push_word_run:
  assumes "aligned8 (gpr s RSP)" "read64 (cmem s) (gpr s RSP - 8) \<noteq> None"
  obtains m where "push_word v s = Some (set_reg RSP (gpr s RSP - 8) (s\<lparr>cmem := m\<rparr>))"
    "same_words {gpr s RSP - 8} (cmem s) m" "read64 m (gpr s RSP - 8) = Some v"
proof -
  let ?a = "gpr s RSP - 8"
  have al: "aligned8 ?a" using assms(1) by (rule aligned8_diff8)
  obtain m where m: "write64 (cmem s) ?a v = Some m" using write_le_defined read64_mapped [OF assms(2)] by blast
  have "read64 m b = read64 (cmem s) b" if "aligned8 b" "b \<noteq> ?a" for b
    using read_le_write_le_disjoint [OF m] aligned8_disjoint [OF that(1) al that(2)] by simp
  then have "same_words {?a} (cmem s) m"
    using read64_write64_same [OF m] unfolding same_words_def by (metis insertI1 option.simps(3))
  then show ?thesis using m read64_write64_same [OF m] by (intro that) (simp_all add: push_word_def)
qed

lemma push_words_run:
  assumes "room (cmem s) (gpr s RSP) (length vs)" "length vs < 2 ^ 59" "length ws < 2 ^ 59" "stack_at (cmem s) (gpr s RSP) ws"
  obtains m where "push_words vs s = Some (set_reg RSP (gpr s RSP - 8 * of_nat (length vs)) (s\<lparr>cmem := m\<rparr>))"
    "same_words (slots (gpr s RSP) (length vs)) (cmem s) m" "stack_at m (gpr s RSP - 8 * of_nat (length vs)) (rev vs @ ws)"
proof -
  have "\<exists>m. push_words vs s = Some (set_reg RSP (gpr s RSP - 8 * of_nat (length vs)) (s\<lparr>cmem := m\<rparr>)) \<and>
    same_words (slots (gpr s RSP) (length vs)) (cmem s) m \<and> stack_at m (gpr s RSP - 8 * of_nat (length vs)) (rev vs @ ws)"
    if "room (cmem s) (gpr s RSP) (length vs)" "length vs + length ws < 2 ^ 60" "stack_at (cmem s) (gpr s RSP) ws"
    using that
  proof (induction vs arbitrary: s ws)
    case Nil
    then show ?case by (intro exI [of _ "cmem s"]) (simp add: set_reg_def)
  next
    case (Cons v vs)
    let ?sp = "gpr s RSP"
    have r: "aligned8 ?sp" "read64 (cmem s) (?sp - 8) \<noteq> None" using Cons.prems(1) by (simp_all add: room_def)
    obtain m where m: "push_word v s = Some (set_reg RSP (?sp - 8) (s\<lparr>cmem := m\<rparr>))"
      "same_words {?sp - 8} (cmem s) m" "read64 m (?sp - 8) = Some v"
      using push_word_run [OF r] by blast
    let ?s = "set_reg RSP (?sp - 8) (s\<lparr>cmem := m\<rparr>)"
    have "stack_at m ?sp ws"
      using stack_at_same [of ?sp 1 "cmem s" m ws] m(2) r(1) Cons.prems(2,3) by simp
    then have "stack_at m (?sp - 8) (v # ws)" using m(3) by simp
    moreover have "room m (?sp - 8) (length vs)"
      using room_after [of "cmem s" ?sp 1 "length vs" _ m] Cons.prems(1) m(2) by simp
    ultimately obtain m' where m': "push_words vs ?s = Some (set_reg RSP (?sp - 8 - 8 * of_nat (length vs)) (?s\<lparr>cmem := m'\<rparr>))"
      "same_words (slots (?sp - 8) (length vs)) m m'" "stack_at m' (?sp - 8 - 8 * of_nat (length vs)) (rev vs @ v # ws)"
      using Cons.IH [of ?s "v # ws"] Cons.prems(2) by (auto simp: set_reg_def)
    have "same_words (slots ?sp (length (v # vs))) (cmem s) m'"
      using m(2) m'(2) by (rule same_words_trans) simp
    then show ?case using m(1) m'(1,3) by (auto simp: set_reg_def algebra_simps)
  qed
  then show ?thesis using assms that by auto
qed

lemma exec_push:
  "RSP \<notin> set rs \<Longrightarrow> exec (map PushR rs) s = push_words (map (gpr s) rs) s"
proof (induction rs arbitrary: s)
  case (Cons r rs)
  have "exec (map PushR rs) s' = push_words (map (gpr s) rs) s'" if "push_word (gpr s r) s = Some s'" for s'
  proof -
    have "gpr s' q = gpr s q" if "q \<noteq> RSP" for q
      using \<open>push_word (gpr s r) s = Some s'\<close> that by (auto simp: push_word_def set_reg_def bind_eq_Some_conv)
    then have "map (gpr s') rs = map (gpr s) rs" using Cons.prems by (metis list.map_cong0 list.set_intros(2))
    moreover have "RSP \<notin> set rs" using Cons.prems by simp
    ultimately show ?thesis using Cons.IH [of s'] by metis
  qed
  then show ?case by (cases "push_word (gpr s r) s") auto
qed simp

lemma exec_pop:
  assumes "distinct rs" "RSP \<notin> set rs" "stack_at (cmem s) (gpr s RSP) (map g rs @ ws)"
  shows "exec (map PopR rs) s = Some (s\<lparr>gpr := \<lambda>r. if r = RSP then gpr s RSP + 8 * of_nat (length rs)
    else if r \<in> set rs then g r else gpr s r\<rparr>)"
  using assms
proof (induction rs arbitrary: s)
  case Nil
  have "s\<lparr>gpr := \<lambda>r. if r = RSP then gpr s RSP + 8 * of_nat (length ([] :: reg list)) else if r \<in> set [] then g r else gpr s r\<rparr> = s"
    by (rule mach.equality) auto
  then show ?case by (simp only: exec.simps list.map)
next
  case (Cons r rs)
  let ?s = "set_reg r (g r) (set_reg RSP (gpr s RSP + 8) s)"
  have "exec_instr (PopR r) s = Some ?s" using Cons.prems(3) by (simp add: pop_word_def)
  moreover have "exec (map PopR rs) ?s = Some (?s\<lparr>gpr := \<lambda>q. if q = RSP then gpr s RSP + 8 + 8 * of_nat (length rs)
    else if q \<in> set rs then g q else gpr ?s q\<rparr>)"
    using Cons.IH [of ?s] Cons.prems by (simp add: set_reg_def cong: if_cong)
  moreover have "(\<lambda>q. if q = RSP then gpr s RSP + 8 + 8 * of_nat (length rs) else if q \<in> set rs then g q else gpr ?s q) =
    (\<lambda>q. if q = RSP then gpr s RSP + 8 * of_nat (length (r # rs)) else if q \<in> set (r # rs) then g q else gpr s q)"
    using Cons.prems by (auto simp: set_reg_def fun_eq_iff algebra_simps)
  ultimately show ?case by (simp add: set_reg_def)
qed

section \<open>Delivery and return\<close>

text \<open>
  A processor in long mode: the machine state, the flags, the code and stack selectors, the two
  descriptor table registers and the translation buffer.
\<close>

record xcpu =
  xm :: mach
  xflags :: u64
  xcs :: u16
  xss :: u16
  xgdt :: "u64 list"
  xidtr :: "u64 \<times> addr"
  xtlb :: "u64 \<rightharpoonup> addr"

definition long_code :: "u64 list \<Rightarrow> u16 \<Rightarrow> bool" where
  "long_code g sel \<longleftrightarrow> (let i = unat (drop_bit 3 sel) in i < length g \<and> code_desc (g ! i) \<and> bit (g ! i) 53 \<and> \<not> bit (g ! i) 54)"

text \<open>The resume flag, set in the saved flags of a fault; the flags that an interrupt gate clears.\<close>

definition RF :: u64 where "RF = push_bit 16 1"

definition gate_cleared :: u64 where
  "gate_cleared = push_bit 8 1 OR push_bit 9 1 OR push_bit 14 1 OR RF OR push_bit 17 1"

definition exc_frame :: "u64 option \<Rightarrow> xcpu \<Rightarrow> u64 list" where
  "exc_frame err c = [ucast (xss c), gpr (xm c) RSP, xflags c OR RF, ucast (xcs c), rip (xm c)] @
     (case err of None \<Rightarrow> [] | Some e \<Rightarrow> [e])"

definition deliver :: "nat \<Rightarrow> u64 option \<Rightarrow> xcpu \<Rightarrow> xcpu option" where
  "deliver n err c = do {
     g \<leftarrow> load_gate (cmem (xm c)) (xidtr c) n;
     if \<not> (gate_present g \<and> gate_system g \<and> gate_type g = 0xE \<and> gate_ist g = 0 \<and> long_code (xgdt c) (gate_selector g))
     then None
     else do {
       s \<leftarrow> push_words (exc_frame err c) (set_reg RSP (gpr (xm c) RSP AND NOT 0xF) (xm c));
       Some (c\<lparr>xm := s\<lparr>rip := gate_offset g\<rparr>, xflags := xflags c AND NOT gate_cleared, xcs := gate_selector g\<rparr>) } }"

definition iretq :: "xcpu \<Rightarrow> xcpu option" where
  "iretq c = do {
     (ip, s) \<leftarrow> pop_word (xm c);
     (sel, s) \<leftarrow> pop_word s;
     (fl, s) \<leftarrow> pop_word s;
     (sp, s) \<leftarrow> pop_word s;
     (st, s) \<leftarrow> pop_word s;
     if \<not> long_code (xgdt c) (ucast sel) then None
     else Some (c\<lparr>xm := (set_reg RSP sp s)\<lparr>rip := ip\<rparr>, xflags := fl, xcs := ucast sel, xss := ucast st\<rparr>) }"

definition exc_sp :: "xcpu \<Rightarrow> addr" where
  "exc_sp c = gpr (xm c) RSP AND NOT 0xF"

lemma long_code_boot: "long_code gdt_desc64 0x10"
  using code64 by (simp add: long_code_def gdt_desc64_def)

lemma inthandler_run:
  assumes "region (idt + 16 * of_nat n) 16 \<subseteq> dom m" "region idtr 10 \<subseteq> dom m"
    "region (idt + 16 * of_nat n) 16 \<inter> region idtr 10 = {}" "n < 64"
  shows "\<exists>m'. setup_inthandler n idt idtr handler m = Some m' \<and> load_idtr m' idtr = Some (0x3FF, idt) \<and>
    load_gate m' (0x3FF, idt) n = Some (interrupt_gate handler) \<and>
    (\<forall>x. x \<notin> region (idt + 16 * of_nat n) 16 \<union> region idtr 10 \<longrightarrow> m' x = m x) \<and> dom m' = dom m"
proof -
  let ?a = "idt + 16 * of_nat n"
  have l: "fields_len (idt_entry handler) = 16" "fields_len (idtr_operand idt) = 10"
    by (simp_all add: idt_entry_def idtr_operand_def)
  obtain m1 where m1: "store_fields m ?a (idt_entry handler) = Some m1"
    using store_fields_defined [of ?a "idt_entry handler" m] assms(1) l by auto
  obtain m' where m': "store_fields m1 idtr (idtr_operand idt) = Some m'"
    using store_fields_defined [of idtr "idtr_operand idt" m1] store_fields_dom [OF m1] assms(2) l by auto
  have fr: "m' x = m1 x" if "x \<notin> region idtr 10" for x using store_fields_frame [OF m'] that l by simp
  have "16 * of_nat n + 15 \<le> (0x3FF :: u64)"
  proof -
    have "unat (16 * of_nat n + 15 :: u64) = 16 * n + 15"
      using assms(4) by (simp add: unat_word_ariths unat_of_nat take_bit_nat_eq_self)
    then show ?thesis using assms(4) by (simp add: word_le_nat_alt)
  qed
  then have "load_gate m1 (0x3FF, idt) n = Some (interrupt_gate handler)" by (rule load_gate_stored [OF m1])
  moreover have "read64 m' a = read64 m1 a" if "region a 8 \<subseteq> region ?a 16" for a
    using that fr assms(3) by (intro read_le_cong) auto
  then have "read64 m' ?a = read64 m1 ?a" "read64 m' (?a + 8) = read64 m1 (?a + 8)"
    using region_shift [of 0 8 16 ?a] region_shift [of 8 8 16 ?a] by simp_all
  then have "load_gate m' (0x3FF, idt) n = load_gate m1 (0x3FF, idt) n"
    by (simp only: load_gate_def fst_conv snd_conv)
  ultimately have "load_gate m' (0x3FF, idt) n = Some (interrupt_gate handler)" by simp
  moreover have "m' x = m x" if "x \<notin> region ?a 16 \<union> region idtr 10" for x
    using that fr store_fields_frame [OF m1] l by simp
  ultimately show ?thesis
    using m1 m' load_idtr_stored [OF m'] store_fields_dom [OF m1] store_fields_dom [OF m']
    by (simp add: setup_inthandler_def)
qed

text \<open>
  C35: The descriptor that setup_inthandler packs by hand is the one it means. Read back by the
  processor through lidt, the table has 64 entries at its address and the entry of the vector is a
  present 64-bit interrupt gate for the kernel with the handler's full address, whatever the
  address, and with a code segment that the boot code's descriptor table defines; nothing else in
  memory changes.\<close>

theorem setup_inthandler_gate:
  assumes "region (idt + 16 * of_nat n) 16 \<subseteq> dom m" "region idtr 10 \<subseteq> dom m"
    "region (idt + 16 * of_nat n) 16 \<inter> region idtr 10 = {}" "n < 64"
  shows "\<exists>m' g. setup_inthandler n idt idtr handler m = Some m' \<and> load_idtr m' idtr = Some (16 * 64 - 1, idt) \<and>
    load_gate m' (16 * 64 - 1, idt) n = Some g \<and> gate_offset g = handler \<and> gate_present g \<and> gate_system g \<and>
    gate_type g = 0xE \<and> gate_ist g = 0 \<and> gate_dpl g = 0 \<and> long_code gdt_desc64 (gate_selector g) \<and>
    (\<forall>x. x \<notin> region (idt + 16 * of_nat n) 16 \<union> region idtr 10 \<longrightarrow> m' x = m x)"
proof -
  obtain m' where "setup_inthandler n idt idtr handler m = Some m'" "load_idtr m' idtr = Some (0x3FF, idt)"
    "load_gate m' (0x3FF, idt) n = Some (interrupt_gate handler)"
    "\<forall>x. x \<notin> region (idt + 16 * of_nat n) 16 \<union> region idtr 10 \<longrightarrow> m' x = m x"
    using inthandler_run [OF assms] by blast
  then show ?thesis
    using long_code_boot by (intro exI [of _ m'] exI [of _ "interrupt_gate handler"]) (simp add: interrupt_gate_def)
qed

text \<open>Witness: the entry of the page fault.\<close>

theorem setup_inthandler_gate_witness:
  "\<exists>m' g. setup_inthandler 14 0x2000 0x3000 0x123456789ABCDEF0 (\<lambda>_. Some 0) = Some m' \<and>
    load_idtr m' 0x3000 = Some (16 * 64 - 1, 0x2000) \<and>
    load_gate m' (16 * 64 - 1, 0x2000) 14 = Some g \<and> gate_offset g = 0x123456789ABCDEF0"
proof -
  have "region (0x2000 + 16 * of_nat 14) 16 \<inter> region 0x3000 10 = {}" by (rule region_disjoint) simp_all
  then show ?thesis
    using setup_inthandler_gate [of "0x2000" 14 "\<lambda>_. Some 0" "0x3000" "0x123456789ABCDEF0"] by auto
qed

lemma deliver_run:
  assumes "load_gate (cmem (xm c)) (xidtr c) n = Some (interrupt_gate h)" "long_code (xgdt c) 0x10"
    "room (cmem (xm c)) (exc_sp c) (length (exc_frame err c))"
  obtains m where "deliver n err c = Some (c\<lparr>xm := (set_reg RSP (exc_sp c - 8 * of_nat (length (exc_frame err c)))
      (xm c))\<lparr>cmem := m, rip := h\<rparr>, xflags := xflags c AND NOT gate_cleared, xcs := 0x10\<rparr>)"
    "same_words (slots (exc_sp c) (length (exc_frame err c))) (cmem (xm c)) m"
    "stack_at m (exc_sp c - 8 * of_nat (length (exc_frame err c))) (rev (exc_frame err c))"
proof -
  let ?s = "set_reg RSP (exc_sp c) (xm c)" and ?k = "length (exc_frame err c)"
  have s: "gpr ?s RSP = exc_sp c" "cmem ?s = cmem (xm c)" by (simp_all add: set_reg_def)
  have "?k < 2 ^ 59" by (simp add: exc_frame_def split: option.split)
  then obtain m where m: "push_words (exc_frame err c) ?s = Some (set_reg RSP (exc_sp c - 8 * of_nat ?k) (?s\<lparr>cmem := m\<rparr>))"
    "same_words (slots (exc_sp c) ?k) (cmem (xm c)) m" "stack_at m (exc_sp c - 8 * of_nat ?k) (rev (exc_frame err c))"
    using push_words_run [of ?s "exc_frame err c" "[]"] assms(3) unfolding s by auto
  have "deliver n err c = Some (c\<lparr>xm := (set_reg RSP (exc_sp c - 8 * of_nat ?k) (xm c))\<lparr>cmem := m, rip := h\<rparr>,
      xflags := xflags c AND NOT gate_cleared, xcs := 0x10\<rparr>)"
    using assms(1,2) m(1) by (simp add: deliver_def interrupt_gate_def exc_sp_def set_reg_def)
  then show ?thesis using m(2,3) by (rule that)
qed

lemma ucast_16_64_16: "(ucast (ucast w :: u64) :: u16) = w" for w :: u16
  by (rule bit_word_eqI) (simp add: bit_simps)

lemma iretq_run:
  assumes "stack_at (cmem (xm c)) (gpr (xm c) RSP) ([ip, ucast sel, fl, sp, ucast st] @ ws)" "long_code (xgdt c) sel"
  shows "iretq c = Some (c\<lparr>xm := (set_reg RSP sp (xm c))\<lparr>rip := ip\<rparr>, xflags := fl, xcs := sel, xss := st\<rparr>)"
  using assms by (simp add: iretq_def pop_word_def set_reg_def ac_simps ucast_16_64_16)

text \<open>What a handler has to leave for \<^verbatim>\<open>iretq\<close> in order to return to the interrupted instruction.\<close>

lemma exc_frame_rev: "rev (exc_frame err c) = (case err of None \<Rightarrow> [] | Some e \<Rightarrow> [e]) @
    [rip (xm c), ucast (xcs c), xflags c OR RF, gpr (xm c) RSP, ucast (xss c)]"
  by (simp add: exc_frame_def split: option.split)

section \<open>A handler that calls C code\<close>

text \<open>
  \<^verbatim>\<open>int_handler\<close> of the copy-on-write tutorial: it saves every register, calls \<^verbatim>\<open>fault_handler\<close>
  (\<open>f\<close>, with the return address \<open>ra\<close> on the stack), restores the registers and drops the error code.
\<close>

definition int_handler_save :: "instr list" where
  "int_handler_save = [PushR R15, PushR R14, PushR R13, PushR R12, PushR R11, PushR R10, PushR R9, PushR R8,
     PushR RDI, PushR RSI, PushR RBP, PushR RDX, PushR RCX, PushR RBX, PushR RAX]"

definition int_handler_restore :: "instr list" where
  "int_handler_restore = [PopR RAX, PopR RBX, PopR RCX, PopR RDX, PopR RBP, PopR RSI, PopR RDI, PopR R8,
     PopR R9, PopR R10, PopR R11, PopR R12, PopR R13, PopR R14, PopR R15, AddIR 8 RSP]"

definition int_handler :: "(xcpu \<Rightarrow> xcpu option) \<Rightarrow> addr \<Rightarrow> xcpu \<Rightarrow> xcpu option" where
  "int_handler f ra c = do {
     s \<leftarrow> exec int_handler_save (xm c);
     s \<leftarrow> push_word ra s;
     c \<leftarrow> f (c\<lparr>xm := s\<rparr>);
     s \<leftarrow> exec int_handler_restore (xm c);
     iretq (c\<lparr>xm := s\<rparr>) }"

definition saved_regs :: "reg list" where
  "saved_regs = [RAX, RBX, RCX, RDX, RBP, RSI, RDI, R8, R9, R10, R11, R12, R13, R14, R15]"

lemma int_handler_lists:
  "int_handler_save = map PushR (rev saved_regs)" "int_handler_restore = map PopR saved_regs @ [AddIR 8 RSP]"
  "distinct saved_regs" "RSP \<notin> set saved_regs" "r \<noteq> RSP \<Longrightarrow> r \<in> set saved_regs" "length saved_regs = 15"
  by (simp_all add: int_handler_save_def int_handler_restore_def saved_regs_def) (cases r; simp)

text \<open>
  The calling convention, as far as the handler relies on it: the function returns to its caller
  with the stack popped, keeps the words in \<open>A\<close>, and leaves the segment state alone.
\<close>

definition abi_return :: "addr set \<Rightarrow> xcpu \<Rightarrow> xcpu \<Rightarrow> bool" where
  "abi_return A c c' \<longleftrightarrow> gpr (xm c') RSP = gpr (xm c) RSP + 8 \<and>
     (\<forall>a \<in> A. read64 (cmem (xm c')) a = read64 (cmem (xm c)) a) \<and> xgdt c' = xgdt c"

lemma stack_at_slots:
  assumes "\<forall>a \<in> slots sp n. read64 m' a = read64 m a" "length ws \<le> n" "stack_at m (sp - 8 * of_nat n) ws"
  shows "stack_at m' (sp - 8 * of_nat n) ws"
  using assms stack_slots [of _ n sp] by (simp add: stack_at_iff)

lemma save_run:
  assumes "room (cmem s) (gpr s RSP) 16" "stack_at (cmem s) (gpr s RSP) ws" "length ws < 2 ^ 59"
  obtains m where "do { s \<leftarrow> exec int_handler_save s; push_word ra s } = Some ((set_reg RSP (gpr s RSP - 8 * 16) s)\<lparr>cmem := m\<rparr>)"
    "same_words (slots (gpr s RSP) 16) (cmem s) m" "stack_at m (gpr s RSP - 8 * 16) (ra # map (gpr s) saved_regs @ ws)"
proof -
  let ?vs = "map (gpr s) (rev saved_regs) @ [ra]"
  have "push_words (xs @ [v]) t = do { t \<leftarrow> push_words xs t; push_word v t }" for xs v t
    by (induction xs arbitrary: t) auto
  then have "do { s \<leftarrow> exec int_handler_save s; push_word ra s } = push_words ?vs s"
    using exec_push [of "rev saved_regs" s] int_handler_lists(1,4) by simp
  moreover have l: "length ?vs = 16" using int_handler_lists(6) by simp
  moreover obtain m where "push_words ?vs s = Some (set_reg RSP (gpr s RSP - 8 * of_nat 16) (s\<lparr>cmem := m\<rparr>))"
    "same_words (slots (gpr s RSP) 16) (cmem s) m" "stack_at m (gpr s RSP - 8 * of_nat 16) (rev ?vs @ ws)"
    using push_words_run [of s ?vs ws] assms unfolding l by auto
  ultimately show ?thesis by (intro that [of m]) (simp_all add: set_reg_def rev_map)
qed

lemma restore_run:
  assumes "stack_at (cmem s) (gpr s RSP) (map g saved_regs @ e # ws)"
  shows "exec int_handler_restore s = Some (s\<lparr>gpr := \<lambda>r. if r = RSP then gpr s RSP + 8 * 16 else g r\<rparr>)"
    "stack_at (cmem s) (gpr s RSP + 8 * 16) ws"
proof -
  have "exec (map PopR saved_regs) s = Some (s\<lparr>gpr := \<lambda>r. if r = RSP then gpr s RSP + 8 * of_nat 15
      else if r \<in> set saved_regs then g r else gpr s r\<rparr>)"
    using exec_pop [OF int_handler_lists(3,4), of s g "e # ws"] assms by (simp only: int_handler_lists(6))
  also have "(\<lambda>r. if r = RSP then gpr s RSP + 8 * of_nat 15 else if r \<in> set saved_regs then g r else gpr s r) =
      (\<lambda>r. if r = RSP then gpr s RSP + 8 * 15 else g r)"
    using int_handler_lists(5) by (auto simp: fun_eq_iff)
  finally have "exec int_handler_restore s = Some (set_reg RSP (gpr s RSP + 8 * 15 + 8)
      (s\<lparr>gpr := \<lambda>r. if r = RSP then gpr s RSP + 8 * 15 else g r\<rparr>))"
    by (simp add: int_handler_lists(2) exec_append)
  also have "set_reg RSP (gpr s RSP + 8 * 15 + 8) (s\<lparr>gpr := \<lambda>r. if r = RSP then gpr s RSP + 8 * 15 else g r\<rparr>) =
      s\<lparr>gpr := \<lambda>r. if r = RSP then gpr s RSP + 8 * 16 else g r\<rparr>"
    by (simp add: set_reg_def fun_eq_iff)
  finally show "exec int_handler_restore s = Some (s\<lparr>gpr := \<lambda>r. if r = RSP then gpr s RSP + 8 * 16 else g r\<rparr>)" .
  show "stack_at (cmem s) (gpr s RSP + 8 * 16) ws"
    using assms by (simp add: saved_regs_def ac_simps)
qed

lemma int_handler_return:
  assumes "exec int_handler_save (xm c0) = Some sA" "push_word ra sA = Some s1" "f (c0\<lparr>xm := s1\<rparr>) = Some c2"
    "stack_at (cmem (xm c2)) (gpr (xm c2) RSP) (map g saved_regs @ e # [ip, ucast sel, fl, g RSP, ucast st])"
    "long_code (xgdt c2) sel"
  shows "int_handler f ra c0 = Some (c2\<lparr>xm := (xm c2)\<lparr>gpr := g, rip := ip\<rparr>, xflags := fl, xcs := sel, xss := st\<rparr>)"
proof -
  note r = restore_run [OF assms(4)]
  let ?s = "(xm c2)\<lparr>gpr := \<lambda>r. if r = RSP then gpr (xm c2) RSP + 8 * 16 else g r\<rparr>"
  have "int_handler f ra c0 = iretq (c2\<lparr>xm := ?s\<rparr>)"
    using assms(1-3) r(1) by (simp add: int_handler_def)
  also have "\<dots> = Some (c2\<lparr>xm := (set_reg RSP (g RSP) ?s)\<lparr>rip := ip\<rparr>, xflags := fl, xcs := sel, xss := st\<rparr>)"
    using iretq_run [of "c2\<lparr>xm := ?s\<rparr>" ip sel fl "g RSP" st "[]"] r(2) assms(5) by simp
  also have "set_reg RSP (g RSP) ?s = (xm c2)\<lparr>gpr := g\<rparr>" 
    by (rule mach.equality) (auto simp: set_reg_def)
  finally show ?thesis by simp
qed

text \<open>
  C30: The page fault handler of the copy-on-write tutorial is transparent. For every C function
  that keeps to the calling convention, delivering the fault, running int_handler around the
  function and returning by iretq comes back to the faulting instruction with all sixteen registers
  and the selectors as they were and the flags with the resume flag set; the memory is the one the
  function left, and the function was given the interrupted memory, the 22 stack words apart.\<close>

theorem int_handler_transparent:
  assumes "load_gate (cmem (xm c)) (xidtr c) 14 = Some (interrupt_gate h)" "long_code (xgdt c) 0x10"
    "long_code (xgdt c) (xcs c)" "room (cmem (xm c)) (exc_sp c) 22"
    "\<forall>c1. gpr (xm c1) RSP = exc_sp c - 8 * 22 \<and> xgdt c1 = xgdt c \<and>
       same_words (slots (exc_sp c) 22) (cmem (xm c)) (cmem (xm c1)) \<longrightarrow>
       (\<exists>c2. f c1 = Some c2 \<and> abi_return (slots (exc_sp c) 21) c1 c2)"
  shows "\<exists>c0 c1 c2 c'. deliver 14 (Some err) c = Some c0 \<and> rip (xm c0) = h \<and> int_handler f ra c0 = Some c' \<and>
    f c1 = Some c2 \<and> same_words (slots (exc_sp c) 22) (cmem (xm c)) (cmem (xm c1)) \<and>
    gpr (xm c') = gpr (xm c) \<and> rip (xm c') = rip (xm c) \<and> cmem (xm c') = cmem (xm c2) \<and> xtlb c' = xtlb c2 \<and>
    xflags c' = xflags c OR RF \<and> xcs c' = xcs c \<and> xss c' = xss c"
proof -
  let ?sp = "exc_sp c" and ?frame = "[rip (xm c), ucast (xcs c), xflags c OR RF, gpr (xm c) RSP, ucast (xss c)]"
  have len: "length (exc_frame (Some err) c) = 6" by (simp add: exc_frame_def)
  have room6: "room (cmem (xm c)) ?sp 6" using assms(4) slots_mono [of 6 22 ?sp] by (auto simp: room_def)
  obtain m0 where c0: "deliver 14 (Some err) c = Some (c\<lparr>xm := (set_reg RSP (?sp - 8 * of_nat 6) (xm c))\<lparr>cmem := m0, rip := h\<rparr>,
      xflags := xflags c AND NOT gate_cleared, xcs := 0x10\<rparr>)"
    and m0: "same_words (slots ?sp 6) (cmem (xm c)) m0" "stack_at m0 (?sp - 8 * of_nat 6) (err # ?frame)"
    using deliver_run [OF assms(1,2), of "Some err"] room6 unfolding len exc_frame_rev by auto
  let ?c0 = "c\<lparr>xm := (set_reg RSP (?sp - 8 * of_nat 6) (xm c))\<lparr>cmem := m0, rip := h\<rparr>,
      xflags := xflags c AND NOT gate_cleared, xcs := 0x10\<rparr>"
  have s0: "gpr (xm ?c0) RSP = ?sp - 8 * of_nat 6" "cmem (xm ?c0) = m0" by (simp_all add: set_reg_def)
  have "room m0 (?sp - 8 * of_nat 6) 16" using room_after [of _ ?sp 6 16 _ m0] assms(4) m0(1) by simp
  then obtain m1 where s1: "do { s \<leftarrow> exec int_handler_save (xm ?c0); push_word ra s } =
      Some ((set_reg RSP (?sp - 8 * of_nat 6 - 8 * 16) (xm ?c0))\<lparr>cmem := m1\<rparr>)"
    and m1: "same_words (slots (?sp - 8 * of_nat 6) 16) m0 m1"
      "stack_at m1 (?sp - 8 * of_nat 6 - 8 * 16) (ra # map (gpr (xm ?c0)) saved_regs @ err # ?frame)"
    using save_run [of "xm ?c0" "err # ?frame" ra] m0(2) unfolding s0 by auto
  let ?c1 = "?c0\<lparr>xm := (set_reg RSP (?sp - 8 * of_nat 6 - 8 * 16) (xm ?c0))\<lparr>cmem := m1\<rparr>\<rparr>"
  have same: "same_words (slots ?sp 22) (cmem (xm c)) m1"
    using same_words_trans [OF m0(1) m1(1)] slots_add [of ?sp 6 16] by simp
  have "gpr (xm ?c1) RSP = ?sp - 8 * 22 \<and> xgdt ?c1 = xgdt c \<and>
      same_words (slots ?sp 22) (cmem (xm c)) (cmem (xm ?c1))" using same by (simp add: set_reg_def)
  from mp [OF spec [OF assms(5)] this]
  obtain c2 where c2: "f ?c1 = Some c2" "abi_return (slots ?sp 21) ?c1 c2" by blast
  have sp2: "gpr (xm c2) RSP = ?sp - 8 * of_nat 21" using c2(2) by (simp add: abi_return_def set_reg_def)
  have keep: "\<forall>a \<in> slots ?sp 21. read64 (cmem (xm c2)) a = read64 m1 a" using c2(2) by (simp add: abi_return_def)
  have l21: "length (map (gpr (xm c)) saved_regs @ err # ?frame) \<le> 21" by (simp add: int_handler_lists(6))
  have sp21: "?sp - 8 * of_nat 6 - 8 * 16 + 8 = ?sp - 8 * of_nat 21" by simp
  have regs: "map (gpr (xm ?c0)) saved_regs = map (gpr (xm c)) saved_regs"
    using int_handler_lists(4) by (auto simp: set_reg_def)
  have "stack_at m1 (?sp - 8 * of_nat 21) (map (gpr (xm c)) saved_regs @ err # ?frame)"
    using m1(2) by (simp only: regs stack_at.simps sp21)
  then have "stack_at (cmem (xm c2)) (gpr (xm c2) RSP) (map (gpr (xm c)) saved_regs @ err # ?frame)"
    unfolding sp2 by (rule stack_at_slots [OF keep l21])
  moreover obtain sA where "exec int_handler_save (xm ?c0) = Some sA" "push_word ra sA = Some (xm ?c1)"
    using s1 by (auto simp: bind_eq_Some_conv)
  moreover have "f (?c0\<lparr>xm := xm ?c1\<rparr>) = Some c2" using c2(1) by simp
  moreover have "long_code (xgdt c2) (xcs c)" using c2(2) assms(3) by (simp add: abi_return_def)
  ultimately have h: "int_handler f ra ?c0 = Some (c2\<lparr>xm := (xm c2)\<lparr>gpr := gpr (xm c), rip := rip (xm c)\<rparr>,
      xflags := xflags c OR RF, xcs := xcs c, xss := xss c\<rparr>)"
    by (intro int_handler_return [of ?c0 sA ra "xm ?c1" f c2 "gpr (xm c)" err])
  show ?thesis
    by (intro exI conjI, rule c0, simp, rule h, rule c2(1)) (simp_all add: same)
qed

text \<open>The stack pointer at the entry of the C function: a multiple of 16, where the convention wants it 8 off.\<close>

lemma fault_handler_stack: "take_bit 4 (exc_sp c - 8 * 22) = 0"
proof -
  have "take_bit 4 (exc_sp c) = 0"
    by (rule bit_word_eqI) (auto simp: exc_sp_def bit_simps mask_eq_exp_minus_1 [of 4, simplified, symmetric])
  then show ?thesis using take_bit_add_aligned [of 4 "exc_sp c" "- 176"] by simp
qed

definition demo_idt_mem :: mem where
  "demo_idt_mem = the (setup_inthandler 14 0x2000 0x3000 0x5000 (\<lambda>_. Some 0))"

definition demo_xcpu :: xcpu where
  "demo_xcpu = \<lparr>xm = \<lparr>gpr = (\<lambda>r. if r = RSP then 0x8000 else 7), rip = 0x100000040, cmem = demo_idt_mem\<rparr>,
     xflags = 2, xcs = 0x10, xss = 0x18, xgdt = gdt_desc64, xidtr = (0x3FF, 0x2000), xtlb = Map.empty\<rparr>"

lemma demo_idt:
  "load_gate demo_idt_mem (0x3FF, 0x2000) 14 = Some (interrupt_gate 0x5000)" "dom demo_idt_mem = UNIV"
proof -
  have "region (0x2000 + 16 * of_nat 14) 16 \<inter> region 0x3000 10 = {}" by (rule region_disjoint) simp_all
  then obtain m' where "setup_inthandler 14 0x2000 0x3000 0x5000 (\<lambda>_. Some 0) = Some m'"
    "load_gate m' (0x3FF, 0x2000) 14 = Some (interrupt_gate 0x5000)" "dom m' = dom (\<lambda>_ :: addr. Some (0 :: u8))"
    using inthandler_run [of "0x2000" 14 "\<lambda>_. Some 0" "0x3000" "0x5000"] by (auto simp: dom_def)
  then show "load_gate demo_idt_mem (0x3FF, 0x2000) 14 = Some (interrupt_gate 0x5000)" "dom demo_idt_mem = UNIV"
    by (simp_all add: demo_idt_mem_def dom_def)
qed

text \<open>Witness: a function that returns at once, clobbering the registers.\<close>

theorem int_handler_transparent_witness:
  "\<exists>c0 c'. deliver 14 (Some 2) demo_xcpu = Some c0 \<and> rip (xm c0) = 0x5000 \<and>
     int_handler (\<lambda>c. Some (c\<lparr>xm := (xm c)\<lparr>gpr := \<lambda>r. if r = RSP then gpr (xm c) RSP + 8 else 0\<rparr>\<rparr>)) 0x5020 c0 = Some c' \<and>
     gpr (xm c') = gpr (xm demo_xcpu) \<and> rip (xm c') = 0x100000040"
proof -
  have sp: "exc_sp demo_xcpu = 0x8000" by (simp add: exc_sp_def demo_xcpu_def)
  have "read64 demo_idt_mem a \<noteq> None" for a using read_le_defined [of a 8 demo_idt_mem] demo_idt(2) by auto
  then have "room (cmem (xm demo_xcpu)) (exc_sp demo_xcpu) 22"
    unfolding sp by (simp add: room_def demo_xcpu_def aligned8_def)
  then show ?thesis
    using int_handler_transparent [of demo_xcpu "0x5000"
        "\<lambda>c. Some (c\<lparr>xm := (xm c)\<lparr>gpr := \<lambda>r. if r = RSP then gpr (xm c) RSP + 8 else 0\<rparr>\<rparr>)" 2 "0x5020"]
      demo_idt(1) long_code_boot
    by (auto simp: demo_xcpu_def abi_return_def)
qed

end
