(* ===== verification/Tutorial_Paging.thy ===== *)
theory Tutorial_Paging
  imports Loader16
begin

text \<open>
  The paging tutorials, \<^verbatim>\<open>src/tutorial/paging/*/friend.cc\<close>: friend programs that extend the boot
  page tables and look at memory through them. The state is the physical memory and a translation
  buffer that may keep a translation it has used until \<^verbatim>\<open>invlpg\<close>; stores to the tables go through
  the identity mapping of the friend's memory (\<^verbatim>\<open>v2p\<close>), so they are physical stores. What a
  program prints is the list of the values it has read.
\<close>

section \<open>Memory through a translation buffer\<close>

record vstate =
  vpm :: mem
  tlb :: "u64 \<rightharpoonup> addr"

definition vpage :: "addr \<Rightarrow> u64" where "vpage v = drop_bit 12 v"

text \<open>
  \<open>keep\<close> says which pages the buffer remembers after a walk; a remembered frame is used without
  looking at the tables again.
\<close>

definition vload :: "(u64 \<Rightarrow> bool) \<Rightarrow> addr \<Rightarrow> addr \<Rightarrow> vstate \<Rightarrow> (u64 \<times> vstate) option" where
  "vload keep pml4 v s = (case tlb s (vpage v) of
      Some f \<Rightarrow> do { x \<leftarrow> read64 (vpm s) (f + take_bit 12 v); Some (x, s) }
    | None \<Rightarrow> do {
        a \<leftarrow> translate_read (vpm s) pml4 v;
        x \<leftarrow> read64 (vpm s) a;
        Some (x, if keep (vpage v) then s\<lparr>tlb := (tlb s)(vpage v \<mapsto> a - take_bit 12 v)\<rparr> else s) })"

definition invlpg :: "addr \<Rightarrow> vstate \<Rightarrow> vstate" where
  "invlpg v s = s\<lparr>tlb := (tlb s)(vpage v := None)\<rparr>"

definition vset :: "addr \<Rightarrow> u64 \<Rightarrow> u64 \<Rightarrow> vstate \<Rightarrow> vstate option" where
  "vset page i e s = do { m \<leftarrow> set_entry (vpm s) page i e; Some (s\<lparr>vpm := m\<rparr>) }"

definition v2p :: "addr \<Rightarrow> addr" where "v2p vaddr = vaddr"

definition k4KB :: u64 where "k4KB = 4 * 1024"

definition rwu :: u64 where "rwu = push_bit 0 1 OR push_bit 1 1 OR push_bit 2 1"

text \<open>A counting loop over a state.\<close>

primrec for_each :: "(nat \<Rightarrow> 's \<Rightarrow> 's option) \<Rightarrow> nat list \<Rightarrow> 's \<Rightarrow> 's option" where
  "for_each body [] s = Some s"
| "for_each body (i # is) s = do { s \<leftarrow> body i s; for_each body is s }"

section \<open>The programs\<close>

text \<open>\<^verbatim>\<open>address_space\<close>: one 2MB page.\<close>

definition address_space_main :: "(u64 \<Rightarrow> bool) \<Rightarrow> addr \<Rightarrow> addr \<Rightarrow> addr \<Rightarrow> vstate \<Rightarrow> (u64 list \<times> vstate) option" where
  "address_space_main keep pml4 pdpt pd s = do {
     let vaddr = 0x80000000;
     s \<leftarrow> vset pdpt ((vaddr mod k512GB) div k1GB) (v2p pd OR rwu) s;
     s \<leftarrow> vset pd ((vaddr mod k1GB) div k2MB) (0x100000000 OR rwu OR push_bit 7 1) s;
     (x, s) \<leftarrow> vload keep pml4 vaddr s;
     Some ([x], s) }"

text \<open>\<^verbatim>\<open>mapping\<close>: a 4KB page, remapped, and two more pages.\<close>

definition mapping_main :: "(u64 \<Rightarrow> bool) \<Rightarrow> addr \<Rightarrow> addr \<Rightarrow> addr \<Rightarrow> addr \<Rightarrow> vstate \<Rightarrow> (u64 list \<times> vstate) option" where
  "mapping_main keep pml4 pdpt pd pt s = do {
     let vaddr1 = 0x80000000;
     let vaddr2 = 0x80001000;
     let vaddr3 = 0x80002000;
     s \<leftarrow> vset pdpt ((vaddr1 mod k512GB) div k1GB) (v2p pd OR rwu) s;
     s \<leftarrow> vset pd ((vaddr1 mod k1GB) div k2MB) (v2p pt OR rwu) s;
     s \<leftarrow> vset pt ((vaddr1 mod k2MB) div k4KB) (0x100000000 OR rwu) s;
     (x1, s) \<leftarrow> vload keep pml4 vaddr1 s;
     s \<leftarrow> vset pt ((vaddr1 mod k2MB) div k4KB) (0x100001000 OR rwu) s;
     let s = invlpg vaddr1 s;
     (x2, s) \<leftarrow> vload keep pml4 vaddr1 s;
     s \<leftarrow> vset pt ((vaddr2 mod k2MB) div k4KB) (0x100000000 OR rwu) s;
     s \<leftarrow> vset pt ((vaddr3 mod k2MB) div k4KB) (0x100001000 OR rwu) s;
     (x3, s) \<leftarrow> vload keep pml4 vaddr2 s;
     (x4, s) \<leftarrow> vload keep pml4 vaddr3 s;
     Some ([x1, x2, x3, x4], s) }"

text \<open>\<^verbatim>\<open>hierarchy\<close>: two page tables under one directory; it reads nothing.\<close>

definition hierarchy_main :: "addr \<Rightarrow> addr \<Rightarrow> addr \<Rightarrow> addr \<Rightarrow> vstate \<Rightarrow> vstate option" where
  "hierarchy_main pdpt pd pt1 pt2 s = do {
     let vaddr1 = 0x80000000;
     let vaddr2 = 0x80200000;
     s \<leftarrow> vset pdpt ((vaddr1 mod k512GB) div k1GB) (v2p pd OR rwu) s;
     s \<leftarrow> vset pd ((vaddr1 mod k1GB) div k2MB) (v2p pt1 OR rwu) s;
     s \<leftarrow> vset pt1 ((vaddr1 mod k2MB) div k4KB) (0x100000000 OR rwu) s;
     s \<leftarrow> vset pd ((vaddr2 mod k1GB) div k2MB) (v2p pt2 OR rwu) s;
     vset pt2 ((vaddr2 mod k2MB) div k4KB) (0x100000000 OR rwu) s }"

section \<open>Tables and the words outside them\<close>

text \<open>
  The tables are distinct aligned pages, the top one leads to \<open>pdpt\<close>, and the two words that the
  programs look at are in neither of them.
\<close>

definition table_set :: "mem \<Rightarrow> addr \<Rightarrow> addr list \<Rightarrow> bool" where
  "table_set m pml4 ts \<longleftrightarrow> distinct (pml4 # ts) \<and> list_all (\<lambda>t. aligned_to 12 t \<and> t < 2 ^ 52) (pml4 # ts) \<and>
     ts \<noteq> [] \<and> read64 m (page_entry pml4 0) = Some (hd ts OR 7) \<and>
     (\<forall>t \<in> set ts. \<forall>i. unat i < 512 \<longrightarrow> read64 m (page_entry t i) \<noteq> None) \<and>
     0x100000000 \<notin> set ts \<and> 0x100001000 \<notin> set ts"

lemma rwu_7: "rwu = 7"
  by (simp add: rwu_def)

lemma walk_4KB:
  assumes "canonical v"
    and "aligned_to 12 t4" "t4 < 2 ^ 52" "aligned_to 12 t3" "t3 < 2 ^ 52" "aligned_to 12 t2" "t2 < 2 ^ 52"
    and "aligned_to 12 t1" "t1 < 2 ^ 52" "aligned_to 12 b" "b < 2 ^ 52"
    and "read64 pm (t4 + 8 * pt_index 39 v) = Some (t3 OR 7)"
    and "read64 pm (t3 + 8 * pt_index 30 v) = Some (t2 OR 7)"
    and "read64 pm (t2 + 8 * pt_index 21 v) = Some (t1 OR 7)"
    and "read64 pm (t1 + 8 * pt_index 12 v) = Some (b OR 7)"
  shows "walk pm t4 v = Some (b + take_bit 12 v, True)"
proof -
  have "pte_frame 12 t4 = t4" using pte_frame_or [OF assms(2,3), of 0] by simp
  then show ?thesis
    using assms table_entry [OF assms(4,5)] table_entry [OF assms(6,7)] table_entry [OF assms(8,9)]
      table_entry [OF assms(10,11)]
    by (simp add: walk_def pt_entry_def)
qed

lemma tutorial_index:
  "pt_index 39 0x80000000 = 0" "pt_index 30 0x80000000 = 2" "pt_index 21 0x80000000 = 0" "pt_index 12 0x80000000 = 0"
  "pt_index 39 0x80001000 = 0" "pt_index 30 0x80001000 = 2" "pt_index 21 0x80001000 = 0" "pt_index 12 0x80001000 = 1"
  "pt_index 39 0x80002000 = 0" "pt_index 30 0x80002000 = 2" "pt_index 21 0x80002000 = 0" "pt_index 12 0x80002000 = 2"
  "pt_index 39 0x80200000 = 0" "pt_index 30 0x80200000 = 2" "pt_index 21 0x80200000 = 1" "pt_index 12 0x80200000 = 0"
  by (simp_all add: pt_index_def)

text \<open>The entries of all aligned pages as one function; a store to an entry is an update of it.\<close>

definition ents :: "mem \<Rightarrow> addr \<times> u64 \<Rightarrow> u64 option" where
  "ents m = (\<lambda>(t, i). if aligned_to 12 t \<and> unat i < 512 then read64 m (page_entry t i) else None)"

lemma vset_run:
  assumes "ents (vpm s) (t, i) \<noteq> None"
  obtains m where "vset t i e s = Some (s\<lparr>vpm := m\<rparr>)" "ents m = (ents (vpm s))((t, i) \<mapsto> e)"
proof -
  have t: "aligned_to 12 t" "unat i < 512" "read64 (vpm s) (page_entry t i) \<noteq> None"
    using assms by (auto simp: ents_def split: if_splits)
  have al: "aligned8 (page_entry t i)" using entry_aligned8 [OF t(1)] by (simp add: page_entry_def)
  obtain m where m: "write_all write64 (vpm s) [(page_entry t i, e)] = Some m"
    using wm.write_all_defined [of "[(page_entry t i, e)]" "vpm s"] t(3) al by auto
  have "ents m (u, j) = ((ents (vpm s))((t, i) \<mapsto> e)) (u, j)" for u j
  proof (cases "aligned_to 12 u \<and> unat j < 512")
    case True
    have "aligned8 (page_entry u j)" using entry_aligned8 True by (simp add: page_entry_def)
    then show ?thesis
      using True t page_entry_eq_iff [of u t j i] wm.rd_write_all [of "[(page_entry t i, e)]" "page_entry u j" "vpm s" m] m al
      by (auto simp: ents_def)
  next
    case False
    then show ?thesis using t by (auto simp: ents_def)
  qed
  then have "ents m = (ents (vpm s))((t, i) \<mapsto> e)" by (auto simp: fun_eq_iff)
  moreover have "vset t i e s = Some (s\<lparr>vpm := m\<rparr>)" using m by (simp add: vset_def set_entry_def bind_eq_Some_conv)
  ultimately show ?thesis by (rule that [rotated])
qed

text \<open>
  Reasoning forward through a program: \<open>rep\<close> describes the state by its entries and its buffer, and
  each operation has one rule that a proof applies in the order of the source.
\<close>

definition rep :: "(addr \<times> u64 \<Rightarrow> u64 option) \<Rightarrow> (u64 \<rightharpoonup> addr) \<Rightarrow> vstate \<Rightarrow> bool" where
  "rep f \<tau> s \<longleftrightarrow> ents (vpm s) = f \<and> tlb s = \<tau>"

definition returns :: "'r option \<Rightarrow> ('r \<Rightarrow> bool) \<Rightarrow> bool" where
  "returns r P \<longleftrightarrow> (\<exists>x. r = Some x \<and> P x)"

lemma wp_vset:
  assumes "rep f \<tau> s" "f (t, i) \<noteq> None" "\<And>s'. rep (f((t, i) \<mapsto> e)) \<tau> s' \<Longrightarrow> returns (k s') P"
  shows "returns (Option.bind (vset t i e s) k) P"
proof -
  obtain m where "vset t i e s = Some (s\<lparr>vpm := m\<rparr>)" "ents m = (ents (vpm s))((t, i) \<mapsto> e)"
    using vset_run [of s t i e] assms(1,2) by (auto simp: rep_def)
  then show ?thesis using assms(1) assms(3) [of "s\<lparr>vpm := m\<rparr>"] by (simp add: rep_def)
qed

lemma wp_vset_last:
  assumes "rep f \<tau> s" "f (t, i) \<noteq> None" "\<And>s'. rep (f((t, i) \<mapsto> e)) \<tau> s' \<Longrightarrow> P s'"
  shows "returns (vset t i e s) P"
  using wp_vset [OF assms(1,2), of e Some P] assms(3) by (simp add: returns_def)

text \<open>The page of \<open>v\<close> is mapped to the frame \<open>b\<close> by four levels of tables.\<close>

definition maps :: "(addr \<times> u64 \<Rightarrow> u64 option) \<Rightarrow> addr \<Rightarrow> addr \<Rightarrow> addr \<Rightarrow> bool" where
  "maps f t4 v b \<longleftrightarrow> v < 2 ^ 47 \<and> t4 < 2 ^ 52 \<and> b < 2 ^ 52 \<and> aligned_to 12 b \<and>
     (\<exists>t3 t2 t1. t3 < 2 ^ 52 \<and> t2 < 2 ^ 52 \<and> t1 < 2 ^ 52 \<and>
        f (t4, pt_index 39 v) = Some (t3 OR 7) \<and> f (t3, pt_index 30 v) = Some (t2 OR 7) \<and>
        f (t2, pt_index 21 v) = Some (t1 OR 7) \<and> f (t1, pt_index 12 v) = Some (b OR 7))"

lemma mapsI:
  "v < 2 ^ 47 \<Longrightarrow> t4 < 2 ^ 52 \<Longrightarrow> b < 2 ^ 52 \<Longrightarrow> aligned_to 12 b \<Longrightarrow> t3 < 2 ^ 52 \<Longrightarrow> t2 < 2 ^ 52 \<Longrightarrow> t1 < 2 ^ 52 \<Longrightarrow>
   f (t4, pt_index 39 v) = Some (t3 OR 7) \<Longrightarrow> f (t3, pt_index 30 v) = Some (t2 OR 7) \<Longrightarrow>
   f (t2, pt_index 21 v) = Some (t1 OR 7) \<Longrightarrow> f (t1, pt_index 12 v) = Some (b OR 7) \<Longrightarrow> maps f t4 v b"
  unfolding maps_def by blast

lemma maps_walk:
  assumes "maps (ents m) t4 v b"
  shows "walk m t4 v = Some (b + take_bit 12 v, True)"
proof -
  have al: "aligned_to 12 t" "read64 m (t + 8 * i) = Some e" if "ents m (t, i) = Some e" for t i e
    using that by (auto simp: ents_def page_entry_def split: if_splits)
  obtain t3 t2 t1 where t: "v < 2 ^ 47" "t4 < 2 ^ 52" "b < 2 ^ 52" "aligned_to 12 b" "t3 < 2 ^ 52" "t2 < 2 ^ 52"
    "t1 < 2 ^ 52" "ents m (t4, pt_index 39 v) = Some (t3 OR 7)" "ents m (t3, pt_index 30 v) = Some (t2 OR 7)"
    "ents m (t2, pt_index 21 v) = Some (t1 OR 7)" "ents m (t1, pt_index 12 v) = Some (b OR 7)"
    using assms unfolding maps_def by blast
  then show ?thesis using al by (intro walk_4KB [of v t4 t3 t2 t1 b] canonical_low) blast+
qed

lemma wp_vload_walk:
  assumes "rep f \<tau> s" "\<tau> (vpage v) = None" "\<And>m. ents m = f \<Longrightarrow> walk m t4 v = Some (b, True)"
    "take_bit 12 v = 0" "f (b, 0) = Some x"
    "\<And>s'. rep f (if keep (vpage v) then \<tau>(vpage v \<mapsto> b) else \<tau>) s' \<Longrightarrow> returns (k x s') P"
  shows "returns (Option.bind (vload keep t4 v s) (\<lambda>(x, s'). k x s')) P"
proof -
  let ?s = "s\<lparr>tlb := if keep (vpage v) then \<tau>(vpage v \<mapsto> b) else \<tau>\<rparr>"
  have r: "ents (vpm s) = f" "tlb s = \<tau>" using assms(1) by (simp_all add: rep_def)
  have "read64 (vpm s) b = Some x" using assms(5) r by (auto simp: ents_def page_entry_def split: if_splits)
  then have "vload keep t4 v s = Some (x, ?s)"
    using assms(2-4) r by (simp add: vload_def translate_read_def)
  moreover have "rep f (if keep (vpage v) then \<tau>(vpage v \<mapsto> b) else \<tau>) ?s" using r by (simp add: rep_def)
  ultimately show ?thesis using assms(6) by simp
qed

lemma wp_vload:
  assumes "rep f \<tau> s" "\<tau> (vpage v) = None" "maps f t4 v b" "take_bit 12 v = 0" "f (b, 0) = Some x"
    "\<And>s'. rep f (if keep (vpage v) then \<tau>(vpage v \<mapsto> b) else \<tau>) s' \<Longrightarrow> returns (k x s') P"
  shows "returns (Option.bind (vload keep t4 v s) (\<lambda>(x, s'). k x s')) P"
proof (rule wp_vload_walk [where b = b and x = x and f = f and \<tau> = \<tau>])
  show "walk m t4 v = Some (b, True)" if "ents m = f" for m
    using maps_walk [of m t4 v b] assms(3,4) that by simp
qed (use assms in auto)

lemma rep_invlpg: "rep f \<tau> s \<Longrightarrow> rep f (\<tau>(vpage v := None)) (invlpg v s)"
  by (simp add: rep_def invlpg_def)

lemma ents_walk_2MB:
  assumes "v < 2 ^ 47" "t4 < 2 ^ 52" "t3 < 2 ^ 52" "t2 < 2 ^ 52" "b < 2 ^ 52" "aligned_to 21 b"
    "ents m (t4, pt_index 39 v) = Some (t3 OR 7)" "ents m (t3, pt_index 30 v) = Some (t2 OR 7)"
    "ents m (t2, pt_index 21 v) = Some (b OR 0x87)"
  shows "walk m t4 v = Some (b + take_bit 21 v, True)"
proof -
  have "aligned_to 12 t" "read64 m (t + 8 * i) = Some e" if "ents m (t, i) = Some e" for t i e
    using that by (auto simp: ents_def page_entry_def split: if_splits)
  with assms show ?thesis by (intro walk_2MB [of v t4 t3 t2 b] canonical_low) blast+
qed

lemma tutorial_slots:
  "((0x80000000 :: u64) mod k512GB) div k1GB = 2" "((0x80000000 :: u64) mod k1GB) div k2MB = 0"
  "((0x80000000 :: u64) mod k2MB) div k4KB = 0" "((0x80001000 :: u64) mod k2MB) div k4KB = 1"
  "((0x80002000 :: u64) mod k2MB) div k4KB = 2" "((0x80200000 :: u64) mod k1GB) div k2MB = 1"
  "((0x80200000 :: u64) mod k2MB) div k4KB = 0"
  by (simp_all add: k512GB_def k1GB_def k2MB_def k4KB_def)

lemma table_set_ents:
  assumes "table_set m pml4 ts"
  shows "t \<in> set ts \<Longrightarrow> unat i < 512 \<Longrightarrow> ents m (t, i) \<noteq> None" "ents m (pml4, 0) = Some (hd ts OR 7)"
    "pml4 < 2 ^ 52" "t \<in> set ts \<Longrightarrow> t < 2 ^ 52" "aligned_to 12 b \<Longrightarrow> read64 m b = Some w \<Longrightarrow> ents m (b, 0) = Some w"
  using assms by (auto simp: table_set_def ents_def page_entry_def list_all_iff)

text \<open>
  C28: The mapping tutorial shows what its comments say, whatever the translation buffer keeps: first
  the word at the start of the friend's memory, after the remapping the first word of the next
  page, and at the other two addresses again these two words.\<close>

theorem mapping_shows:
  assumes "table_set (vpm s) pml4 [pdpt, pd, pt]" "tlb s = Map.empty"
    "read64 (vpm s) 0x100000000 = Some w0" "read64 (vpm s) 0x100001000 = Some w1"
  shows "\<exists>s'. mapping_main keep pml4 pdpt pd pt s = Some ([w0, w1, w0, w1], s')"
proof -
  define f where "f = ents (vpm s)"
  have fr: "aligned_to 12 0x100000000" "aligned_to 12 0x100001000" by (simp_all add: aligned_to_def)
  note t = table_set_ents [OF assms(1), folded f_def]
  have ne: "distinct [pml4, pdpt, pd, pt]" "{0x100000000, 0x100001000} \<inter> {pdpt, pd, pt} = {}"
    using assms(1) by (auto simp: table_set_def)
  have F: "\<exists>e. f (pdpt, 2) = Some e" "\<exists>e. f (pd, 0) = Some e" "\<exists>e. f (pt, 0) = Some e" "\<exists>e. f (pt, 1) = Some e"
      "\<exists>e. f (pt, 2) = Some e" "f (pml4, 0) = Some (pdpt OR 7)" "f (0x100000000, 0) = Some w0" "f (0x100001000, 0) = Some w1"
    using t(1) t(2) t(5) [OF fr(1) assms(3)] t(5) [OF fr(2) assms(4)] by auto
  have B: "pml4 < 2 ^ 52" "pdpt < 2 ^ 52" "pd < 2 ^ 52" "pt < 2 ^ 52" using t(3,4) by simp_all
  have M: "maps g pml4 v b" if "g (pml4, 0) = Some (pdpt OR 7)" "g (pdpt, 2) = Some (pd OR 7)" "g (pd, 0) = Some (pt OR 7)"
      "g (pt, i) = Some (b OR 7)" "(v, i) \<in> {(0x80000000, 0), (0x80001000, 1), (0x80002000, 2)}"
      "b \<in> {0x100000000, 0x100001000}" for g v b i
    using that B fr by (intro mapsI [of v pml4 b pdpt pd pt g]) (auto simp: tutorial_index)
  have V: "vpage 0x80000000 = 0x80000" "vpage 0x80001000 = 0x80001" "vpage 0x80002000 = 0x80002"
    by (simp_all add: vpage_def)
  have R: "rep f Map.empty s" using assms(2) by (simp add: rep_def f_def)
  have "returns (mapping_main keep pml4 pdpt pd pt s) (\<lambda>(xs, s'). xs = [w0, w1, w0, w1])"
    unfolding mapping_main_def Let_def v2p_def tutorial_slots rwu_7
    apply (rule wp_vset [OF R], use F in blast)
    apply (rule wp_vset, assumption, use F ne in simp)
    apply (rule wp_vset, assumption, use F ne in simp)
    apply (rule wp_vload [where b = "0x100000000" and x = w0], assumption, simp)
       apply (rule M [where i = 0], use F ne in simp_all)[1]
      apply simp
     apply (use F ne in simp)
    apply (rule wp_vset, assumption, use F ne in simp)
    apply (rule wp_vload [where b = "0x100001000" and x = w1], rule rep_invlpg, assumption, simp)
       apply (rule M [where i = 0], use F ne in simp_all)[1]
      apply simp
     apply (use F ne in simp)
    apply (rule wp_vset, assumption, use F ne in simp)
    apply (rule wp_vset, assumption, use F ne in simp)
    apply (rule wp_vload [where b = "0x100000000" and x = w0], assumption, use V in simp)
       apply (rule M [where i = 1], use F ne in simp_all)[1]
      apply simp
     apply (use F ne in simp)
    apply (rule wp_vload [where b = "0x100001000" and x = w1], assumption, use V in simp)
       apply (rule M [where i = 2], use F ne in simp_all)[1]
      apply simp
     apply (use F ne in simp)
    apply (simp add: returns_def)
    done
  then show ?thesis by (auto simp: returns_def)
qed


definition tutorial_mem :: mem where
  "tutorial_mem = (\<lambda>a. Some (if a = 0x1000 then 7 else if a = 0x1001 then 0x20
     else if a = 0x100000000 then 1 else if a = 0x100001000 then 2 else 0))"

lemma tutorial_mem_reads:
  "\<exists>w. read_le n tutorial_mem a = Some w" "read64 tutorial_mem 0x100000000 = Some 1"
  "read64 tutorial_mem 0x100001000 = Some 2" "read64 tutorial_mem 0x1000 = Some 0x2007"
proof -
  have "\<exists>b. tutorial_mem a = Some b" for a by (simp add: tutorial_mem_def)
  then show "\<exists>w. read_le n tutorial_mem a = Some w"
    by (induction n arbitrary: a) (simp, metis bind.bind_lunit read_le.simps(2))
qed (simp_all add: tutorial_mem_def read_le_numeral)

lemma tutorial_tables:
  "table_set tutorial_mem 0x1000 [0x2000, 0x3000, 0x4000]" "table_set tutorial_mem 0x1000 [0x2000, 0x3000, 0x4000, 0x5000]"
  using tutorial_mem_reads by (simp_all add: table_set_def aligned_to_def page_entry_def)

text \<open>Witness: tables at 0x1000 to 0x4000, the word 1 in the first page and the word 2 in the second.\<close>

theorem mapping_shows_witness:
  "\<exists>s'. mapping_main (\<lambda>_. True) 0x1000 0x2000 0x3000 0x4000 \<lparr>vpm = tutorial_mem, tlb = Map.empty\<rparr> = Some ([1, 2, 1, 2], s')"
  by (rule mapping_shows) (simp_all add: tutorial_tables tutorial_mem_reads)

lemma index_bounds:
  "2 ^ j * q \<le> unat v \<Longrightarrow> unat v < 2 ^ j * Suc q \<Longrightarrow> pt_index j v = of_nat (q mod 512)"
proof -
  assume "2 ^ j * q \<le> unat v" "unat v < 2 ^ j * Suc q"
  then have "unat v div 2 ^ j = q" by (intro div_nat_eqI) (simp_all add: mult.commute)
  then have "unat (pt_index j v) = q mod 512" by (simp add: unat_pt_index)
  then show ?thesis by (simp add: word_unat_eq_iff unat_of_nat take_bit_nat_eq_self)
qed

lemma in_low_region: "v \<in> region a n \<Longrightarrow> unat a + n \<le> 2 ^ 64 \<Longrightarrow> unat a \<le> unat v \<and> unat v < unat a + n"
  by (simp add: region_interval)

lemma offset_2MB:
  fixes v :: u64
  assumes "0x80000000 \<le> unat v" "unat v < 0x80200000"
  shows "take_bit 21 v = v - 0x80000000"
proof -
  have "unat v mod 2 ^ 21 = unat v - 0x80000000"
    using assms by (simp add: mod_nat_eqI)
  then show ?thesis using assms by (simp add: word_unat_eq_iff unat_take_bit unat_sub_if')
qed

text \<open>What the two other programs find in the tables, and what the new entries translate.\<close>

lemma extended_start:
  assumes "table_set m pml4 [pdpt, pd, pt1, pt2]" "read64 m 0x100000000 = Some w0"
  shows "distinct [pml4, pdpt, pd, pt1, pt2]" "0x100000000 \<notin> {pdpt, pd, pt1, pt2}"
    "\<exists>e. ents m (pdpt, 2) = Some e" "\<exists>e. ents m (pd, 0) = Some e" "\<exists>e. ents m (pd, 1) = Some e"
    "\<exists>e. ents m (pt1, 0) = Some e" "\<exists>e. ents m (pt2, 0) = Some e" "ents m (pml4, 0) = Some (pdpt OR 7)"
    "ents m (0x100000000, 0) = Some w0"
    "pml4 < 2 ^ 52" "pdpt < 2 ^ 52" "pd < 2 ^ 52" "pt1 < 2 ^ 52" "pt2 < 2 ^ 52"
proof -
  note t = table_set_ents [OF assms(1)]
  have "aligned_to 12 0x100000000" by (simp add: aligned_to_def)
  from t(5) [OF this assms(2)] show "ents m (0x100000000, 0) = Some w0" .
  show "distinct [pml4, pdpt, pd, pt1, pt2]" "0x100000000 \<notin> {pdpt, pd, pt1, pt2}" using assms(1) by (auto simp: table_set_def)
qed (use table_set_ents [OF assms(1)] in auto)

lemma address_space_walk:
  assumes f: "f (pml4, 0) = Some (pdpt OR 7)" "distinct [pml4, pdpt, pd]" "pml4 < 2 ^ 52" "pdpt < 2 ^ 52" "pd < 2 ^ 52"
    and m: "ents m = f((pdpt, 2) \<mapsto> pd OR 7, (pd, 0) \<mapsto> 0x100000087)" and r: "v \<in> region 0x80000000 0x200000"
  shows "walk m pml4 v = Some (0x100000000 + (v - 0x80000000), True)"
proof -
  have v: "0x80000000 \<le> unat v" "unat v < 0x80200000" using in_low_region [OF r] by simp_all
  then have "pt_index 39 v = 0" "pt_index 30 v = 2" "pt_index 21 v = 0" "v < 2 ^ 47"
    using index_bounds [of 39 0 v] index_bounds [of 30 2 v] index_bounds [of 21 1024 v] by (simp_all add: word_less_nat_alt)
  then have "walk m pml4 v = Some (0x100000000 + take_bit 21 v, True)"
    using f m by (intro ents_walk_2MB [of v pml4 pdpt pd]) (auto simp: aligned_to_def)
  moreover have "take_bit 21 v = v - 0x80000000" by (rule offset_2MB [OF v])
  ultimately show ?thesis by simp
qed

lemma address_space_run:
  assumes "table_set (vpm s) pml4 [pdpt, pd, pt1, pt2]" "tlb s = Map.empty" "read64 (vpm s) 0x100000000 = Some w0"
  shows "\<exists>s'. address_space_main keep pml4 pdpt pd s = Some ([w0], s') \<and>
    ents (vpm s') = (ents (vpm s))((pdpt, 2) \<mapsto> pd OR 7, (pd, 0) \<mapsto> 0x100000087)"
proof -
  note F = extended_start [OF assms(1,3)]
  have R: "rep (ents (vpm s)) Map.empty s" using assms(2) by (simp add: rep_def)
  have here: "0x80000000 \<in> region 0x80000000 0x200000" by (simp add: region_interval)
  have "returns (address_space_main keep pml4 pdpt pd s) (\<lambda>(xs, s'). xs = [w0] \<and>
      ents (vpm s') = (ents (vpm s))((pdpt, 2) \<mapsto> pd OR 7, (pd, 0) \<mapsto> 0x100000087))"
    unfolding address_space_main_def Let_def v2p_def tutorial_slots rwu_7
    apply (rule wp_vset [OF R], use F(3) in blast)
    apply (rule wp_vset, assumption, use F in simp)
    apply (rule wp_vload_walk [where b = "0x100000000" and x = w0], assumption, simp)
       apply (use address_space_walk [of "ents (vpm s)" pml4 pdpt pd, OF F(8) _ F(10-12) _ here] F(1) in simp)
      apply simp
     apply (use F in simp)
    apply (simp add: returns_def rep_def)
    done
  then show ?thesis by (auto simp: returns_def)
qed

lemma hierarchy_run:
  assumes "table_set (vpm s) pml4 [pdpt, pd, pt1, pt2]" "tlb s = Map.empty" "read64 (vpm s) 0x100000000 = Some w0"
  shows "\<exists>s'. hierarchy_main pdpt pd pt1 pt2 s = Some s' \<and> ents (vpm s') = (ents (vpm s))((pdpt, 2) \<mapsto> pd OR 7,
    (pd, 0) \<mapsto> pt1 OR 7, (pt1, 0) \<mapsto> 0x100000007, (pd, 1) \<mapsto> pt2 OR 7, (pt2, 0) \<mapsto> 0x100000007)"
proof -
  note F = extended_start [OF assms(1,3)]
  have R: "rep (ents (vpm s)) Map.empty s" using assms(2) by (simp add: rep_def)
  have "returns (hierarchy_main pdpt pd pt1 pt2 s) (\<lambda>s'. ents (vpm s') = (ents (vpm s))((pdpt, 2) \<mapsto> pd OR 7,
      (pd, 0) \<mapsto> pt1 OR 7, (pt1, 0) \<mapsto> 0x100000007, (pd, 1) \<mapsto> pt2 OR 7, (pt2, 0) \<mapsto> 0x100000007))"
    unfolding hierarchy_main_def Let_def v2p_def tutorial_slots rwu_7
    apply (rule wp_vset [OF R], use F(3) in blast)
    apply (rule wp_vset, assumption, use F in simp)
    apply (rule wp_vset, assumption, use F in simp)
    apply (rule wp_vset, assumption, use F in simp)
    apply (rule wp_vset_last, assumption, use F in simp)
    apply (simp add: rep_def)
    done
  then show ?thesis by (simp add: returns_def)
qed

lemma hierarchy_walk:
  assumes f: "f (pml4, 0) = Some (pdpt OR 7)" "distinct [pml4, pdpt, pd, pt1, pt2]"
    "pml4 < 2 ^ 52" "pdpt < 2 ^ 52" "pd < 2 ^ 52" "pt1 < 2 ^ 52" "pt2 < 2 ^ 52"
    and m: "ents m = f((pdpt, 2) \<mapsto> pd OR 7, (pd, 0) \<mapsto> pt1 OR 7, (pt1, 0) \<mapsto> 0x100000007, (pd, 1) \<mapsto> pt2 OR 7,
      (pt2, 0) \<mapsto> 0x100000007)"
    and r: "v \<in> region 0x80000000 0x1000 \<union> region 0x80200000 0x1000"
  shows "walk m pml4 v = Some (0x100000000 + take_bit 12 v, True)"
proof (rule maps_walk)
  have fr: "aligned_to 12 0x100000000" by (simp add: aligned_to_def)
  consider "0x80000000 \<le> unat v" "unat v < 0x80001000" | "0x80200000 \<le> unat v" "unat v < 0x80201000"
    using r in_low_region [of v "0x80000000" "0x1000"] in_low_region [of v "0x80200000" "0x1000"] by auto
  then show "maps (ents m) pml4 v 0x100000000"
  proof cases
    case 1
    then have "pt_index 39 v = 0" "pt_index 30 v = 2" "pt_index 21 v = 0" "pt_index 12 v = 0" "v < 2 ^ 47"
      using index_bounds [of 39 0 v] index_bounds [of 30 2 v] index_bounds [of 21 1024 v] index_bounds [of 12 524288 v]
      by (simp_all add: word_less_nat_alt)
    then show ?thesis unfolding m using f fr by (intro mapsI [of v pml4 _ pdpt pd pt1]) auto
  next
    case 2
    then have "pt_index 39 v = 0" "pt_index 30 v = 2" "pt_index 21 v = 1" "pt_index 12 v = 0" "v < 2 ^ 47"
      using index_bounds [of 39 0 v] index_bounds [of 30 2 v] index_bounds [of 21 1025 v] index_bounds [of 12 524800 v]
      by (simp_all add: word_less_nat_alt)
    then show ?thesis unfolding m using f fr by (intro mapsI [of v pml4 _ pdpt pd pt2]) auto
  qed
qed

text \<open>
  C29: The two other programs that only extend the tables map what they mean to map. The
  address-space tutorial maps the 2MB from 0x80000000 onto the first 2MB of the friend's memory and
  prints its first word; the hierarchy tutorial maps the pages at 0x80000000 and 0x80200000, which
  need two page tables, both onto the first page of the friend's memory.\<close>

theorem tables_extended:
  assumes "table_set (vpm s) pml4 [pdpt, pd, pt1, pt2]" "tlb s = Map.empty" "read64 (vpm s) 0x100000000 = Some w0"
  shows "(\<exists>s'. address_space_main keep pml4 pdpt pd s = Some ([w0], s') \<and>
      (\<forall>v \<in> region 0x80000000 0x200000.
         walk (vpm s') pml4 v = Some (0x100000000 + (v - 0x80000000), True))) \<and>
    (\<exists>s'. hierarchy_main pdpt pd pt1 pt2 s = Some s' \<and>
      (\<forall>v \<in> region 0x80000000 0x1000 \<union> region 0x80200000 0x1000.
         walk (vpm s') pml4 v = Some (0x100000000 + take_bit 12 v, True)))"
proof -
  note F = extended_start [OF assms(1,3)]
  obtain s1 where s1: "address_space_main keep pml4 pdpt pd s = Some ([w0], s1)"
    "ents (vpm s1) = (ents (vpm s))((pdpt, 2) \<mapsto> pd OR 7, (pd, 0) \<mapsto> 0x100000087)"
    using address_space_run [OF assms] by blast
  obtain s2 where s2: "hierarchy_main pdpt pd pt1 pt2 s = Some s2" "ents (vpm s2) = (ents (vpm s))((pdpt, 2) \<mapsto> pd OR 7,
      (pd, 0) \<mapsto> pt1 OR 7, (pt1, 0) \<mapsto> 0x100000007, (pd, 1) \<mapsto> pt2 OR 7, (pt2, 0) \<mapsto> 0x100000007)"
    using hierarchy_run [OF assms] by blast
  have "distinct [pml4, pdpt, pd]" using F(1) by simp
  from s1(1) address_space_walk [of "ents (vpm s)" pml4 pdpt pd, OF F(8) this F(10-12) s1(2)] s2(1) hierarchy_walk [of "ents (vpm s)" pml4 pdpt pd pt1 pt2, OF F(8,1,10-14) s2(2)]
  show ?thesis by blast
qed

text \<open>Witness: the same memory, with a table more at 0x5000.\<close>

theorem tables_extended_witness:
  "(\<exists>s'. address_space_main (\<lambda>_. True) 0x1000 0x2000 0x3000 \<lparr>vpm = tutorial_mem, tlb = Map.empty\<rparr> = Some ([1], s') \<and>
      (\<forall>v \<in> region 0x80000000 0x200000.
         walk (vpm s') 0x1000 v = Some (0x100000000 + (v - 0x80000000), True))) \<and>
    (\<exists>s'. hierarchy_main 0x2000 0x3000 0x4000 0x5000 \<lparr>vpm = tutorial_mem, tlb = Map.empty\<rparr> = Some s' \<and>
      (\<forall>v \<in> region 0x80000000 0x1000 \<union> region 0x80200000 0x1000.
         walk (vpm s') 0x1000 v = Some (0x100000000 + take_bit 12 v, True)))"
proof -
  let ?s = "\<lparr>vpm = tutorial_mem, tlb = Map.empty\<rparr>"
  have "table_set (vpm ?s) 0x1000 [0x2000, 0x3000, 0x4000, 0x5000]" "tlb ?s = Map.empty" "read64 (vpm ?s) 0x100000000 = Some 1"
    by (simp_all only: vstate.select_convs tutorial_tables tutorial_mem_reads)
  then show ?thesis by (rule tables_extended)
qed

end
