(* ===== verification/Tutorial_Faults.thy ===== *)
theory Tutorial_Faults
  imports Exceptions Tutorial_Paging
begin

text \<open>
  The tutorials that provoke exceptions: \<^verbatim>\<open>src/tutorial/interrupt/exception_recovery\<close>,
  \<^verbatim>\<open>src/tutorial/interrupt/jump\<close> and \<^verbatim>\<open>src/tutorial/paging/pagefault\<close>. A faulting instruction is
  restarted when its handler returns, so whether a program ends depends on what the handler repairs;
  \<open>None\<close> is a program that never ends.
\<close>

section \<open>Restarting an instruction\<close>

datatype 'a outcome = Crash | Done 'a

datatype 'r attempt = Fault nat "u64 option" | Complete 'r | Stuck

text \<open>
  \<open>Crash\<close> is an exception that cannot be delivered or a handler that breaks; \<open>handle\<close> gives \<open>None\<close>
  when the handler does not return.
\<close>

partial_function (option) restart ::
  "('s \<Rightarrow> 'r attempt) \<Rightarrow> (nat \<Rightarrow> u64 option \<Rightarrow> 's \<Rightarrow> 's outcome option) \<Rightarrow> 's \<Rightarrow> 'r outcome option" where
  "restart step handle s = (case step s of
      Complete r \<Rightarrow> Some (Done r)
    | Stuck \<Rightarrow> Some Crash
    | Fault n err \<Rightarrow> do {
        t \<leftarrow> handle n err s;
        case t of Crash \<Rightarrow> Some Crash | Done s' \<Rightarrow> restart step handle s' })"

text \<open>
  Two contracts of a handler for the instruction \<open>step\<close>: one whose faulting states lead only to
  faulting states, and one that turns a faulting state into one where the instruction completes.
\<close>

locale stuck_handler =
  fixes step :: "'s \<Rightarrow> 'r attempt" and handle :: "nat \<Rightarrow> u64 option \<Rightarrow> 's \<Rightarrow> 's outcome option"
    and inv :: "'s \<Rightarrow> bool"
  assumes faults: "inv s \<Longrightarrow> \<exists>n err. step s = Fault n err \<and>
    (handle n err s = None \<or> (\<exists>s'. handle n err s = Some (Done s') \<and> inv s'))"
begin

lemma returned_not_inv: "restart st h s = Some r \<Longrightarrow> st = step \<longrightarrow> h = handle \<longrightarrow> \<not> inv s"
proof (rule restart.raw_induct [where P = "\<lambda>st h s r. st = step \<longrightarrow> h = handle \<longrightarrow> \<not> inv s"])
  fix rec st h s r
  assume rec: "\<And>st h s r. rec st h s = Some r \<Longrightarrow> st = step \<longrightarrow> h = handle \<longrightarrow> \<not> inv s"
    and run: "(case st s of Fault n err \<Rightarrow> h n err s \<bind> (\<lambda>t. case t of Crash \<Rightarrow> Some Crash | Done s' \<Rightarrow> rec st h s')
      | Complete r \<Rightarrow> Some (Done r) | Stuck \<Rightarrow> Some Crash) = Some r"
  show "st = step \<longrightarrow> h = handle \<longrightarrow> \<not> inv s"
  proof (intro impI notI)
    assume "st = step" "h = handle" "inv s"
    moreover obtain n err where "step s = Fault n err"
      "handle n err s = None \<or> (\<exists>s'. handle n err s = Some (Done s') \<and> inv s')"
      using faults [OF \<open>inv s\<close>] by blast
    ultimately show False using rec run by auto
  qed
qed

lemma never_ends: "inv s \<Longrightarrow> restart step handle s = None"
  using returned_not_inv [of step handle s] by (cases "restart step handle s") auto

end

locale recovering_handler =
  fixes step :: "'s \<Rightarrow> 'r attempt" and handle :: "nat \<Rightarrow> u64 option \<Rightarrow> 's \<Rightarrow> 's outcome option"
    and faulty :: "'s \<Rightarrow> bool" and result :: "'s \<Rightarrow> 'r \<Rightarrow> bool"
  assumes recovers: "faulty s \<Longrightarrow> \<exists>n err s' r. step s = Fault n err \<and> handle n err s = Some (Done s') \<and>
    step s' = Complete r \<and> result s r"
begin

lemma ends_repaired:
  assumes "faulty s"
  shows "\<exists>r. restart step handle s = Some (Done r) \<and> result s r"
proof -
  obtain n err s' r where "step s = Fault n err" "handle n err s = Some (Done s')" "step s' = Complete r" "result s r"
    using recovers [OF assms] by blast
  moreover have "restart step handle s' = Some (Done r)" if "step s' = Complete r" for s' r
    using that by (subst restart.simps) simp
  ultimately have "restart step handle s = Some (Done r)" by (subst restart.simps) simp
  then show ?thesis using \<open>result s r\<close> by blast
qed

end

section \<open>Handlers in the program text\<close>

type_synonym handler_code = "xcpu \<Rightarrow> xcpu outcome option"

definition returning :: "xcpu option \<Rightarrow> xcpu outcome option" where
  "returning r = Some (case r of None \<Rightarrow> Crash | Some c \<Rightarrow> Done c)"

text \<open>\<open>code\<close> maps the addresses of the handlers to what they do, up to and including \<^verbatim>\<open>iretq\<close>.\<close>

definition handle :: "(addr \<rightharpoonup> handler_code) \<Rightarrow> nat \<Rightarrow> u64 option \<Rightarrow> handler_code" where
  "handle code n err c = (case deliver n err c of None \<Rightarrow> Some Crash
    | Some c0 \<Rightarrow> (case code (rip (xm c0)) of None \<Rightarrow> Some Crash | Some h \<Rightarrow> h c0))"

text \<open>
  \<^verbatim>\<open>wait_input\<close> of the tutorials, over the characters that \<^verbatim>\<open>getchar\<close> delivers: the first digit 1 or 2.
\<close>

definition atoi_digit :: "char \<Rightarrow> int" where
  "atoi_digit ch = (let n = (of_char ch :: int) in if 48 \<le> n \<and> n \<le> 57 then n - 48 else 0)"

fun wait_input :: "string \<Rightarrow> (int \<times> string) option" where
  "wait_input [] = None"
| "wait_input (ch # inp) = (let i = atoi_digit ch in if i < 1 \<or> i > 2 then wait_input inp else Some (i, inp))"

lemma wait_input_12: "wait_input inp = Some (i, rest) \<Longrightarrow> i = 1 \<or> i = 2"
  by (induction inp) (auto simp: Let_def split: if_splits)

section \<open>Division by zero\<close>

text \<open>\<^verbatim>\<open>divl\<close> on EDX:EAX; a zero divisor or a quotient of more than 32 bits raises exception 0.\<close>

definition divl :: "reg \<Rightarrow> xcpu \<Rightarrow> xcpu attempt" where
  "divl r c = (let s = xm c; d = take_bit 32 (gpr s r);
       n = push_bit 32 (take_bit 32 (gpr s RDX)) OR take_bit 32 (gpr s RAX) in
     if d = 0 \<or> n div d \<ge> 2 ^ 32 then Fault 0 None
     else Complete (c\<lparr>xm := (set_reg RDX (n mod d) (set_reg RAX (n div d) s))\<lparr>rip := rip s + 2\<rparr>,
       xflags := xflags c AND NOT RF\<rparr>))"

definition er_int_handler1 :: handler_code where
  "er_int_handler1 c = returning (iretq c)"

definition er_int_handler2 :: handler_code where
  "er_int_handler2 c = returning (do { s \<leftarrow> exec [MovIR 1 RBX] (xm c); iretq (c\<lparr>xm := s\<rparr>) })"

text \<open>
  \<^verbatim>\<open>hlt\<close> waits; when something wakes the processor it goes on behind the instruction with its
  registers as they were. The loop around it has no way out.
\<close>

definition hlt :: "xcpu \<Rightarrow> xcpu option" where
  "hlt c = Some c"

partial_function (option) jump_int_handler :: handler_code where
  "jump_int_handler c = do { c \<leftarrow> hlt c; jump_int_handler c }"

text \<open>The arguments of the inline assembly: the dividend 1 in EDX:EAX, the divisor in EBX.\<close>

definition div_args :: "u64 \<Rightarrow> xcpu \<Rightarrow> xcpu" where
  "div_args b c = c\<lparr>xm := set_reg RBX b (set_reg RDX 0 (set_reg RAX 1 (xm c)))\<rparr>"

definition install :: "nat \<Rightarrow> addr \<Rightarrow> addr \<Rightarrow> addr \<Rightarrow> xcpu \<Rightarrow> xcpu option" where
  "install n idt idtr h c = do {
     m \<leftarrow> setup_inthandler n idt idtr h (cmem (xm c));
     r \<leftarrow> load_idtr m idtr;
     Some (c\<lparr>xm := (xm c)\<lparr>cmem := m\<rparr>, xidtr := r\<rparr>) }"

definition er_text :: "addr \<Rightarrow> addr \<Rightarrow> addr \<rightharpoonup> handler_code" where
  "er_text h1 h2 = [h1 \<mapsto> er_int_handler1, h2 \<mapsto> er_int_handler2]"

definition er_friend_main :: "addr \<Rightarrow> addr \<Rightarrow> addr \<Rightarrow> addr \<Rightarrow> string \<Rightarrow> xcpu \<Rightarrow> xcpu outcome option" where
  "er_friend_main idt idtr h1 h2 inp c = do {
     (i, _) \<leftarrow> wait_input inp;
     case install 0 idt idtr ([h1, h2] ! nat (i - 1)) c of None \<Rightarrow> Some Crash
     | Some c \<Rightarrow> restart (divl RBX) (handle (er_text h1 h2)) (div_args 0 c) }"

definition jump_friend_main :: "addr \<Rightarrow> addr \<Rightarrow> addr \<Rightarrow> string \<Rightarrow> xcpu \<Rightarrow> xcpu outcome option" where
  "jump_friend_main idt idtr h inp c = (case install 0 idt idtr h c of None \<Rightarrow> Some Crash
     | Some c \<Rightarrow> do {
         (i, _) \<leftarrow> wait_input inp;
         if i = 1 then restart (divl RBX) (handle [h \<mapsto> jump_int_handler]) (div_args 1 c)
         else restart (divl RBX) (handle [h \<mapsto> jump_int_handler]) (div_args 0 c) })"

text \<open>
  A state in which exception \<open>n\<close> can be delivered to \<open>h\<close>: the gate is in place, there is room for
  \<open>k\<close> words on the stack, and the gate is not among them.
\<close>

definition gate_words :: "nat \<Rightarrow> xcpu \<Rightarrow> addr set" where
  "gate_words n c = {snd (xidtr c) + 16 * of_nat n, snd (xidtr c) + 16 * of_nat n + 8}"

definition armed :: "nat \<Rightarrow> addr \<Rightarrow> nat \<Rightarrow> xcpu \<Rightarrow> bool" where
  "armed n h k c \<longleftrightarrow> load_gate (cmem (xm c)) (xidtr c) n = Some (interrupt_gate h) \<and> long_code (xgdt c) 0x10 \<and>
     long_code (xgdt c) (xcs c) \<and> room (cmem (xm c)) (exc_sp c) k \<and>
     (\<forall>a \<in> gate_words n c. aligned8 a \<and> a \<notin> slots (exc_sp c) k)"

text \<open>The states that differ in the stack words, the flags and registers other than the stack pointer.\<close>

definition same_frame :: "nat \<Rightarrow> xcpu \<Rightarrow> xcpu \<Rightarrow> bool" where
  "same_frame k c c' \<longleftrightarrow> gpr (xm c') RSP = gpr (xm c) RSP \<and> xcs c' = xcs c \<and> xgdt c' = xgdt c \<and> xidtr c' = xidtr c \<and>
     same_words (slots (exc_sp c) k) (cmem (xm c)) (cmem (xm c'))"

lemma armed_same: "armed n h k c \<Longrightarrow> same_frame k c c' \<Longrightarrow> armed n h k c'"
proof -
  assume a: "armed n h k c" and f: "same_frame k c c'"
  have sp: "exc_sp c' = exc_sp c" using f by (simp add: exc_sp_def same_frame_def)
  have g: "gate_words n c' = gate_words n c" using f by (simp add: gate_words_def same_frame_def)
  have "read64 (cmem (xm c')) x = read64 (cmem (xm c)) x" if "x \<in> gate_words n c" for x
    using that a f by (auto simp: armed_def same_frame_def same_words_def)
  then have "load_gate (cmem (xm c')) (xidtr c') n = load_gate (cmem (xm c)) (xidtr c) n"
    using f by (simp add: load_gate_def gate_words_def same_frame_def)
  moreover have "room (cmem (xm c')) (exc_sp c) k"
    using a f slots_aligned [of "exc_sp c"] by (auto simp: armed_def room_def same_frame_def same_words_def)
  ultimately show ?thesis using a f sp g by (simp add: armed_def same_frame_def)
qed

lemma iret_frame:
  assumes "armed n h k c" "length (exc_frame None c) \<le> k"
  shows "\<exists>c0 m. deliver n None c = Some c0 \<and> rip (xm c0) = h \<and> same_words (slots (exc_sp c) k) (cmem (xm c)) m \<and>
    (\<forall>g. g RSP = gpr (xm c0) RSP \<longrightarrow> iretq (c0\<lparr>xm := (xm c0)\<lparr>gpr := g\<rparr>\<rparr>) =
       Some (c\<lparr>xm := (xm c)\<lparr>gpr := g(RSP := gpr (xm c) RSP), cmem := m\<rparr>, xflags := xflags c OR RF\<rparr>)) \<and>
    gpr (xm c0) = (gpr (xm c))(RSP := gpr (xm c0) RSP)"
proof -
  let ?k = "length (exc_frame None c)"
  have "room (cmem (xm c)) (exc_sp c) ?k"
    using assms slots_mono [of ?k k "exc_sp c"] by (auto simp: armed_def room_def)
  then obtain m where d: "deliver n None c = Some (c\<lparr>xm := (set_reg RSP (exc_sp c - 8 * of_nat ?k) (xm c))\<lparr>cmem := m, rip := h\<rparr>,
      xflags := xflags c AND NOT gate_cleared, xcs := 0x10\<rparr>)"
    and m: "same_words (slots (exc_sp c) ?k) (cmem (xm c)) m" "stack_at m (exc_sp c - 8 * of_nat ?k) (rev (exc_frame None c))"
    using deliver_run [of c n h None] assms(1) by (auto simp: armed_def)
  let ?c0 = "c\<lparr>xm := (set_reg RSP (exc_sp c - 8 * of_nat ?k) (xm c))\<lparr>cmem := m, rip := h\<rparr>,
      xflags := xflags c AND NOT gate_cleared, xcs := 0x10\<rparr>"
  have "iretq (?c0\<lparr>xm := (xm ?c0)\<lparr>gpr := g\<rparr>\<rparr>) =
       Some (c\<lparr>xm := (xm c)\<lparr>gpr := g(RSP := gpr (xm c) RSP), cmem := m\<rparr>, xflags := xflags c OR RF\<rparr>)"
    if g: "g RSP = gpr (xm ?c0) RSP" for g
  proof -
    have "stack_at (cmem (xm (?c0\<lparr>xm := (xm ?c0)\<lparr>gpr := g\<rparr>\<rparr>))) (gpr (xm (?c0\<lparr>xm := (xm ?c0)\<lparr>gpr := g\<rparr>\<rparr>)) RSP)
        ([rip (xm c), ucast (xcs c), xflags c OR RF, gpr (xm c) RSP, ucast (xss c)] @ [])"
      using m(2) g by (simp add: exc_frame_rev set_reg_def)
    from iretq_run [OF this] show ?thesis using assms(1) by (simp add: armed_def set_reg_def)
  qed
  moreover have "same_words (slots (exc_sp c) k) (cmem (xm c)) m"
    using same_words_trans [OF m(1), of "{}" m "slots (exc_sp c) k"] slots_mono [OF assms(2), of "exc_sp c"] by simp
  moreover have "gpr (xm ?c0) = (gpr (xm c))(RSP := gpr (xm ?c0) RSP)" "rip (xm ?c0) = h" by (simp_all add: set_reg_def)
  ultimately show ?thesis using d by blast
qed

definition startable :: "nat \<Rightarrow> addr \<Rightarrow> addr \<Rightarrow> nat \<Rightarrow> xcpu \<Rightarrow> bool" where
  "startable n idt idtr k c \<longleftrightarrow> n < 64 \<and> aligned8 idt \<and>
     region (idt + 16 * of_nat n) 16 \<subseteq> dom (cmem (xm c)) \<and> region idtr 10 \<subseteq> dom (cmem (xm c)) \<and>
     region (idt + 16 * of_nat n) 16 \<inter> region idtr 10 = {} \<and> xgdt c = gdt_desc64 \<and> xcs c = 0x10 \<and>
     room (cmem (xm c)) (exc_sp c) k \<and> {idt + 16 * of_nat n, idt + 16 * of_nat n + 8} \<inter> slots (exc_sp c) k = {}"

lemma install_armed:
  assumes "startable n idt idtr k c"
  obtains m r where "install n idt idtr h c = Some (c\<lparr>xm := (xm c)\<lparr>cmem := m\<rparr>, xidtr := r\<rparr>)"
    "armed n h k (c\<lparr>xm := (xm c)\<lparr>cmem := m\<rparr>, xidtr := r\<rparr>)"
    "\<forall>x. x \<notin> region (idt + 16 * of_nat n) 16 \<union> region idtr 10 \<longrightarrow> m x = cmem (xm c) x" "r = (0x3FF, idt)"
proof -
  obtain m where m: "setup_inthandler n idt idtr h (cmem (xm c)) = Some m" "load_idtr m idtr = Some (0x3FF, idt)"
    "load_gate m (0x3FF, idt) n = Some (interrupt_gate h)" "dom m = dom (cmem (xm c))"
    "\<forall>x. x \<notin> region (idt + 16 * of_nat n) 16 \<union> region idtr 10 \<longrightarrow> m x = cmem (xm c) x"
    using inthandler_run [of idt n "cmem (xm c)" idtr h] assms by (auto simp: startable_def)
  let ?c = "c\<lparr>xm := (xm c)\<lparr>cmem := m\<rparr>, xidtr := (0x3FF, idt)\<rparr>"
  have defd: "read64 m a \<noteq> None" if "read64 (cmem (xm c)) a \<noteq> None" for a
    using read_le_defined [of a 8 m] read64_mapped [OF that] m(4) by auto
  have sp: "exc_sp ?c = exc_sp c" by (simp add: exc_sp_def)
  have al: "aligned8 (idt + 16 * of_nat n)" "aligned8 (idt + 16 * of_nat n + 8)"
    using assms by (auto simp: startable_def aligned8_iff unat_word_ariths mod_mod_cancel intro!: aligned8_add)
  have "room m (exc_sp c) k" using assms defd by (auto simp: startable_def room_def)
  then have "armed n h k ?c"
    using m(3) assms long_code_boot al unfolding armed_def sp by (auto simp: startable_def gate_words_def)
  moreover have "install n idt idtr h c = Some ?c" using m(1,2) by (simp add: install_def)
  ultimately show ?thesis using m(5) by (intro that) simp_all
qed

lemma frame_len: "length (exc_frame None c) \<le> 5"
  by (simp add: exc_frame_def)

lemma er_handle1:
  assumes "armed 0 h 5 c" "code h = Some er_int_handler1"
  obtains m where "handle code 0 None c = Some (Done (c\<lparr>xm := (xm c)\<lparr>cmem := m\<rparr>, xflags := xflags c OR RF\<rparr>))"
    "same_words (slots (exc_sp c) 5) (cmem (xm c)) m"
proof -
  obtain c0 m where d: "deliver 0 None c = Some c0" "rip (xm c0) = h" "same_words (slots (exc_sp c) 5) (cmem (xm c)) m"
    "\<forall>g. g RSP = gpr (xm c0) RSP \<longrightarrow> iretq (c0\<lparr>xm := (xm c0)\<lparr>gpr := g\<rparr>\<rparr>) =
       Some (c\<lparr>xm := (xm c)\<lparr>gpr := g(RSP := gpr (xm c) RSP), cmem := m\<rparr>, xflags := xflags c OR RF\<rparr>)"
    "gpr (xm c0) = (gpr (xm c))(RSP := gpr (xm c0) RSP)"
    using iret_frame [OF assms(1)] frame_len by blast
  have "(gpr (xm c0))(RSP := gpr (xm c) RSP) = gpr (xm c)" by (subst d(5)) simp
  then have "iretq c0 = Some (c\<lparr>xm := (xm c)\<lparr>cmem := m\<rparr>, xflags := xflags c OR RF\<rparr>)"
    using d(4) [rule_format, of "gpr (xm c0)"] by simp
  then show ?thesis using d(1-3) assms(2) by (intro that) (simp_all add: handle_def er_int_handler1_def returning_def)
qed

lemma er_handle2:
  assumes "armed 0 h 5 c" "code h = Some er_int_handler2"
  obtains m where "handle code 0 None c =
      Some (Done (c\<lparr>xm := (xm c)\<lparr>gpr := (gpr (xm c))(RBX := 1), cmem := m\<rparr>, xflags := xflags c OR RF\<rparr>))"
    "same_words (slots (exc_sp c) 5) (cmem (xm c)) m"
proof -
  obtain c0 m where d: "deliver 0 None c = Some c0" "rip (xm c0) = h" "same_words (slots (exc_sp c) 5) (cmem (xm c)) m"
    "\<forall>g. g RSP = gpr (xm c0) RSP \<longrightarrow> iretq (c0\<lparr>xm := (xm c0)\<lparr>gpr := g\<rparr>\<rparr>) =
       Some (c\<lparr>xm := (xm c)\<lparr>gpr := g(RSP := gpr (xm c) RSP), cmem := m\<rparr>, xflags := xflags c OR RF\<rparr>)"
    "gpr (xm c0) = (gpr (xm c))(RSP := gpr (xm c0) RSP)"
    using iret_frame [OF assms(1)] frame_len by blast
  have "(gpr (xm c0))(RBX := 1, RSP := gpr (xm c) RSP) = (gpr (xm c))(RBX := 1)" by (subst d(5)) auto
  then have "iretq (c0\<lparr>xm := set_reg RBX 1 (xm c0)\<rparr>) =
      Some (c\<lparr>xm := (xm c)\<lparr>gpr := (gpr (xm c))(RBX := 1), cmem := m\<rparr>, xflags := xflags c OR RF\<rparr>)"
    using d(4) [rule_format, of "(gpr (xm c0))(RBX := 1)"] by (simp add: set_reg_def)
  then show ?thesis using d(1-3) assms(2) by (intro that) (simp_all add: handle_def er_int_handler2_def returning_def)
qed

lemma jump_int_handler_None: "jump_int_handler c = None"
proof -
  have "jump_int_handler c = Some r \<Longrightarrow> False" for r
    by (rule jump_int_handler.raw_induct [of "\<lambda>_ _. False"]) (auto simp: hlt_def)
  then show ?thesis by (cases "jump_int_handler c") auto
qed

abbreviation zero_divisor :: "xcpu \<Rightarrow> bool" where "zero_divisor c \<equiv> take_bit 32 (gpr (xm c) RBX) = 0"

lemma divl_zero: "zero_divisor c \<Longrightarrow> divl RBX c = Fault 0 None"
  by (simp add: divl_def)

lemma divl_one: "gpr (xm c) RAX = 1 \<Longrightarrow> gpr (xm c) RDX = 0 \<Longrightarrow> gpr (xm c) RBX = 1 \<Longrightarrow>
    divl RBX c = Complete (c\<lparr>xm := (xm c)\<lparr>rip := rip (xm c) + 2\<rparr>, xflags := xflags c AND NOT RF\<rparr>)"
proof -
  assume g: "gpr (xm c) RAX = 1" "gpr (xm c) RDX = 0" "gpr (xm c) RBX = 1"
  then have "(gpr (xm c))(RAX := 1, RDX := 0) = gpr (xm c)" by auto
  then have "set_reg RDX 0 (set_reg RAX 1 (xm c)) = xm c" by (simp add: set_reg_def)
  moreover have "\<not> (2 ^ 32 :: u64) \<le> 1" by (simp add: word_le_nat_alt)
  ultimately show ?thesis using g by (simp add: divl_def Let_def)
qed

interpretation er1: stuck_handler "divl RBX" "handle (er_text h1 h2)"
  "\<lambda>c. h1 \<noteq> h2 \<and> armed 0 h1 5 c \<and> zero_divisor c" for h1 h2
proof
  fix c assume c: "h1 \<noteq> h2 \<and> armed 0 h1 5 c \<and> zero_divisor c"
  then have "er_text h1 h2 h1 = Some er_int_handler1" by (simp add: er_text_def)
  then obtain m where m: "handle (er_text h1 h2) 0 None c = Some (Done (c\<lparr>xm := (xm c)\<lparr>cmem := m\<rparr>, xflags := xflags c OR RF\<rparr>))"
    "same_words (slots (exc_sp c) 5) (cmem (xm c)) m"
    using er_handle1 c by blast
  let ?c = "c\<lparr>xm := (xm c)\<lparr>cmem := m\<rparr>, xflags := xflags c OR RF\<rparr>"
  have "same_frame 5 c ?c" using m(2) by (simp add: same_frame_def)
  then have "armed 0 h1 5 ?c" using c armed_same by blast
  moreover have "zero_divisor ?c" using c by simp
  ultimately show "\<exists>n err. divl RBX c = Fault n err \<and> (handle (er_text h1 h2) n err c = None \<or>
      (\<exists>c'. handle (er_text h1 h2) n err c = Some (Done c') \<and> h1 \<noteq> h2 \<and> armed 0 h1 5 c' \<and> zero_divisor c'))"
    using c divl_zero [of c] m(1) by blast
qed

interpretation jmp: stuck_handler "divl RBX" "handle [h \<mapsto> jump_int_handler]" "\<lambda>c. armed 0 h 5 c \<and> zero_divisor c" for h
proof
  fix c assume c: "armed 0 h 5 c \<and> zero_divisor c"
  then obtain c0 where "deliver 0 None c = Some c0" "rip (xm c0) = h"
    using iret_frame [of 0 h 5 c] frame_len by blast
  then have "handle [h \<mapsto> jump_int_handler] 0 None c = None" by (simp add: handle_def jump_int_handler_None)
  then show "\<exists>n err. divl RBX c = Fault n err \<and> (handle [h \<mapsto> jump_int_handler] n err c = None \<or>
      (\<exists>c'. handle [h \<mapsto> jump_int_handler] n err c = Some (Done c') \<and> armed 0 h 5 c' \<and> zero_divisor c'))"
    using c divl_zero [of c] by simp
qed

definition divided :: "xcpu \<Rightarrow> xcpu \<Rightarrow> bool" where
  "divided c c' \<longleftrightarrow> gpr (xm c') = (gpr (xm c))(RAX := 1, RDX := 0, RBX := 1) \<and> rip (xm c') = rip (xm c) + 2 \<and>
     xcs c' = xcs c \<and> xss c' = xss c"

interpretation er2: recovering_handler "divl RBX" "handle (er_text h1 h2)"
  "\<lambda>c. armed 0 h2 5 c \<and> gpr (xm c) RAX = 1 \<and> gpr (xm c) RDX = 0 \<and> gpr (xm c) RBX = 0" divided for h1 h2
proof
  fix c assume c: "armed 0 h2 5 c \<and> gpr (xm c) RAX = 1 \<and> gpr (xm c) RDX = 0 \<and> gpr (xm c) RBX = 0"
  have "er_text h1 h2 h2 = Some er_int_handler2" by (simp add: er_text_def)
  then obtain m where m: "handle (er_text h1 h2) 0 None c =
      Some (Done (c\<lparr>xm := (xm c)\<lparr>gpr := (gpr (xm c))(RBX := 1), cmem := m\<rparr>, xflags := xflags c OR RF\<rparr>))"
    using er_handle2 c by blast
  let ?c = "c\<lparr>xm := (xm c)\<lparr>gpr := (gpr (xm c))(RBX := 1), cmem := m\<rparr>, xflags := xflags c OR RF\<rparr>"
  have "divl RBX ?c = Complete (?c\<lparr>xm := (xm ?c)\<lparr>rip := rip (xm ?c) + 2\<rparr>, xflags := xflags ?c AND NOT RF\<rparr>)"
    using c by (intro divl_one) simp_all
  moreover have "divided c (?c\<lparr>xm := (xm ?c)\<lparr>rip := rip (xm ?c) + 2\<rparr>, xflags := xflags ?c AND NOT RF\<rparr>)"
    using c by (auto simp: divided_def)
  ultimately show "\<exists>n err c1 r. divl RBX c = Fault n err \<and> handle (er_text h1 h2) n err c = Some (Done c1) \<and>
      divl RBX c1 = Complete r \<and> divided c r"
    using c m divl_zero [of c] by fastforce
qed

lemma armed_div_args: "armed n h k c \<Longrightarrow> armed n h k (div_args b c)"
  by (erule armed_same) (simp add: same_frame_def div_args_def set_reg_def)

lemma div_args_regs: "gpr (xm (div_args b c)) = (gpr (xm c))(RAX := 1, RDX := 0, RBX := b)" "rip (xm (div_args b c)) = rip (xm c)"
  "xcs (div_args b c) = xcs c" "xss (div_args b c) = xss c"
  by (simp_all add: div_args_def set_reg_def)

lemma restart_complete: "step s = Complete r \<Longrightarrow> restart step hdl s = Some (Done r)"
  by (subst restart.simps) simp

text \<open>
  C33: The interrupt tutorials behave as they announce. In the recovery tutorial, choice 1 (a handler
  that only returns) restarts the division by zero forever, and choice 2 (a handler that sets the
  divisor to 1) ends the division with quotient 1 and remainder 0, behind the instruction and with
  all other registers kept. In the jump tutorial, choice 1 divides without an exception, and choice
  2 never leaves the handler.\<close>

theorem division_tutorials:
  assumes "startable 0 idt idtr 5 c" "h1 \<noteq> h2" "wait_input inp = Some (i, rest)"
  shows "i = 1 \<and> er_friend_main idt idtr h1 h2 inp c = None \<and>
      (\<exists>c'. jump_friend_main idt idtr h inp c = Some (Done c') \<and> divided c c') \<or>
    i = 2 \<and> (\<exists>c'. er_friend_main idt idtr h1 h2 inp c = Some (Done c') \<and> divided c c') \<and>
      jump_friend_main idt idtr h inp c = None"
proof -
  define c1 where "c1 g = the (install 0 idt idtr g c)" for g
  have c1: "gpr (xm (c1 g)) = gpr (xm c)" "rip (xm (c1 g)) = rip (xm c)" "xcs (c1 g) = xcs c" "xss (c1 g) = xss c"
    "install 0 idt idtr g c = Some (c1 g)" "armed 0 g 5 (c1 g)" for g
    by (rule install_armed [OF assms(1), of g], simp add: c1_def)+
  note d = div_args_regs armed_div_args [OF c1(6)]
  have div: "divided c c'" if "divided (div_args b (c1 g)) c'" for b g c'
    using that by (auto simp: divided_def d c1)
  have "restart (divl RBX) (handle (er_text h1 h2)) (div_args 0 (c1 h1)) = None"
    by (rule er1.never_ends) (use d assms(2) in simp)
  moreover have "restart (divl RBX) (handle [h \<mapsto> jump_int_handler]) (div_args 0 (c1 h)) = None"
    by (rule jmp.never_ends) (use d in simp)
  moreover obtain c2 where "restart (divl RBX) (handle (er_text h1 h2)) (div_args 0 (c1 h2)) = Some (Done c2)"
    "divided (div_args 0 (c1 h2)) c2"
    using er2.ends_repaired [of h2 "div_args 0 (c1 h2)" h1] d by auto
  moreover obtain c3 where "divl RBX (div_args 1 (c1 h)) = Complete c3" "divided (div_args 1 (c1 h)) c3"
    using divl_one [of "div_args 1 (c1 h)"] d by (auto simp: divided_def)
  ultimately show ?thesis
    using wait_input_12 [OF assms(3)] assms(3) c1(5) div restart_complete [of "divl RBX" "div_args 1 (c1 h)" c3]
    by (auto simp: er_friend_main_def jump_friend_main_def)
qed

definition fault_xcpu :: xcpu where
  "fault_xcpu = \<lparr>xm = \<lparr>gpr = (\<lambda>r. if r = RSP then 0x8000 else 7), rip = 0x100000040, cmem = (\<lambda>_. Some 0)\<rparr>,
     xflags = 2, xcs = 0x10, xss = 0x18, xgdt = gdt_desc64, xidtr = (0, 0), xtlb = Map.empty\<rparr>"

lemma fault_xcpu_startable: "startable 0 0x2000 0x3000 5 fault_xcpu"
proof -
  have sp: "exc_sp fault_xcpu = 0x8000" by (simp add: exc_sp_def fault_xcpu_def)
  have "slots 0x8000 (Suc (Suc (Suc (Suc (Suc 0))))) = {0x7FF8, 0x7FF0, 0x7FE8, 0x7FE0, 0x7FD8}" by simp
  moreover have "Suc (Suc (Suc (Suc (Suc 0)))) = 5" by simp
  ultimately have slots: "slots 0x8000 5 = {0x7FF8, 0x7FF0, 0x7FE8, 0x7FE0, 0x7FD8}" by (simp only:)
  have "read64 (\<lambda>_. Some 0) a \<noteq> None" for a using read_le_defined [of a 8 "\<lambda>_. Some 0"] by auto
  moreover have "region 0x2000 16 \<inter> region 0x3000 10 = {}" by (rule region_disjoint) simp_all
  ultimately show ?thesis
    unfolding startable_def sp room_def slots by (simp add: fault_xcpu_def aligned8_def)
qed

text \<open>Witness: the first two characters are not choices, the third one is 2.\<close>

theorem division_tutorials_witness:
  "wait_input ''x92'' = Some (2, []) \<and>
   (\<exists>c'. er_friend_main 0x2000 0x3000 0x5000 0x5010 ''x92'' fault_xcpu = Some (Done c') \<and> divided fault_xcpu c') \<and>
   jump_friend_main 0x2000 0x3000 0x5000 ''x92'' fault_xcpu = None"
proof -
  have "wait_input ''x92'' = Some (2, [])" by (simp add: atoi_digit_def)
  then show ?thesis
    using division_tutorials [OF fault_xcpu_startable, of "0x5000" "0x5010" "''x92''" 2 "[]" "0x5000"] by simp
qed

end
