(* ===== verification/Tutorial_Pagefault.thy ===== *)
theory Tutorial_Pagefault
  imports Tutorial_Faults
begin

text \<open>
  \<^verbatim>\<open>src/tutorial/paging/pagefault\<close>: a load through a page table entry that is cleared on purpose, with
  a handler that only returns and one that fills the entry in. The tables, the variable \<^verbatim>\<open>pt_entry\<close>
  and the stack are in the friend's memory, which is mapped to itself.
\<close>

section \<open>The program\<close>

text \<open>
  A 64-bit load; a page that is not present raises exception 14 with error code 0 (a read by the
  kernel). The register that receives the word is the compiler's choice and left out.
\<close>

definition load_word :: "(u64 \<Rightarrow> bool) \<Rightarrow> addr \<Rightarrow> addr \<Rightarrow> xcpu \<Rightarrow> (u64 \<times> xcpu) attempt" where
  "load_word keep pml4 v c = (let m = cmem (xm c); c' = c\<lparr>xflags := xflags c AND NOT RF\<rparr> in
     case xtlb c (vpage v) of
       Some f \<Rightarrow> (case read64 m (f + take_bit 12 v) of None \<Rightarrow> Stuck | Some x \<Rightarrow> Complete (x, c'))
     | None \<Rightarrow> (case translate_read m pml4 v of
         None \<Rightarrow> Fault 14 (Some 0)
       | Some a \<Rightarrow> (case read64 m a of None \<Rightarrow> Stuck
           | Some x \<Rightarrow> Complete (x, if keep (vpage v) then c'\<lparr>xtlb := (xtlb c)(vpage v \<mapsto> a - take_bit 12 v)\<rparr> else c'))))"

definition pf_int_handler1 :: handler_code where
  "pf_int_handler1 c = returning (do { s \<leftarrow> exec [AddIR 8 RSP] (xm c); iretq (c\<lparr>xm := s\<rparr>) })"

definition pf_handler2_fill :: "addr \<Rightarrow> instr list" where
  "pf_handler2_fill pte_var = [
     PushR RAX,
     PushR RBX,
     MovIR pte_var RAX,
     MovMR 0 RAX RAX,
     MovIR (0x100000000 OR push_bit 0 1 OR push_bit 1 1 OR push_bit 2 1) RBX,
     MovRM RBX 0 RAX,
     MovIR 0x80000000 RAX]"

definition pf_handler2_leave :: "instr list" where
  "pf_handler2_leave = [
     PopR RBX,
     PopR RAX,
     AddIR 8 RSP]"

text \<open>Between the two parts the handler drops the translation of the address in RAX (\<^verbatim>\<open>invlpg\<close>).\<close>

definition pf_int_handler2 :: "addr \<Rightarrow> handler_code" where
  "pf_int_handler2 pte_var c = returning (do {
     s \<leftarrow> exec (pf_handler2_fill pte_var) (xm c);
     let c = c\<lparr>xm := s, xtlb := (xtlb c)(vpage (gpr s RAX) := None)\<rparr>;
     s \<leftarrow> exec pf_handler2_leave (xm c);
     iretq (c\<lparr>xm := s\<rparr>) })"

definition pf_text :: "addr \<Rightarrow> addr \<Rightarrow> addr \<Rightarrow> addr \<rightharpoonup> handler_code" where
  "pf_text pte_var h1 h2 = [h1 \<mapsto> pf_int_handler1, h2 \<mapsto> pf_int_handler2 pte_var]"

definition pf_tables :: "addr \<Rightarrow> addr \<Rightarrow> addr \<Rightarrow> addr \<Rightarrow> addr \<Rightarrow> mem \<Rightarrow> mem option" where
  "pf_tables vaddr pdpt pd pt pte_var m = do {
     m \<leftarrow> set_entry m pdpt ((vaddr mod k512GB) div k1GB) (v2p pd OR rwu);
     m \<leftarrow> set_entry m pd ((vaddr mod k1GB) div k2MB) (v2p pt OR rwu);
     m \<leftarrow> set_entry m pt ((vaddr mod k2MB) div k4KB) 0;
     write64 m pte_var (page_entry pt ((vaddr mod k2MB) div k4KB)) }"

definition pf_friend_main :: "(u64 \<Rightarrow> bool) \<Rightarrow> addr \<Rightarrow> addr \<Rightarrow> addr \<Rightarrow> addr \<Rightarrow> addr \<Rightarrow> addr \<Rightarrow> addr \<Rightarrow> addr \<Rightarrow> addr \<Rightarrow>
    string \<Rightarrow> xcpu \<Rightarrow> (u64 \<times> xcpu) outcome option" where
  "pf_friend_main keep pml4 pdpt pd pt pte_var idt idtr h1 h2 inp c = do {
     (i, _) \<leftarrow> wait_input inp;
     let vaddr = 0x80000000;
     case install 14 idt idtr ([h1, h2] ! nat (i - 1)) c of None \<Rightarrow> Some Crash
     | Some c \<Rightarrow> (case pf_tables vaddr pdpt pd pt pte_var (cmem (xm c)) of None \<Rightarrow> Some Crash
       | Some m \<Rightarrow> restart (load_word keep pml4 vaddr) (handle (pf_text pte_var h1 h2)) (c\<lparr>xm := (xm c)\<lparr>cmem := m\<rparr>\<rparr>)) }"

section \<open>The words that matter\<close>

definition pf_words :: "addr \<Rightarrow> addr \<Rightarrow> addr \<Rightarrow> addr \<Rightarrow> addr \<Rightarrow> addr list" where
  "pf_words pml4 pdpt pd pt pte_var =
     [page_entry pml4 0, page_entry pdpt 2, page_entry pd 0, page_entry pt 0, pte_var, 0x100000000]"

definition pf_places :: "addr \<Rightarrow> addr \<Rightarrow> addr \<Rightarrow> addr \<Rightarrow> addr \<Rightarrow> addr \<Rightarrow> bool" where
  "pf_places sp pml4 pdpt pd pt pte_var \<longleftrightarrow>
     list_all (\<lambda>t. aligned_to 12 t \<and> t < 2 ^ 52) [pml4, pdpt, pd, pt] \<and> aligned8 pte_var \<and>
     distinct (pf_words pml4 pdpt pd pt pte_var) \<and> (\<forall>w \<in> set (pf_words pml4 pdpt pd pt pte_var). w \<notin> slots sp 8)"

definition pf_state :: "addr \<Rightarrow> addr \<Rightarrow> addr \<Rightarrow> addr \<Rightarrow> addr \<Rightarrow> u64 \<Rightarrow> xcpu \<Rightarrow> bool" where
  "pf_state pml4 pdpt pd pt pte_var w c \<longleftrightarrow> pf_places (exc_sp c) pml4 pdpt pd pt pte_var \<and>
     xtlb c (vpage 0x80000000) = None \<and>
     map (read64 (cmem (xm c))) (pf_words pml4 pdpt pd pt pte_var) =
       map Some [pdpt OR 7, pd OR 7, pt OR 7, 0, page_entry pt 0, w]"

lemma places_aligned: "pf_places sp pml4 pdpt pd pt pte_var \<Longrightarrow> a \<in> set (pf_words pml4 pdpt pd pt pte_var) \<Longrightarrow> aligned8 a"
  using entry_aligned8 [of _ 0] entry_aligned8 [of _ 2]
  by (auto simp: pf_places_def pf_words_def page_entry_def aligned8_def)

lemma pf_state_same:
  assumes "pf_state pml4 pdpt pd pt pte_var w c" "same_frame 8 c c'" "xtlb c' (vpage 0x80000000) = None"
  shows "pf_state pml4 pdpt pd pt pte_var w c'"
proof -
  have sp: "exc_sp c' = exc_sp c" using assms(2) by (simp add: exc_sp_def same_frame_def)
  have "read64 (cmem (xm c')) a = read64 (cmem (xm c)) a" if "a \<in> set (pf_words pml4 pdpt pd pt pte_var)" for a
  proof -
    have "aligned8 a" "a \<notin> slots (exc_sp c) 8"
      using that assms(1) places_aligned [of "exc_sp c" pml4 pdpt pd pt pte_var a] by (auto simp: pf_state_def pf_places_def)
    then show ?thesis using assms(2) by (simp add: same_frame_def same_words_def)
  qed
  then have "map (read64 (cmem (xm c'))) (pf_words pml4 pdpt pd pt pte_var) =
      map (read64 (cmem (xm c))) (pf_words pml4 pdpt pd pt pte_var)" by (rule map_cong [OF refl])
  then show ?thesis using assms(1,3) sp by (simp only: pf_state_def simp_thms)
qed

lemma walk_not_present_4KB:
  assumes "canonical v" "aligned_to 12 t4" "t4 < 2 ^ 52" "aligned_to 12 t3" "t3 < 2 ^ 52" "aligned_to 12 t2" "t2 < 2 ^ 52"
    and "aligned_to 12 t1" "t1 < 2 ^ 52"
    and "read64 pm (t4 + 8 * pt_index 39 v) = Some (t3 OR 7)" "read64 pm (t3 + 8 * pt_index 30 v) = Some (t2 OR 7)"
    and "read64 pm (t2 + 8 * pt_index 21 v) = Some (t1 OR 7)" "read64 pm (t1 + 8 * pt_index 12 v) = Some 0"
  shows "walk pm t4 v = None"
proof -
  have "pte_frame 12 t4 = t4" using pte_frame_or [OF assms(2,3), of 0] by simp
  then show ?thesis
    using assms table_entry [OF assms(4,5)] table_entry [OF assms(6,7)] table_entry [OF assms(8,9)]
    by (simp add: walk_def pt_entry_def pte_present_def)
qed

lemma pf_faults:
  assumes "pf_state pml4 pdpt pd pt pte_var w c"
  shows "load_word keep pml4 0x80000000 c = Fault 14 (Some 0)"
proof -
  have "walk (cmem (xm c)) pml4 0x80000000 = None"
    using assms by (intro walk_not_present_4KB [of "0x80000000" pml4 pdpt pd pt] canonical_low)
      (auto simp: pf_state_def pf_places_def pf_words_def page_entry_def tutorial_index)
  then show ?thesis using assms by (simp add: load_word_def pf_state_def translate_read_def)
qed

lemma pf_loads:
  assumes "pf_places sp pml4 pdpt pd pt pte_var" "xtlb c (vpage 0x80000000) = None"
    "map (read64 (cmem (xm c))) (pf_words pml4 pdpt pd pt pte_var) =
       map Some [pdpt OR 7, pd OR 7, pt OR 7, 0x100000000 OR 7, page_entry pt 0, w]"
  obtains c' where "load_word keep pml4 0x80000000 c = Complete (w, c')" "xm c' = xm c"
proof -
  have "walk (cmem (xm c)) pml4 0x80000000 = Some (0x100000000 + take_bit 12 0x80000000, True)"
    using assms by (intro walk_4KB [of "0x80000000" pml4 pdpt pd pt "0x100000000"] canonical_low)
      (auto simp: pf_places_def pf_words_def page_entry_def tutorial_index aligned_to_def)
  then show ?thesis using assms that by (auto simp: load_word_def translate_read_def pf_words_def Let_def)
qed

section \<open>The handlers\<close>

definition int_frame :: "xcpu \<Rightarrow> u64 list" where
  "int_frame c = [rip (xm c), ucast (xcs c), xflags c OR RF, gpr (xm c) RSP, ucast (xss c)]"

lemma deliver_err:
  assumes "armed n h k c" "6 \<le> k"
  obtains m where "deliver n (Some e) c = Some (c\<lparr>xm := (xm c)\<lparr>gpr := (gpr (xm c))(RSP := exc_sp c - 48), rip := h, cmem := m\<rparr>,
      xflags := xflags c AND NOT gate_cleared, xcs := 0x10\<rparr>)"
    "same_words (slots (exc_sp c) 6) (cmem (xm c)) m" "stack_at m (exc_sp c - 48) (e # int_frame c)"
proof -
  have l: "length (exc_frame (Some e) c) = 6" by (simp add: exc_frame_def)
  have "room (cmem (xm c)) (exc_sp c) (length (exc_frame (Some e) c))"
    unfolding l using assms slots_mono [of 6 k "exc_sp c"] by (auto simp: armed_def room_def)
  then obtain m where "deliver n (Some e) c = Some (c\<lparr>xm := (set_reg RSP (exc_sp c - 8 * of_nat 6) (xm c))\<lparr>cmem := m, rip := h\<rparr>,
      xflags := xflags c AND NOT gate_cleared, xcs := 0x10\<rparr>)"
    "same_words (slots (exc_sp c) 6) (cmem (xm c)) m" "stack_at m (exc_sp c - 8 * of_nat 6) (rev (exc_frame (Some e) c))"
    using deliver_run [of c n h "Some e"] assms(1) unfolding l by (auto simp: armed_def)
  then show ?thesis by (intro that) (simp_all add: set_reg_def exc_frame_rev int_frame_def)
qed

text \<open>Return from a state that holds the registers of \<open>c\<close> and the frame behind the error code.\<close>

lemma iretq_int_frame:
  assumes "stack_at (cmem (xm d)) (exc_sp c - 40) (int_frame c)" "gpr (xm d) = (gpr (xm c))(RSP := exc_sp c - 40)"
    "long_code (xgdt d) (xcs c)"
  shows "iretq d = Some (d\<lparr>xm := (xm d)\<lparr>gpr := gpr (xm c), rip := rip (xm c)\<rparr>, xflags := xflags c OR RF, xcs := xcs c, xss := xss c\<rparr>)"
proof -
  have st: "stack_at (cmem (xm d)) (gpr (xm d) RSP) ([rip (xm c), ucast (xcs c), xflags c OR RF, gpr (xm c) RSP, ucast (xss c)] @ [])"
    using assms(1,2) by (simp add: int_frame_def)
  moreover have "set_reg RSP (gpr (xm c) RSP) (xm d) = (xm d)\<lparr>gpr := gpr (xm c)\<rparr>"
    using assms(2) by (intro mach.equality) (auto simp: set_reg_def)
  ultimately show ?thesis using iretq_run [OF st assms(3)] by simp
qed

lemma pf_handle1:
  assumes "armed 14 h 8 c" "code h = Some pf_int_handler1"
  obtains m where "handle code 14 (Some 0) c = Some (Done (c\<lparr>xm := (xm c)\<lparr>cmem := m\<rparr>, xflags := xflags c OR RF\<rparr>))"
    "same_words (slots (exc_sp c) 8) (cmem (xm c)) m"
proof -
  obtain m where d: "deliver 14 (Some 0) c = Some (c\<lparr>xm := (xm c)\<lparr>gpr := (gpr (xm c))(RSP := exc_sp c - 48), rip := h, cmem := m\<rparr>,
      xflags := xflags c AND NOT gate_cleared, xcs := 0x10\<rparr>)" (is "_ = Some ?c0")
    and m: "same_words (slots (exc_sp c) 6) (cmem (xm c)) m" "stack_at m (exc_sp c - 48) (0 # int_frame c)"
    by (rule deliver_err [OF assms(1), of 0]) simp_all
  let ?d = "?c0\<lparr>xm := set_reg RSP (exc_sp c - 40) (xm ?c0)\<rparr>"
  have "iretq ?d = Some (?d\<lparr>xm := (xm ?d)\<lparr>gpr := gpr (xm c), rip := rip (xm c)\<rparr>, xflags := xflags c OR RF, xcs := xcs c, xss := xss c\<rparr>)"
    using m(2) assms(1) by (intro iretq_int_frame) (simp_all add: set_reg_def armed_def)
  then have "handle code 14 (Some 0) c = Some (Done (c\<lparr>xm := (xm c)\<lparr>cmem := m\<rparr>, xflags := xflags c OR RF\<rparr>))"
    using d assms(2) by (simp add: handle_def pf_int_handler1_def returning_def set_reg_def)
  moreover have "same_words (slots (exc_sp c) 8) (cmem (xm c)) m"
    using same_words_trans [OF m(1), of "{}" m] slots_mono [of 6 8 "exc_sp c"] by simp
  ultimately show ?thesis by (rule that)
qed

lemma push_rax_rbx:
  assumes "room (cmem s) (gpr s RSP) 2" "stack_at (cmem s) (gpr s RSP) ws" "length ws < 2 ^ 59"
  obtains m where "exec [PushR RAX, PushR RBX] s = Some ((set_reg RSP (gpr s RSP - 16) s)\<lparr>cmem := m\<rparr>)"
    "same_words (slots (gpr s RSP) 2) (cmem s) m" "stack_at m (gpr s RSP - 16) (gpr s RBX # gpr s RAX # ws)"
proof -
  have l: "length [gpr s RAX, gpr s RBX] = 2" by simp
  obtain m where "push_words [gpr s RAX, gpr s RBX] s = Some (set_reg RSP (gpr s RSP - 8 * of_nat 2) (s\<lparr>cmem := m\<rparr>))"
    "same_words (slots (gpr s RSP) 2) (cmem s) m" "stack_at m (gpr s RSP - 8 * of_nat 2) (rev [gpr s RAX, gpr s RBX] @ ws)"
    using push_words_run [of s "[gpr s RAX, gpr s RBX]" ws] assms unfolding l by auto
  then show ?thesis using exec_push [of "[RAX, RBX]" s] by (intro that [of m]) (simp_all add: set_reg_def)
qed

lemma pf_handle2:
  assumes "armed 14 h 8 c" "code h = Some (pf_int_handler2 pte_var)"
    "read64 (cmem (xm c)) pte_var = Some a" "aligned8 pte_var" "pte_var \<notin> slots (exc_sp c) 8"
    "read64 (cmem (xm c)) a \<noteq> None" "aligned8 a" "a \<notin> slots (exc_sp c) 8"
  obtains m where "handle code 14 (Some 0) c = Some (Done (c\<lparr>xm := (xm c)\<lparr>cmem := m\<rparr>, xflags := xflags c OR RF,
      xtlb := (xtlb c)(vpage 0x80000000 := None)\<rparr>))"
    "\<forall>b. aligned8 b \<and> b \<notin> slots (exc_sp c) 8 \<longrightarrow> read64 m b = (if b = a then Some (0x100000000 OR 7) else read64 (cmem (xm c)) b)"
proof -
  let ?sp = "exc_sp c"
  obtain m0 where d: "deliver 14 (Some 0) c = Some (c\<lparr>xm := (xm c)\<lparr>gpr := (gpr (xm c))(RSP := ?sp - 48), rip := h, cmem := m0\<rparr>,
      xflags := xflags c AND NOT gate_cleared, xcs := 0x10\<rparr>)" (is "_ = Some ?c0")
    and m0: "same_words (slots ?sp 6) (cmem (xm c)) m0" "stack_at m0 (?sp - 48) (0 # int_frame c)"
    by (rule deliver_err [OF assms(1), of 0]) simp_all
  have "room m0 (?sp - 48) 2" using room_after [of "cmem (xm c)" ?sp 6 2 _ m0] m0(1) assms(1) by (simp add: armed_def)
  then obtain m1 where p: "exec [PushR RAX, PushR RBX] (xm ?c0) = Some ((set_reg RSP (?sp - 64) (xm ?c0))\<lparr>cmem := m1\<rparr>)"
    and m1: "same_words (slots (?sp - 48) 2) m0 m1" "stack_at m1 (?sp - 64) (gpr (xm c) RBX # gpr (xm c) RAX # 0 # int_frame c)"
    using push_rax_rbx [of "xm ?c0" "0 # int_frame c"] m0(2) by (auto simp: int_frame_def)
  have same: "same_words (slots ?sp 8) (cmem (xm c)) m1"
    using same_words_trans [OF m0(1) m1(1)] slots_add [of ?sp 6 2] by simp
  have r: "read64 m1 pte_var = Some a" "read64 m1 a \<noteq> None" using same assms(3-8) by (auto simp: same_words_def)
  obtain m2 where m2: "write64 m1 a (0x100000000 OR 7) = Some m2" using wm.wr_defined [OF r(2)] by blast
  have rd2: "read64 m2 b = (if b = a then Some (0x100000000 OR 7) else read64 m1 b)" if "aligned8 b" for b
    using wm.rd_wr [OF assms(7) that m2] .
  have "stack_at m2 (?sp - 64) (gpr (xm c) RBX # gpr (xm c) RAX # 0 # int_frame c)"
  proof -
    have "read64 m2 b = read64 m1 b" if "b \<in> slots ?sp 8" for b
      using rd2 slots_aligned [OF _ that] assms(1,8) that by (auto simp: armed_def room_def)
    then have "stack_at m2 (?sp - 8 * of_nat 8) (gpr (xm c) RBX # gpr (xm c) RAX # 0 # int_frame c)"
      using m1(2) by (intro stack_at_slots [of ?sp 8 m2 m1]) (simp_all add: int_frame_def)
    then show ?thesis by simp
  qed
  note m3 = this
  let ?s = "(xm ?c0)\<lparr>gpr := (gpr (xm c))(RSP := ?sp - 64, RBX := 0x100000000 OR 7, RAX := 0x80000000), cmem := m2\<rparr>"
  let ?d = "?c0\<lparr>xtlb := (xtlb c)(vpage 0x80000000 := None), xm := (xm ?c0)\<lparr>gpr := (gpr (xm c))(RSP := ?sp - 40), cmem := m2\<rparr>\<rparr>"
  have split: "pf_handler2_fill pte_var = [PushR RAX, PushR RBX] @ [MovIR pte_var RAX, MovMR 0 RAX RAX,
       MovIR (0x100000000 OR push_bit 0 1 OR push_bit 1 1 OR push_bit 2 1) RBX, MovRM RBX 0 RAX, MovIR 0x80000000 RAX]"
    by (simp add: pf_handler2_fill_def)
  have e1: "exec (pf_handler2_fill pte_var) (xm ?c0) = Some ?s"
    unfolding split exec_append p using r(1) m2 by (simp add: set_reg_def fun_upd_twist)
  have e2: "exec pf_handler2_leave ?s = Some (xm ?d)"
    using m3 by (simp add: pf_handler2_leave_def pop_word_def set_reg_def fun_eq_iff)
  have "iretq ?d = Some (?d\<lparr>xm := (xm ?d)\<lparr>gpr := gpr (xm c), rip := rip (xm c)\<rparr>, xflags := xflags c OR RF, xcs := xcs c, xss := xss c\<rparr>)"
    using m3 assms(1) by (intro iretq_int_frame) (simp_all add: armed_def)
  then have "handle code 14 (Some 0) c = Some (Done (c\<lparr>xm := (xm c)\<lparr>cmem := m2\<rparr>, xflags := xflags c OR RF,
      xtlb := (xtlb c)(vpage 0x80000000 := None)\<rparr>))"
    using d assms(2) e1 e2 by (simp add: handle_def pf_int_handler2_def returning_def)
  moreover have "\<forall>b. aligned8 b \<and> b \<notin> slots ?sp 8 \<longrightarrow>
      read64 m2 b = (if b = a then Some (0x100000000 OR 7) else read64 (cmem (xm c)) b)"
    using rd2 same by (auto simp: same_words_def)
  ultimately show ?thesis by (rule that)
qed

section \<open>Both choices\<close>

interpretation pf1: stuck_handler "load_word keep pml4 0x80000000" "handle (pf_text pte_var h1 h2)"
  "\<lambda>c. h1 \<noteq> h2 \<and> armed 14 h1 8 c \<and> pf_state pml4 pdpt pd pt pte_var w c" for keep pml4 pdpt pd pt pte_var w h1 h2
proof
  fix c assume c: "h1 \<noteq> h2 \<and> armed 14 h1 8 c \<and> pf_state pml4 pdpt pd pt pte_var w c"
  then have "pf_text pte_var h1 h2 h1 = Some pf_int_handler1" by (simp add: pf_text_def)
  then obtain m where m: "handle (pf_text pte_var h1 h2) 14 (Some 0) c = Some (Done (c\<lparr>xm := (xm c)\<lparr>cmem := m\<rparr>, xflags := xflags c OR RF\<rparr>))"
    "same_words (slots (exc_sp c) 8) (cmem (xm c)) m"
    using pf_handle1 c by blast
  let ?c = "c\<lparr>xm := (xm c)\<lparr>cmem := m\<rparr>, xflags := xflags c OR RF\<rparr>"
  have f: "same_frame 8 c ?c" using m(2) by (simp add: same_frame_def)
  have "armed 14 h1 8 ?c" using c armed_same f by blast
  moreover have "xtlb ?c (vpage 0x80000000) = None" using c by (simp add: pf_state_def)
  then have "pf_state pml4 pdpt pd pt pte_var w ?c" using c pf_state_same f by blast
  moreover have "load_word keep pml4 0x80000000 c = Fault 14 (Some 0)" using c pf_faults by blast
  ultimately show "\<exists>n err. load_word keep pml4 0x80000000 c = Fault n err \<and> (handle (pf_text pte_var h1 h2) n err c = None \<or>
      (\<exists>c'. handle (pf_text pte_var h1 h2) n err c = Some (Done c') \<and> h1 \<noteq> h2 \<and> armed 14 h1 8 c' \<and>
         pf_state pml4 pdpt pd pt pte_var w c'))"
    using c m(1) by (intro exI conjI disjI2) (assumption | simp)+
qed

interpretation pf2: recovering_handler "load_word keep pml4 0x80000000" "handle (pf_text pte_var h1 h2)"
  "\<lambda>c. armed 14 h2 8 c \<and> pf_state pml4 pdpt pd pt pte_var w c"
  "\<lambda>c (x, c'). x = w \<and> gpr (xm c') = gpr (xm c) \<and> rip (xm c') = rip (xm c)" for keep pml4 pdpt pd pt pte_var w h1 h2
proof
  fix c assume c: "armed 14 h2 8 c \<and> pf_state pml4 pdpt pd pt pte_var w c"
  then have st: "pf_places (exc_sp c) pml4 pdpt pd pt pte_var"
    "map (read64 (cmem (xm c))) (pf_words pml4 pdpt pd pt pte_var) = map Some [pdpt OR 7, pd OR 7, pt OR 7, 0, page_entry pt 0, w]"
    by (simp_all add: pf_state_def)
  have al: "aligned8 b" "b \<notin> slots (exc_sp c) 8" if "b \<in> set (pf_words pml4 pdpt pd pt pte_var)" for b
    using that st(1) places_aligned by (auto simp: pf_places_def)
  have code: "pf_text pte_var h1 h2 h2 = Some (pf_int_handler2 pte_var)" by (simp add: pf_text_def)
  have w: "pte_var \<in> set (pf_words pml4 pdpt pd pt pte_var)" "page_entry pt 0 \<in> set (pf_words pml4 pdpt pd pt pte_var)"
    "read64 (cmem (xm c)) pte_var = Some (page_entry pt 0)" "read64 (cmem (xm c)) (page_entry pt 0) \<noteq> None"
    using st(2) by (simp_all add: pf_words_def)
  obtain m where m: "handle (pf_text pte_var h1 h2) 14 (Some 0) c = Some (Done (c\<lparr>xm := (xm c)\<lparr>cmem := m\<rparr>,
      xflags := xflags c OR RF, xtlb := (xtlb c)(vpage 0x80000000 := None)\<rparr>))" (is "_ = Some (Done ?c)")
    and rd: "\<forall>b. aligned8 b \<and> b \<notin> slots (exc_sp c) 8 \<longrightarrow>
      read64 m b = (if b = page_entry pt 0 then Some (0x100000000 OR 7) else read64 (cmem (xm c)) b)"
    by (rule pf_handle2 [where code = "pf_text pte_var h1 h2" and h = h2, OF conjunct1 [OF c] code w(3) al [OF w(1)] w(4) al [OF w(2)]])
  have "map (read64 (cmem (xm ?c))) (pf_words pml4 pdpt pd pt pte_var) =
      map (\<lambda>b. if b = page_entry pt 0 then Some (0x100000000 OR 7) else read64 (cmem (xm c)) b) (pf_words pml4 pdpt pd pt pte_var)"
    using rd al by (intro map_cong refl) simp
  also have "\<dots> = map Some [pdpt OR 7, pd OR 7, pt OR 7, 0x100000000 OR 7, page_entry pt 0, w]"
    using st by (auto simp: pf_words_def pf_places_def)
  finally have words: "map (read64 (cmem (xm ?c))) (pf_words pml4 pdpt pd pt pte_var) =
      map Some [pdpt OR 7, pd OR 7, pt OR 7, 0x100000000 OR 7, page_entry pt 0, w]" .
  obtain c' where "load_word keep pml4 0x80000000 ?c = Complete (w, c')" "xm c' = xm ?c"
    using pf_loads [OF st(1) _ words] by auto
  then show "\<exists>n err c1 r. load_word keep pml4 0x80000000 c = Fault n err \<and>
      handle (pf_text pte_var h1 h2) n err c = Some (Done c1) \<and> load_word keep pml4 0x80000000 c1 = Complete r \<and>
      (case r of (x, c') \<Rightarrow> x = w \<and> gpr (xm c') = gpr (xm c) \<and> rip (xm c') = rip (xm c))"
    using c pf_faults [of pml4 pdpt pd pt pte_var w c keep] m by fastforce
qed

definition pf_start :: "addr \<Rightarrow> addr \<Rightarrow> addr \<Rightarrow> addr \<Rightarrow> addr \<Rightarrow> addr \<Rightarrow> addr \<Rightarrow> u64 \<Rightarrow> xcpu \<Rightarrow> bool" where
  "pf_start pml4 pdpt pd pt pte_var idt idtr w c \<longleftrightarrow> startable 14 idt idtr 8 c \<and>
     pf_places (exc_sp c) pml4 pdpt pd pt pte_var \<and> xtlb c (vpage 0x80000000) = None \<and>
     (\<forall>a \<in> set (pf_words pml4 pdpt pd pt pte_var). read64 (cmem (xm c)) a \<noteq> None \<and>
        region a 8 \<inter> (region (idt + 16 * of_nat 14) 16 \<union> region idtr 10) = {}) \<and>
     read64 (cmem (xm c)) (page_entry pml4 0) = Some (pdpt OR 7) \<and> read64 (cmem (xm c)) 0x100000000 = Some w"

definition pf_writes :: "addr \<Rightarrow> addr \<Rightarrow> addr \<Rightarrow> addr \<Rightarrow> (addr \<times> u64) list" where
  "pf_writes pdpt pd pt pte_var =
     [(page_entry pdpt 2, pd OR 7), (page_entry pd 0, pt OR 7), (page_entry pt 0, 0), (pte_var, page_entry pt 0)]"

lemma pf_tables_writes: "pf_tables 0x80000000 pdpt pd pt pte_var m = write_all write64 m (pf_writes pdpt pd pt pte_var)"
  unfolding pf_tables_def tutorial_slots v2p_def rwu_7 by (simp add: pf_writes_def set_entry_def)

lemma pf_prepared:
  assumes "pf_start pml4 pdpt pd pt pte_var idt idtr w c"
  obtains c1 m where "install 14 idt idtr h c = Some c1" "pf_tables 0x80000000 pdpt pd pt pte_var (cmem (xm c1)) = Some m"
    "armed 14 h 8 (c1\<lparr>xm := (xm c1)\<lparr>cmem := m\<rparr>\<rparr>)" "pf_state pml4 pdpt pd pt pte_var w (c1\<lparr>xm := (xm c1)\<lparr>cmem := m\<rparr>\<rparr>)"
    "gpr (xm c1) = gpr (xm c)" "rip (xm c1) = rip (xm c)"
proof -
  let ?W = "pf_words pml4 pdpt pd pt pte_var" and ?ws = "pf_writes pdpt pd pt pte_var"
  have places: "pf_places (exc_sp c) pml4 pdpt pd pt pte_var" using assms by (simp add: pf_start_def)
  have st: "startable 14 idt idtr 8 c" using assms by (simp add: pf_start_def)
  have defd: "read64 (cmem (xm c)) a \<noteq> None \<and> region a 8 \<inter> (region (idt + 16 * of_nat 14) 16 \<union> region idtr 10) = {}"
    if "a \<in> set ?W" for a using that assms by (simp add: pf_start_def)
  have sub: "fst ` set ?ws \<subseteq> set ?W" by (auto simp: pf_writes_def pf_words_def)
  have al: "aligned8 a" if "a \<in> set ?W" for a using places_aligned [OF places that] .
  obtain m1 r where c1: "install 14 idt idtr h c = Some (c\<lparr>xm := (xm c)\<lparr>cmem := m1\<rparr>, xidtr := r\<rparr>)"
    "armed 14 h 8 (c\<lparr>xm := (xm c)\<lparr>cmem := m1\<rparr>, xidtr := r\<rparr>)" "\<forall>x. x \<notin> region (idt + 16 * of_nat 14) 16 \<union> region idtr 10 \<longrightarrow> m1 x = cmem (xm c) x" "r = (0x3FF, idt)"
    by (rule install_armed [OF st])
  let ?c1 = "c\<lparr>xm := (xm c)\<lparr>cmem := m1\<rparr>, xidtr := r\<rparr>"
  have rd1: "read64 m1 a = read64 (cmem (xm c)) a" if "a \<in> set ?W" for a
    using defd [OF that] c1(3) by (intro read_le_cong) blast
  have wal: "\<forall>w \<in> set ?ws. aligned8 (fst w)" using sub al by blast
  obtain m where m: "write_all write64 m1 ?ws = Some m"
  proof -
    have "\<forall>w \<in> set ?ws. read64 m1 (fst w) \<noteq> None"
    proof
      fix x assume "x \<in> set ?ws"
      then have "fst x \<in> set ?W" using sub by blast
      then show "read64 m1 (fst x) \<noteq> None" using rd1 defd by simp
    qed
    then show thesis using wm.write_all_defined [OF wal, of m1] that by blast
  qed
  let ?c = "?c1\<lparr>xm := (xm ?c1)\<lparr>cmem := m\<rparr>\<rparr>"
  have "distinct (map fst ?ws)" using places by (auto simp: pf_places_def pf_words_def pf_writes_def)
  note rdw = wm.rd_write_all_distinct [OF wal this m] and rdo = wm.rd_write_all_other [OF wal m]
  have "map (read64 m) ?W = map Some [pdpt OR 7, pd OR 7, pt OR 7, 0, page_entry pt 0, w]"
  proof -
    have "read64 m (page_entry pml4 0) = Some (pdpt OR 7)" "read64 m 0x100000000 = Some w"
      using rdo [of "page_entry pml4 0"] rdo [of "0x100000000"] al rd1 assms places
      by (auto simp: pf_start_def pf_places_def pf_words_def pf_writes_def)
    then show ?thesis using rdw by (simp add: pf_words_def pf_writes_def)
  qed
  then have "pf_state pml4 pdpt pd pt pte_var w ?c"
    using assms by (simp add: pf_state_def pf_start_def exc_sp_def)
  moreover have "armed 14 h 8 ?c"
  proof -
    have sp: "exc_sp ?c = exc_sp ?c1" by (simp add: exc_sp_def)
    have g: "gate_words 14 ?c = gate_words 14 ?c1" by (simp add: gate_words_def)
    have "read64 m a = read64 m1 a" if "a \<in> gate_words 14 ?c1" for a
    proof (rule rdo)
      show "aligned8 a" using that c1(2) by (auto simp: armed_def)
      have "a \<in> region (idt + 16 * of_nat 14) 16"
        using that c1(4) by (auto simp: gate_words_def in_region_iff)
      moreover have "a \<in> region a 8" by (simp add: in_region_iff)
      ultimately show "a \<notin> fst ` set ?ws" using sub defd [of a] by blast
    qed
    then have "load_gate m (xidtr ?c1) 14 = load_gate m1 (xidtr ?c1) 14" by (simp add: load_gate_def gate_words_def)
    moreover have "read64 m a \<noteq> None" if "read64 m1 a \<noteq> None" for a
      using read_le_defined [of a 8 m] read64_mapped [OF that] write_all_dom [OF m] by auto
    ultimately show ?thesis using c1(2) unfolding armed_def sp g by (auto simp: room_def)
  qed
  ultimately show ?thesis using that [of ?c1 m] c1(1) m by (simp add: pf_tables_writes)
qed

text \<open>
  C32: The page fault tutorial behaves as it announces, whatever the translation buffer keeps. With
  choice 1 the handler only returns and the load faults forever; with choice 2 the handler fills in
  the page table entry whose address it finds in pt_entry, the load is restarted and reads the first
  word of the friend's memory, and all registers are as at the faulting load.\<close>

theorem pagefault_tutorial:
  assumes "pf_start pml4 pdpt pd pt pte_var idt idtr w c" "h1 \<noteq> h2" "wait_input inp = Some (i, rest)"
  shows "i = 1 \<and> pf_friend_main keep pml4 pdpt pd pt pte_var idt idtr h1 h2 inp c = None \<or>
    i = 2 \<and> (\<exists>c'. pf_friend_main keep pml4 pdpt pd pt pte_var idt idtr h1 h2 inp c = Some (Done (w, c')) \<and>
      gpr (xm c') = gpr (xm c) \<and> rip (xm c') = rip (xm c))"
  using wait_input_12 [OF assms(3)]
proof
  assume i: "i = 1"
  obtain c1 m where c1: "install 14 idt idtr h1 c = Some c1" "pf_tables 0x80000000 pdpt pd pt pte_var (cmem (xm c1)) = Some m"
    "armed 14 h1 8 (c1\<lparr>xm := (xm c1)\<lparr>cmem := m\<rparr>\<rparr>)" "pf_state pml4 pdpt pd pt pte_var w (c1\<lparr>xm := (xm c1)\<lparr>cmem := m\<rparr>\<rparr>)"
    by (rule pf_prepared [OF assms(1)])
  have "restart (load_word keep pml4 0x80000000) (handle (pf_text pte_var h1 h2)) (c1\<lparr>xm := (xm c1)\<lparr>cmem := m\<rparr>\<rparr>) = None"
    using pf1.never_ends c1(3,4) assms(2) by blast
  then show ?thesis using i assms(3) c1(1,2) by (simp add: pf_friend_main_def)
next
  assume i: "i = 2"
  obtain c1 m where c1: "install 14 idt idtr h2 c = Some c1" "pf_tables 0x80000000 pdpt pd pt pte_var (cmem (xm c1)) = Some m"
    "armed 14 h2 8 (c1\<lparr>xm := (xm c1)\<lparr>cmem := m\<rparr>\<rparr>)" "pf_state pml4 pdpt pd pt pte_var w (c1\<lparr>xm := (xm c1)\<lparr>cmem := m\<rparr>\<rparr>)"
    "gpr (xm c1) = gpr (xm c)" "rip (xm c1) = rip (xm c)"
    by (rule pf_prepared [OF assms(1)])
  obtain r where "restart (load_word keep pml4 0x80000000) (handle (pf_text pte_var h1 h2)) (c1\<lparr>xm := (xm c1)\<lparr>cmem := m\<rparr>\<rparr>) = Some (Done r)"
    "fst r = w" "gpr (xm (snd r)) = gpr (xm c)" "rip (xm (snd r)) = rip (xm c)"
    using pf2.ends_repaired [of h2 "c1\<lparr>xm := (xm c1)\<lparr>cmem := m\<rparr>\<rparr>" pml4 pdpt pd pt pte_var w keep h1] c1(3-6) by (auto simp: split_beta)
  then show ?thesis using i assms(3) c1(1,2) by (cases r) (simp add: pf_friend_main_def)
qed

definition pf_xcpu :: xcpu where
  "pf_xcpu = \<lparr>xm = \<lparr>gpr = (\<lambda>r. if r = RSP then 0x9000 else 7), rip = 0x100000040, cmem = tutorial_mem\<rparr>,
     xflags = 2, xcs = 0x10, xss = 0x18, xgdt = gdt_desc64, xidtr = (0, 0), xtlb = Map.empty\<rparr>"

lemma pf_xcpu_start: "pf_start 0x1000 0x2000 0x3000 0x4000 0xA000 0x6000 0x7000 1 pf_xcpu"
proof -
  have sp: "exc_sp pf_xcpu = 0x9000" by (simp add: exc_sp_def pf_xcpu_def)
  have "slots 0x9000 (Suc (Suc (Suc (Suc (Suc (Suc (Suc (Suc 0)))))))) =
      {0x8FF8, 0x8FF0, 0x8FE8, 0x8FE0, 0x8FD8, 0x8FD0, 0x8FC8, 0x8FC0}" by simp
  moreover have "Suc (Suc (Suc (Suc (Suc (Suc (Suc (Suc 0))))))) = 8" by simp
  ultimately have slots: "slots 0x9000 8 = {0x8FF8, 0x8FF0, 0x8FE8, 0x8FE0, 0x8FD8, 0x8FD0, 0x8FC8, 0x8FC0}" by (simp only:)
  have mem: "cmem (xm pf_xcpu) = tutorial_mem" by (simp add: pf_xcpu_def)
  have rd: "read64 tutorial_mem a \<noteq> None" for a using tutorial_mem_reads(1) [of 8 a] by simp
  have dom: "region a n \<subseteq> dom tutorial_mem" for a n by (auto simp: tutorial_mem_def)
  have W: "pf_words 0x1000 0x2000 0x3000 0x4000 0xA000 = [0x1000, 0x2010, 0x3000, 0x4000, 0xA000, 0x100000000]"
    by (simp add: pf_words_def page_entry_def)
  have apart: "region a 8 \<inter> (region 0x60E0 16 \<union> region 0x7000 10) = {}"
    if "a \<in> {0x1000, 0x2010, 0x3000, 0x4000, 0xA000, 0x100000000}" for a
    using that by (simp add: Int_Un_distrib) (elim disjE; simp add: region_disjoint Int_commute)
  have "startable 14 0x6000 0x7000 8 pf_xcpu"
    unfolding startable_def sp mem room_def slots using rd dom
    by (simp add: aligned8_def pf_xcpu_def region_disjoint)
  moreover have "pf_places (exc_sp pf_xcpu) 0x1000 0x2000 0x3000 0x4000 0xA000"
    unfolding pf_places_def sp slots W by (simp add: aligned_to_def aligned8_def)
  moreover have "read64 tutorial_mem (page_entry 0x1000 0) = Some (0x2000 OR 7)" "read64 tutorial_mem 0x100000000 = Some 1"
    using tutorial_mem_reads by (simp_all add: page_entry_def)
  ultimately show ?thesis
    unfolding pf_start_def mem W using rd apart by (simp add: pf_xcpu_def)
qed

text \<open>Witness: the tables of the other paging tutorials; the first word of the friend's memory is 1.\<close>

theorem pagefault_tutorial_witness:
  "\<exists>c'. pf_friend_main (\<lambda>_. True) 0x1000 0x2000 0x3000 0x4000 0xA000 0x6000 0x7000 0x5000 0x5010 ''2'' pf_xcpu =
     Some (Done (1, c')) \<and> gpr (xm c') = gpr (xm pf_xcpu)"
proof -
  have "wait_input ''2'' = Some (2, [])" by (simp add: atoi_digit_def)
  from pagefault_tutorial [OF pf_xcpu_start _ this, of "0x5000" "0x5010" "\<lambda>_. True"] show ?thesis by auto
qed

end
