(* ===== verification/Copy_On_Write.thy ===== *)
theory Copy_On_Write
  imports Tutorial_Faults
begin

text \<open>
  \<^verbatim>\<open>src/tutorial/paging/copy_on_write\<close>: pages that are shared read-only and meant to be copied when they
  are written. The interrupt set-up and the entry code \<open>int_handler\<close> are in \<open>Exceptions\<close>; here is what
  \<^verbatim>\<open>friend_main\<close> and \<^verbatim>\<open>fault_handler\<close> do to the tables and to the pages. The measured times, which are
  all that the program prints, are left out.
\<close>

section \<open>Accesses\<close>

text \<open>The translation buffer keeps the permission with the frame; \<open>handled\<close> counts the runs of the handler.\<close>

record cow_state =
  cpm :: mem
  ctlb :: "u64 \<rightharpoonup> addr \<times> bool"
  handled :: nat

definition find_page :: "addr \<Rightarrow> addr \<Rightarrow> cow_state \<Rightarrow> (addr \<times> bool) option" where
  "find_page pml4 v s = (case ctlb s (vpage v) of Some e \<Rightarrow> Some e
    | None \<Rightarrow> map_option (\<lambda>(a, w). (a - take_bit 12 v, w)) (walk (cpm s) pml4 v))"

definition keep_page :: "(u64 \<Rightarrow> bool) \<Rightarrow> addr \<Rightarrow> addr \<times> bool \<Rightarrow> cow_state \<Rightarrow> cow_state" where
  "keep_page keep v e s = (if keep (vpage v) then s\<lparr>ctlb := (ctlb s)(vpage v \<mapsto> e)\<rparr> else s)"

text \<open>The error code of exception 14: bit 0 for a page that is present, bit 1 for a store.\<close>

definition cow_load :: "(u64 \<Rightarrow> bool) \<Rightarrow> addr \<Rightarrow> addr \<Rightarrow> cow_state \<Rightarrow> (u64 \<times> cow_state) attempt" where
  "cow_load keep pml4 v s = (case find_page pml4 v s of
      None \<Rightarrow> Fault 14 (Some 0)
    | Some e \<Rightarrow> (case read64 (cpm s) (fst e + take_bit 12 v) of
        None \<Rightarrow> Stuck
      | Some x \<Rightarrow> Complete (x, keep_page keep v e s)))"

definition cow_store :: "u32 \<Rightarrow> (u64 \<Rightarrow> bool) \<Rightarrow> addr \<Rightarrow> addr \<Rightarrow> u64 \<Rightarrow> cow_state \<Rightarrow> cow_state attempt" where
  "cow_store ctl keep pml4 v x s = (case find_page pml4 v s of
      None \<Rightarrow> Fault 14 (Some 2)
    | Some e \<Rightarrow> if bit ctl 16 \<and> \<not> snd e then Fault 14 (Some 3)
        else (case write64 (cpm s) (fst e + take_bit 12 v) x of
          None \<Rightarrow> Stuck
        | Some m \<Rightarrow> Complete (keep_page keep v e s\<lparr>cpm := m\<rparr>)))"

definition cset :: "addr \<Rightarrow> u64 \<Rightarrow> u64 \<Rightarrow> cow_state \<Rightarrow> cow_state option" where
  "cset page i e s = map_option (\<lambda>m. s\<lparr>cpm := m\<rparr>) (set_entry (cpm s) page i e)"

section \<open>The program\<close>

text \<open>
  \<^verbatim>\<open>my_memcpy\<close> counts words and advances by the size of a word; \<open>ld\<close> and \<open>st\<close> are the accesses at the
  place of the call.
\<close>

definition my_memcpy :: "(addr \<Rightarrow> 's \<Rightarrow> (u64 \<times> 's) option) \<Rightarrow> (addr \<Rightarrow> u64 \<Rightarrow> 's \<Rightarrow> 's option) \<Rightarrow>
    addr \<Rightarrow> addr \<Rightarrow> nat \<Rightarrow> 's \<Rightarrow> 's option" where
  "my_memcpy ld st dst src n = for_each (\<lambda>k s. do {
     (x, s) \<leftarrow> ld (src + 8 * of_nat (8 * k)) s;
     st (dst + 8 * of_nat (8 * k)) x s }) [0..<(n div 8 + 7) div 8]"

text \<open>In the handler an access that faults itself is not followed any further.\<close>

definition completed :: "'r attempt \<Rightarrow> 'r option" where
  "completed a = (case a of Complete r \<Rightarrow> Some r | _ \<Rightarrow> None)"

text \<open>The two indices are of type \<^verbatim>\<open>int\<close>; they are below 512 in size, so that 64-bit words give the same addresses.\<close>

definition fault_handler :: "u32 \<Rightarrow> (u64 \<Rightarrow> bool) \<Rightarrow> addr \<Rightarrow> addr \<Rightarrow> addr \<Rightarrow> cow_state \<Rightarrow> cow_state option" where
  "fault_handler ctl keep pml4 pt fault_address s = do {
     let fault_entry = (fault_address mod k2MB) div k4KB;
     s \<leftarrow> cset pt fault_entry ((0x50000000 + fault_entry * 0x1000) OR rwu) s;
     let src_entry = fault_entry - 256;
     e \<leftarrow> read64 (cpm s) (page_entry pt src_entry);
     s \<leftarrow> cset pt src_entry (e OR push_bit 1 1) s;
     s \<leftarrow> my_memcpy (\<lambda>v s. completed (cow_load keep pml4 v s)) (\<lambda>v x s. completed (cow_store ctl keep pml4 v x s))
       (0x50000000 + fault_entry * 0x1000) (0x50000000 + src_entry * 0x1000) 0x1000 s;
     Some (s\<lparr>ctlb := (ctlb s)(vpage fault_address := None), handled := Suc (handled s)\<rparr>) }"

text \<open>The accesses of \<^verbatim>\<open>friend_main\<close>, repeated after the handler has returned.\<close>

definition cow_handle :: "u32 \<Rightarrow> (u64 \<Rightarrow> bool) \<Rightarrow> addr \<Rightarrow> addr \<Rightarrow> addr \<Rightarrow> nat \<Rightarrow> u64 option \<Rightarrow> cow_state \<Rightarrow> cow_state outcome option" where
  "cow_handle ctl keep pml4 pt v n err s =
     Some (case fault_handler ctl keep pml4 pt v s of None \<Rightarrow> Crash | Some s \<Rightarrow> Done s)"

definition finished :: "'r outcome option \<Rightarrow> 'r option" where
  "finished r = (case r of Some (Done x) \<Rightarrow> Some x | _ \<Rightarrow> None)"

definition load_retry :: "u32 \<Rightarrow> (u64 \<Rightarrow> bool) \<Rightarrow> addr \<Rightarrow> addr \<Rightarrow> addr \<Rightarrow> cow_state \<Rightarrow> (u64 \<times> cow_state) option" where
  "load_retry ctl keep pml4 pt v s = finished (restart (cow_load keep pml4 v) (cow_handle ctl keep pml4 pt v) s)"

definition store_retry :: "u32 \<Rightarrow> (u64 \<Rightarrow> bool) \<Rightarrow> addr \<Rightarrow> addr \<Rightarrow> addr \<Rightarrow> u64 \<Rightarrow> cow_state \<Rightarrow> cow_state option" where
  "store_retry ctl keep pml4 pt v x s = finished (restart (cow_store ctl keep pml4 v x) (cow_handle ctl keep pml4 pt v) s)"

definition cow_tables :: "addr \<Rightarrow> addr \<Rightarrow> addr \<Rightarrow> cow_state \<Rightarrow> cow_state option" where
  "cow_tables pdpt pd pt s = do {
     let vaddr1 = 0x80000000;
     s \<leftarrow> cset pdpt ((vaddr1 mod k512GB) div k1GB) (v2p pd OR rwu) s;
     s \<leftarrow> cset pd ((vaddr1 mod k1GB) div k2MB) (v2p pt OR rwu) s;
     for_each (\<lambda>i. cset pt (of_nat i) ((0x50000000 + of_nat i * 0x1000) OR rwu)) [0..<256] s }"

definition clear_words :: "(addr \<Rightarrow> u64 \<Rightarrow> 's \<Rightarrow> 's option) \<Rightarrow> 's \<Rightarrow> 's option" where
  "clear_words st = for_each (\<lambda>i. st (0x80100000 + of_nat i * 0x1000) 0) [0..<256]"

text \<open>The first part copies the pages at once, the second shares them.\<close>

definition eager_copy :: "u32 \<Rightarrow> (u64 \<Rightarrow> bool) \<Rightarrow> addr \<Rightarrow> addr \<Rightarrow> cow_state \<Rightarrow> cow_state option" where
  "eager_copy ctl keep pml4 pt s = do {
     s \<leftarrow> for_each (\<lambda>i. cset pt (of_nat i) ((0x50000000 + of_nat i * 0x1000) OR rwu)) [256..<512] s;
     s \<leftarrow> my_memcpy (load_retry ctl keep pml4 pt) (store_retry ctl keep pml4 pt) 0x80100000 0x80000000 0x100000 s;
     clear_words (store_retry ctl keep pml4 pt) s }"

definition shared_copy :: "u32 \<Rightarrow> (u64 \<Rightarrow> bool) \<Rightarrow> addr \<Rightarrow> addr \<Rightarrow> cow_state \<Rightarrow> cow_state option" where
  "shared_copy ctl keep pml4 pt s = do {
     s \<leftarrow> for_each (\<lambda>i. cset pt (of_nat i) ((0x50000000 + of_nat i * 0x1000) OR (push_bit 0 1 OR push_bit 2 1))) [0..<256] s;
     s \<leftarrow> for_each (\<lambda>i s. do {
       e \<leftarrow> read64 (cpm s) (page_entry pt (of_nat (i - 256)));
       cset pt (of_nat i) e s }) [256..<512] s;
     clear_words (store_retry ctl keep pml4 pt) s }"

definition cow_friend_main :: "u32 \<Rightarrow> (u64 \<Rightarrow> bool) \<Rightarrow> addr \<Rightarrow> addr \<Rightarrow> addr \<Rightarrow> addr \<Rightarrow> cow_state \<Rightarrow> cow_state option" where
  "cow_friend_main ctl keep pml4 pdpt pd pt s = do {
     s \<leftarrow> cow_tables pdpt pd pt s;
     s \<leftarrow> eager_copy ctl keep pml4 pt s;
     shared_copy ctl keep pml4 pt s }"

section \<open>Loops and entries\<close>

lemma for_each_inv:
  assumes "a \<le> b" "P a s" "\<And>i s. a \<le> i \<Longrightarrow> i < b \<Longrightarrow> P i s \<Longrightarrow> \<exists>s'. body i s = Some s' \<and> P (Suc i) s'"
  shows "\<exists>s'. for_each body [a..<b] s = Some s' \<and> P b s'"
  using assms
proof (induction "b - a" arbitrary: a s)
  case (Suc n)
  obtain s1 where s1: "body a s = Some s1" "P (Suc a) s1" using Suc.prems(3) [of a s] Suc.prems(2) Suc.hyps(2) by (metis le_refl zero_less_Suc zero_less_diff)
  have "\<exists>s'. for_each body [Suc a..<b] s1 = Some s' \<and> P b s'"
    by (rule Suc.hyps(1)) (use Suc.prems Suc.hyps(2) s1 in auto)
  moreover have "[a..<b] = a # [Suc a..<b]" using Suc.hyps(2) by (simp add: upt_conv_Cons)
  ultimately show ?case using s1(1) by simp
qed simp

lemma cset_run:
  assumes "ents (cpm s) (t, i) \<noteq> None"
  obtains m where "cset t i e s = Some (s\<lparr>cpm := m\<rparr>)" "ents m = (ents (cpm s))((t, i) \<mapsto> e)"
proof -
  let ?v = "\<lparr>vpm = cpm s, tlb = Map.empty\<rparr>"
  obtain m where m: "vset t i e ?v = Some (?v\<lparr>vpm := m\<rparr>)" "ents m = (ents (cpm s))((t, i) \<mapsto> e)"
    using vset_run [of ?v t i e] assms by auto
  then have "set_entry (cpm s) t i e = Some m" by (auto simp: vset_def bind_eq_Some_conv)
  then show ?thesis using that m(2) by (simp add: cset_def)
qed

text \<open>The frames of the pages: 512 pages from 0x50000000 on.\<close>

definition frame :: "nat \<Rightarrow> addr" where
  "frame j = 0x50000000 + of_nat j * 0x1000"

lemma unat_frame: "j < 512 \<Longrightarrow> unat (frame j) = 0x50000000 + 0x1000 * j"
  by (simp add: frame_def unat_word_ariths unat_of_nat take_bit_nat_eq_self)

lemma frame_ok: "j < 512 \<Longrightarrow> aligned_to 12 (frame j)" "j < 512 \<Longrightarrow> frame j < 2 ^ 52"
  using unat_frame [of j] by (simp_all add: aligned_to_def word_unat_eq_iff unat_take_bit take_bit_nat_def word_less_nat_alt)

lemma frame_eq: "i < 512 \<Longrightarrow> j < 512 \<Longrightarrow> frame i = frame j \<longleftrightarrow> i = j"
  using unat_frame [of i] unat_frame [of j] by (auto simp: word_unat_eq_iff)

lemma frame_foreign: "j < 512 \<Longrightarrow> region (frame j) 0x1000 \<inter> deploy_region = {}"
  using unat_frame [of j] by (intro region_disjoint) (simp_all add: layout_simps)

text \<open>An address in page \<open>j\<close> of the 2MB from 0x80000000, at word \<open>k\<close>.\<close>

lemma page_word:
  assumes "unat v = 0x80000000 + 0x1000 * j + 8 * k" "j < 512" "k < 512"
  shows "vpage v = 0x80000 + of_nat j" "take_bit 12 v = 8 * of_nat k" "v < 2 ^ 47"
    "pt_index 39 v = 0" "pt_index 30 v = 2" "pt_index 21 v = 0" "pt_index 12 v = of_nat j"
proof -
  have "unat v div 0x1000 = 0x80000 + j" using assms by (intro div_nat_eqI) simp_all
  then show "vpage v = 0x80000 + of_nat j"
    using assms(2) by (simp add: vpage_def word_unat_eq_iff unat_drop_bit_eq drop_bit_nat_def unat_word_ariths unat_of_nat take_bit_nat_eq_self)
  have "unat v mod 0x1000 = 8 * k" using assms by (simp add: mod_nat_eqI)
  then show "take_bit 12 v = 8 * of_nat k"
    using assms(3) by (simp add: word_unat_eq_iff unat_take_bit take_bit_nat_def unat_word_ariths unat_of_nat)
  show "v < 2 ^ 47" using assms by (simp add: word_less_nat_alt)
  show "pt_index 39 v = 0" "pt_index 30 v = 2" "pt_index 21 v = 0" "pt_index 12 v = of_nat j"
    using assms index_bounds [of 39 0 v] index_bounds [of 30 2 v] index_bounds [of 21 1024 v] index_bounds [of 12 "0x80000 + j" v]
    by (simp_all add: mod_add_eq [symmetric])
qed

section \<open>What stays the same\<close>

definition cow_places :: "addr \<Rightarrow> addr \<Rightarrow> addr \<Rightarrow> addr \<Rightarrow> bool" where
  "cow_places pml4 pdpt pd pt \<longleftrightarrow> distinct [pml4, pdpt, pd, pt] \<and>
     list_all (\<lambda>t. aligned_to 12 t \<and> t < 2 ^ 52 \<and> (\<forall>j < 512. t \<noteq> frame j)) [pml4, pdpt, pd, pt]"

text \<open>
  The tables lead to \<open>pt\<close>, whose entries are \<open>F\<close>; a kept translation is a writable one of the first
  part; no fault has been handled.
\<close>

definition cow_inv :: "addr \<Rightarrow> addr \<Rightarrow> addr \<Rightarrow> addr \<Rightarrow> (u64 \<Rightarrow> bool) \<Rightarrow> (nat \<Rightarrow> u64) \<Rightarrow> cow_state \<Rightarrow> bool" where
  "cow_inv pml4 pdpt pd pt keep F s \<longleftrightarrow> (let f = ents (cpm s) in
     f (pml4, 0) = Some (pdpt OR 7) \<and> f (pdpt, 2) = Some (pd OR 7) \<and> f (pd, 0) = Some (pt OR 7) \<and>
     (\<forall>j < 512. f (pt, of_nat j) = Some (F j)) \<and> (\<forall>j < 512. \<forall>k < 512. f (frame j, of_nat k) \<noteq> None) \<and>
     (\<exists>e. f (pdpt, 1) = Some e \<and> \<not> pte_present e)) \<and> handled s = 0 \<and>
     (\<forall>p e. ctlb s p = Some e \<longrightarrow> keep p \<and> (\<exists>j < 512. p = 0x80000 + of_nat j \<and> e = (frame j, True)))"

lemma page_number_eq: "i < 512 \<Longrightarrow> j < 512 \<Longrightarrow> (of_nat i :: u64) = of_nat j \<longleftrightarrow> i = j"
  by (auto simp: word_unat_eq_iff unat_word_ariths unat_of_nat take_bit_nat_eq_self)

lemma cow_inv_kept:
  assumes "cow_inv pml4 pdpt pd pt keep F s" "ctlb s (0x80000 + of_nat j) = Some e" "j < 512"
  shows "keep (0x80000 + of_nat j)" "e = (frame j, True)"
proof -
  obtain i where i: "keep (0x80000 + of_nat j)" "i < 512" "(0x80000 + of_nat j :: u64) = 0x80000 + of_nat i" "e = (frame i, True)"
    using assms(1,2) unfolding cow_inv_def by blast
  then show "keep (0x80000 + of_nat j)" "e = (frame j, True)" using page_number_eq [OF assms(3) i(2)] by simp_all
qed

lemma cow_inv_word:
  assumes "cow_inv pml4 pdpt pd pt keep F s" "j < 512" "k < 512"
  shows "\<exists>x. ents (cpm s) (frame j, of_nat k) = Some x"
  using assms unfolding cow_inv_def Let_def by blast

lemma ents_read: "ents m (t, i) = Some e \<Longrightarrow> aligned_to 12 t \<and> read64 m (t + 8 * i) = Some e"
  by (auto simp: ents_def page_entry_def split: if_splits)

lemma find_mapped:
  assumes inv: "cow_inv pml4 pdpt pd pt keep F s" and pl: "cow_places pml4 pdpt pd pt"
    and v: "unat v = 0x80000000 + 0x1000 * j + 8 * k" "j < 512" "k < 512"
    and F: "F j = frame i OR fl" "i < 512" "fl \<in> {5, 7}" and none: "ctlb s (vpage v) = None"
  shows "find_page pml4 v s = Some (frame i, fl = 7)"
proof -
  note pw = page_word [OF v]
  let ?f = "ents (cpm s)"
  have f: "?f (pml4, 0) = Some (pdpt OR 7)" "?f (pdpt, 2) = Some (pd OR 7)" "?f (pd, 0) = Some (pt OR 7)"
    "?f (pt, of_nat j) = Some (frame i OR fl)" using inv v(2) F(1) by (simp_all add: cow_inv_def Let_def)
  have t: "aligned_to 12 pdpt" "pdpt < 2 ^ 52" "aligned_to 12 pd" "pd < 2 ^ 52" "aligned_to 12 pt" "pt < 2 ^ 52"
    "pte_frame 12 pml4 = pml4"
    using pl pte_frame_or [of 12 pml4 0] by (simp_all add: cow_places_def)
  have e: "pte_frame 12 (frame i OR fl) = frame i" "pte_present (frame i OR fl)" "pte_writable (frame i OR fl) \<longleftrightarrow> fl = 7"
    using pte_frame_or [OF frame_ok [OF F(2)], of fl] pte_bits_or [OF frame_ok(1) [OF F(2)], of _ fl] F(3)
    by (auto simp: pte_present_def pte_writable_def)
  have "walk (cpm s) pml4 v = Some (frame i + take_bit 12 v, fl = 7)"
    using t(7) table_entry [OF t(1,2)] table_entry [OF t(3,4)] table_entry [OF t(5,6)] e f [THEN ents_read] pw(3-7)
    by (simp add: walk_def pt_entry_def canonical_low)
  then show ?thesis using none by (simp add: find_page_def)
qed

lemma store_at:
  assumes inv: "cow_inv pml4 pdpt pd pt keep F s" and pl: "cow_places pml4 pdpt pd pt"
    and v: "unat v = 0x80000000 + 0x1000 * j + 8 * k" "j < 512" "k < 512"
    and e: "find_page pml4 v s = Some (frame i, w)" "i < 512" "w \<or> \<not> bit ctl 16" "keep (vpage v) \<Longrightarrow> i = j \<and> w"
  obtains s' where "cow_store ctl keep pml4 v x s = Complete s'" "cow_inv pml4 pdpt pd pt keep F s'"
    "ents (cpm s') = (ents (cpm s))((frame i, of_nat k) \<mapsto> x)"
    "ctlb s' = (if keep (0x80000 + of_nat j) then (ctlb s)(0x80000 + of_nat j \<mapsto> (frame j, True)) else ctlb s)"
proof -
  note pw = page_word [OF v]
  have "ents (cpm s) (frame i, of_nat k) \<noteq> None" using inv e(2) v(3) by (simp add: cow_inv_def Let_def)
  then obtain m where m: "cset (frame i) (of_nat k) x s = Some (s\<lparr>cpm := m\<rparr>)" "ents m = (ents (cpm s))((frame i, of_nat k) \<mapsto> x)"
    by (rule cset_run)
  from m(1) have "write64 (cpm s) (frame i + 8 * of_nat k) x = Some m"
    by (auto simp: cset_def set_entry_def page_entry_def dest: arg_cong [of _ _ cpm])
  then have st: "cow_store ctl keep pml4 v x s = Complete (keep_page keep v (frame i, w) s\<lparr>cpm := m\<rparr>)"
    using e(1,3) pw(2) by (auto simp: cow_store_def)
  let ?s = "keep_page keep v (frame i, w) s\<lparr>cpm := m\<rparr>"
  have tl: "ctlb ?s = (if keep (0x80000 + of_nat j) then (ctlb s)(0x80000 + of_nat j \<mapsto> (frame j, True)) else ctlb s)"
    using e(4) pw(1) by (auto simp: keep_page_def)
  have "cow_inv pml4 pdpt pd pt keep F ?s"
    using inv pl e(2) v(2) unfolding cow_inv_def Let_def tl
    by (auto simp: m(2) keep_page_def cow_places_def frame_eq)
  then show ?thesis using that [OF st _ _ tl] m(2) by simp
qed

lemma load_at:
  assumes inv: "cow_inv pml4 pdpt pd pt keep F s" and v: "unat v = 0x80000000 + 0x1000 * j + 8 * k" "j < 512" "k < 512"
    and e: "find_page pml4 v s = Some (frame j, True)"
  obtains x s' where "cow_load keep pml4 v s = Complete (x, s')" "cow_inv pml4 pdpt pd pt keep F s'" "cpm s' = cpm s"
proof -
  note pw = page_word [OF v]
  obtain x where "ents (cpm s) (frame j, of_nat k) = Some x" using cow_inv_word [OF inv v(2,3)] by blast
  then have "cow_load keep pml4 v s = Complete (x, keep_page keep v (frame j, True) s)"
    using e pw(2) by (simp add: cow_load_def ents_read)
  moreover have "cow_inv pml4 pdpt pd pt keep F (keep_page keep v (frame j, True) s)"
    using inv v(2) pw(1) by (auto simp: cow_inv_def Let_def keep_page_def)
  ultimately show ?thesis using that by (simp add: keep_page_def)
qed

lemma retry_completes:
  "cow_load keep pml4 v s = Complete r \<Longrightarrow> load_retry ctl keep pml4 pt v s = Some r"
  "cow_store ctl keep pml4 v x s = Complete s' \<Longrightarrow> store_retry ctl keep pml4 pt v x s = Some s'"
  by (simp_all add: load_retry_def store_retry_def restart.simps finished_def)

text \<open>Entries of \<open>pt\<close> filled by a loop.\<close>

lemma fill_run:
  assumes def: "\<forall>j < 512. ents (cpm s) (pt, of_nat j) \<noteq> None" and ab: "a \<le> b" "b \<le> 512"
    and body: "\<And>i m. a \<le> i \<Longrightarrow> i < b \<Longrightarrow> (\<And>j. unat j < a \<Longrightarrow> ents m (pt, j) = ents (cpm s) (pt, j)) \<Longrightarrow>
      body i (s\<lparr>cpm := m\<rparr>) = cset pt (of_nat i) (G i) (s\<lparr>cpm := m\<rparr>)"
  obtains m where "for_each body [a..<b] s = Some (s\<lparr>cpm := m\<rparr>)"
    "ents m = (\<lambda>(t, i). if t = pt \<and> a \<le> unat i \<and> unat i < b then Some (G (unat i)) else ents (cpm s) (t, i))"
proof -
  let ?P = "\<lambda>n s'. \<exists>m. s' = s\<lparr>cpm := m\<rparr> \<and>
    ents m = (\<lambda>(t, i). if t = pt \<and> a \<le> unat i \<and> unat i < n then Some (G (unat i)) else ents (cpm s) (t, i))"
  have "\<exists>s'. for_each body [a..<b] s = Some s' \<and> ?P b s'"
  proof (rule for_each_inv [OF ab(1)])
    show "?P a s" by (intro exI [of _ "cpm s"]) (auto simp: fun_eq_iff)
    fix i s' assume i: "a \<le> i" "i < b" and "?P i s'"
    then obtain m where m: "s' = s\<lparr>cpm := m\<rparr>"
      "ents m = (\<lambda>(t, k). if t = pt \<and> a \<le> unat k \<and> unat k < i then Some (G (unat k)) else ents (cpm s) (t, k))" by blast
    have u: "unat (of_nat i :: u64) = i" using i ab(2) by (simp add: unat_of_nat take_bit_nat_eq_self)
    then have "ents (cpm s') (pt, of_nat i) \<noteq> None" using def i ab(2) m by simp
    then obtain m' where m': "cset pt (of_nat i) (G i) s' = Some (s'\<lparr>cpm := m'\<rparr>)" "ents m' = (ents (cpm s'))((pt, of_nat i) \<mapsto> G i)"
      by (rule cset_run)
    moreover have "body i s' = cset pt (of_nat i) (G i) s'" unfolding m(1) by (rule body [OF i]) (simp add: m(2))
    moreover have "k = of_nat i" if "unat k = i" for k :: u64 using that by auto
    ultimately show "\<exists>s''. body i s' = Some s'' \<and> ?P (Suc i) s''"
      by (intro exI [of _ "s'\<lparr>cpm := m'\<rparr>"] conjI exI [of _ m']) (use i(1) in \<open>auto simp: m u fun_eq_iff less_Suc_eq\<close>)
  qed
  then show ?thesis using that by blast
qed

section \<open>The two parts\<close>

abbreviation own :: "nat \<Rightarrow> u64" where "own j \<equiv> frame j OR 7"
abbreviation shared :: "nat \<Rightarrow> u64" where "shared j \<equiv> frame (j mod 256) OR 5"

lemma find_own:
  assumes inv: "cow_inv pml4 pdpt pd pt keep own s" and pl: "cow_places pml4 pdpt pd pt"
    and v: "unat v = 0x80000000 + 0x1000 * j + 8 * k" "j < 512" "k < 512"
  shows "find_page pml4 v s = Some (frame j, True)"
proof (cases "ctlb s (vpage v)")
  case None
  then show ?thesis using find_mapped [OF inv pl v, of j 7] v(2) by simp
next
  case (Some e)
  then have "e = (frame j, True)" using cow_inv_kept(2) [OF inv _ v(2), of e] page_word(1) [OF v] by simp
  then show ?thesis using Some by (simp add: find_page_def)
qed

definition source_same :: "mem \<Rightarrow> mem \<Rightarrow> bool" where
  "source_same m m' \<longleftrightarrow> (\<forall>i < 256. \<forall>k. ents m' (frame i, k) = ents m (frame i, k))"

lemma eager_step:
  assumes inv: "cow_inv pml4 pdpt pd pt keep own s" "source_same orig (cpm s)" and pl: "cow_places pml4 pdpt pd pt"
    and v: "unat v = 0x80000000 + 0x1000 * j + 8 * k" "256 \<le> j" "j < 512" "k < 512"
  obtains s' where "store_retry ctl keep pml4 pt v x s = Some s'" "cow_inv pml4 pdpt pd pt keep own s'" "source_same orig (cpm s')"
    "ctlb s' = (if keep (0x80000 + of_nat j) then (ctlb s)(0x80000 + of_nat j \<mapsto> (frame j, True)) else ctlb s)"
proof -
  obtain s' where s': "cow_store ctl keep pml4 v x s = Complete s'" "cow_inv pml4 pdpt pd pt keep own s'"
    "ents (cpm s') = (ents (cpm s))((frame j, of_nat k) \<mapsto> x)"
    "ctlb s' = (if keep (0x80000 + of_nat j) then (ctlb s)(0x80000 + of_nat j \<mapsto> (frame j, True)) else ctlb s)"
    by (rule store_at [OF inv(1) pl v(1,3,4) find_own [OF inv(1) pl v(1,3,4)] v(3), where ctl = ctl and x = x]) (simp_all add: that)
  have "source_same orig (cpm s')" using inv(2) s'(3) v(2,3) by (auto simp: source_same_def frame_eq)
  then show ?thesis using that [OF _ s'(2) _ s'(4)] retry_completes(2) [OF s'(1)] by blast
qed

lemma memcpy_run:
  assumes inv: "cow_inv pml4 pdpt pd pt keep own s" "source_same orig (cpm s)" and pl: "cow_places pml4 pdpt pd pt"
  obtains s' where "my_memcpy (load_retry ctl keep pml4 pt) (store_retry ctl keep pml4 pt) 0x80100000 0x80000000 0x100000 s = Some s'"
    "cow_inv pml4 pdpt pd pt keep own s'" "source_same orig (cpm s')"
proof -
  let ?P = "\<lambda>(n :: nat) s. cow_inv pml4 pdpt pd pt keep own s \<and> source_same orig (cpm s)"
  have "\<exists>s'. for_each (\<lambda>k s. do { (x, s) \<leftarrow> load_retry ctl keep pml4 pt (0x80000000 + 8 * of_nat (8 * k)) s;
      store_retry ctl keep pml4 pt (0x80100000 + 8 * of_nat (8 * k)) x s }) [0..<16384] s = Some s' \<and> ?P 16384 s'"
  proof (rule for_each_inv)
    fix q s assume q: "q < 16384" and P: "?P q s"
    define j k where "j = q div 64" and "k = 8 * (q mod 64)"
    have "q = 64 * (q div 64) + q mod 64" by simp
    then have jk: "j < 256" "k < 512" "64 * q = 0x1000 * j + 8 * k" unfolding j_def k_def using q by linarith+
    have u: "unat (0x80000000 + 8 * of_nat (8 * q) :: u64) = 0x80000000 + 0x1000 * j + 8 * k"
      "unat (0x80100000 + 8 * of_nat (8 * q) :: u64) = 0x80000000 + 0x1000 * (j + 256) + 8 * k"
      using q jk(3) by (simp_all add: unat_word_ariths unat_of_nat take_bit_nat_eq_self)
    obtain x s1 where s1: "cow_load keep pml4 (0x80000000 + 8 * of_nat (8 * q)) s = Complete (x, s1)"
      "cow_inv pml4 pdpt pd pt keep own s1" "cpm s1 = cpm s"
      by (rule load_at [OF _ u(1) _ jk(2) find_own [OF _ pl u(1) _ jk(2)]]) (use P jk(1) in auto)
    obtain s2 where "store_retry ctl keep pml4 pt (0x80100000 + 8 * of_nat (8 * q)) x s1 = Some s2" "?P (Suc q) s2"
      by (rule eager_step [OF s1(2) _ pl u(2) _ _ jk(2), where orig = orig and ctl = ctl and x = x]) (use P jk(1) s1(3) in auto)
    then show "\<exists>s'. do { (x, s) \<leftarrow> load_retry ctl keep pml4 pt (0x80000000 + 8 * of_nat (8 * q)) s;
        store_retry ctl keep pml4 pt (0x80100000 + 8 * of_nat (8 * q)) x s } = Some s' \<and> ?P (Suc q) s'"
      using retry_completes(1) [OF s1(1), of ctl pt] by auto
  qed (use inv in simp_all)
  then show ?thesis using that by (simp add: my_memcpy_def) blast
qed

text \<open>The addresses of the last loop of each part.\<close>

lemma clear_addr: "i < 256 \<Longrightarrow> unat (0x80100000 + of_nat i * 0x1000 :: u64) = 0x80000000 + 0x1000 * (256 + i) + 8 * 0"
  by (simp add: unat_word_ariths unat_of_nat take_bit_nat_eq_self)

definition kept_below :: "(u64 \<Rightarrow> bool) \<Rightarrow> nat \<Rightarrow> cow_state \<Rightarrow> bool" where
  "kept_below keep n s \<longleftrightarrow> (\<forall>i < n. keep (0x80000 + of_nat (256 + i)) \<longrightarrow>
     ctlb s (0x80000 + of_nat (256 + i)) = Some (frame (256 + i), True))"

lemma eager_clear:
  assumes inv: "cow_inv pml4 pdpt pd pt keep own s" "source_same orig (cpm s)" and pl: "cow_places pml4 pdpt pd pt"
  obtains s' where "clear_words (store_retry ctl keep pml4 pt) s = Some s'"
    "cow_inv pml4 pdpt pd pt keep own s'" "source_same orig (cpm s')" "kept_below keep 256 s'"
proof -
  let ?P = "\<lambda>n s. cow_inv pml4 pdpt pd pt keep own s \<and> source_same orig (cpm s) \<and> kept_below keep n s"
  have "\<exists>s'. clear_words (store_retry ctl keep pml4 pt) s = Some s' \<and> ?P 256 s'"
    unfolding clear_words_def
  proof (rule for_each_inv)
    fix i s assume i: "i < 256" and P: "?P i s"
    obtain s' where s': "store_retry ctl keep pml4 pt (0x80100000 + of_nat i * 0x1000) 0 s = Some s'"
      "cow_inv pml4 pdpt pd pt keep own s'" "source_same orig (cpm s')"
      "ctlb s' = (if keep (0x80000 + of_nat (256 + i)) then (ctlb s)(0x80000 + of_nat (256 + i) \<mapsto> (frame (256 + i), True)) else ctlb s)"
      by (rule eager_step [OF _ _ pl clear_addr [OF i], where orig = orig and s = s and keep = keep and ctl = ctl and x = 0]) (use P i in auto)
    moreover have "kept_below keep (Suc i) s'"
      using P i unfolding kept_below_def s'(4) by (auto simp: less_Suc_eq page_number_eq)
    ultimately show "\<exists>s'. store_retry ctl keep pml4 pt (0x80100000 + of_nat i * 0x1000) 0 s = Some s' \<and> ?P (Suc i) s'" by blast
  qed (use inv in \<open>simp_all add: kept_below_def\<close>)
  then show ?thesis using that by blast
qed

text \<open>What the second part leaves behind after \<open>n\<close> of its stores, from the source pages \<open>orig\<close>.\<close>

definition shared_after :: "(u64 \<Rightarrow> bool) \<Rightarrow> mem \<Rightarrow> nat \<Rightarrow> mem \<Rightarrow> bool" where
  "shared_after keep orig n m \<longleftrightarrow> (\<forall>i < 256. \<forall>k. ents m (frame i, k) =
       (if i < n \<and> \<not> keep (0x80000 + of_nat (256 + i)) \<and> k = 0 then Some 0 else ents orig (frame i, k))) \<and>
     (\<forall>i < n. keep (0x80000 + of_nat (256 + i)) \<longrightarrow> ents m (frame (256 + i), 0) = Some 0)"

lemma shared_clear:
  assumes inv: "cow_inv pml4 pdpt pd pt keep shared s" "source_same orig (cpm s)" "kept_below keep 256 s"
    and pl: "cow_places pml4 pdpt pd pt" and wp: "\<not> bit ctl 16"
  obtains s' where "clear_words (store_retry ctl keep pml4 pt) s = Some s'"
    "cow_inv pml4 pdpt pd pt keep shared s'" "shared_after keep orig 256 (cpm s')"
proof -
  let ?P = "\<lambda>n s. cow_inv pml4 pdpt pd pt keep shared s \<and> kept_below keep 256 s \<and> shared_after keep orig n (cpm s)"
  have "\<exists>s'. clear_words (store_retry ctl keep pml4 pt) s = Some s' \<and> ?P 256 s'"
    unfolding clear_words_def
  proof (rule for_each_inv [where P = ?P])
    fix i s assume i: "i < 256" and P: "?P i s"
    let ?v = "0x80100000 + of_nat i * 0x1000 :: addr" and ?p = "0x80000 + of_nat (256 + i) :: u64"
    let ?t = "if keep ?p then 256 + i else i"
    have k: "vpage ?v = ?p" by (rule page_word(1) [OF clear_addr [OF i]]) (use i in simp_all)
    have "find_page pml4 ?v s = Some (frame ?t, keep ?p)"
    proof (cases "keep ?p")
      case True
      then show ?thesis using P i k by (simp add: find_page_def kept_below_def)
    next
      case False
      then have "ctlb s (vpage ?v) = None" using cow_inv_kept(1) [of pml4 pdpt pd pt keep shared s "256 + i"] P i k
        by (cases "ctlb s (vpage ?v)") auto
      then show ?thesis using find_mapped [OF _ pl clear_addr [OF i], where i = i and fl = 5] P i False by auto
    qed
    then obtain s' where s': "cow_store ctl keep pml4 ?v 0 s = Complete s'" "cow_inv pml4 pdpt pd pt keep shared s'"
      "ents (cpm s') = (ents (cpm s))((frame ?t, of_nat 0) \<mapsto> 0)"
      "ctlb s' = (if keep ?p then (ctlb s)(?p \<mapsto> (frame (256 + i), True)) else ctlb s)"
      by (rule store_at [OF _ pl clear_addr [OF i], where s = s and keep = keep and F = shared and ctl = ctl and x = 0, rotated 3])
        (use P i k wp in \<open>auto split: if_splits\<close>)
    have "kept_below keep 256 s'" using P i unfolding kept_below_def s'(4) by (auto simp: page_number_eq)
    moreover have "shared_after keep orig (Suc i) (cpm s')"
      using P i unfolding shared_after_def s'(3) by (auto simp: less_Suc_eq frame_eq)
    ultimately show "\<exists>s'. store_retry ctl keep pml4 pt (0x80100000 + of_nat i * 0x1000) 0 s = Some s' \<and> ?P (Suc i) s'"
      using s'(2) retry_completes(2) [OF s'(1), of pt] by blast
  qed (use inv in \<open>simp_all add: shared_after_def source_same_def\<close>)
  then show ?thesis using that by blast
qed

section \<open>The whole program\<close>

definition cow_start :: "addr \<Rightarrow> addr \<Rightarrow> addr \<Rightarrow> addr \<Rightarrow> cow_state \<Rightarrow> bool" where
  "cow_start pml4 pdpt pd pt s \<longleftrightarrow> (let f = ents (cpm s) in
     cow_places pml4 pdpt pd pt \<and> f (pml4, 0) = Some (pdpt OR 7) \<and> f (pdpt, 2) \<noteq> None \<and> f (pd, 0) \<noteq> None \<and>
     (\<forall>j < 512. f (pt, of_nat j) \<noteq> None) \<and> (\<forall>j < 512. \<forall>k < 512. f (frame j, of_nat k) \<noteq> None) \<and>
     (\<exists>e. f (pdpt, 1) = Some e \<and> \<not> pte_present e) \<and> ctlb s = Map.empty \<and> handled s = 0)"

lemma small_of_nat: "unat (of_nat j :: u64) = j" if "j < 512"
  using that by (simp add: unat_of_nat take_bit_nat_eq_self)

lemma cow_tables_run:
  assumes st: "cow_start pml4 pdpt pd pt s"
  obtains s' where "do { s \<leftarrow> cow_tables pdpt pd pt s;
      for_each (\<lambda>i. cset pt (of_nat i) ((0x50000000 + of_nat i * 0x1000) OR rwu)) [256..<512] s } = Some s'"
    "cow_inv pml4 pdpt pd pt keep own s'" "source_same (cpm s) (cpm s')"
proof -
  let ?f = "ents (cpm s)" and ?body = "\<lambda>i. cset pt (of_nat i) ((0x50000000 + of_nat i * 0x1000) OR rwu)"
  have pl: "cow_places pml4 pdpt pd pt" and f: "?f (pml4, 0) = Some (pdpt OR 7)" "?f (pdpt, 2) \<noteq> None" "?f (pd, 0) \<noteq> None"
    "\<forall>j < 512. ?f (pt, of_nat j) \<noteq> None" "\<forall>j < 512. \<forall>k < 512. ?f (frame j, of_nat k) \<noteq> None"
    "\<exists>e. ?f (pdpt, 1) = Some e \<and> \<not> pte_present e" "ctlb s = Map.empty" "handled s = 0"
    using st unfolding cow_start_def Let_def by blast+
  have d: "distinct [pml4, pdpt, pd, pt]" "\<And>j. j < 512 \<Longrightarrow> frame j \<notin> {pml4, pdpt, pd, pt}" using pl by (auto simp: cow_places_def)
  obtain m1 where m1: "cset pdpt 2 (pd OR 7) s = Some (s\<lparr>cpm := m1\<rparr>)" "ents m1 = ?f((pdpt, 2) \<mapsto> pd OR 7)"
    using cset_run [OF f(2)] by blast
  have "ents (cpm (s\<lparr>cpm := m1\<rparr>)) (pd, 0) \<noteq> None" using f(3) by (simp add: m1(2))
  then obtain m2 where m2: "cset pd 0 (pt OR 7) (s\<lparr>cpm := m1\<rparr>) = Some (s\<lparr>cpm := m2\<rparr>)" "ents m2 = (ents m1)((pd, 0) \<mapsto> pt OR 7)"
    using cset_run [of "s\<lparr>cpm := m1\<rparr>" pd 0 "pt OR 7"] by auto
  have body: "?body i t = cset pt (of_nat i) (own i) t" for i t by (simp add: rwu_7 frame_def)
  have d2: "\<forall>j < 512. ents (cpm (s\<lparr>cpm := m2\<rparr>)) (pt, of_nat j) \<noteq> None" using f(4) d(1) by (auto simp: m1(2) m2(2))
  obtain m3 where m3: "for_each ?body [0..<256] (s\<lparr>cpm := m2\<rparr>) = Some (s\<lparr>cpm := m2, cpm := m3\<rparr>)"
    "ents m3 = (\<lambda>(t, i). if t = pt \<and> 0 \<le> unat i \<and> unat i < 256 then Some (own (unat i)) else ents (cpm (s\<lparr>cpm := m2\<rparr>)) (t, i))"
    by (rule fill_run [OF d2, of 0 256 ?body own], simp, simp, rule body) (rule that)
  have d3: "\<forall>j < 512. ents (cpm (s\<lparr>cpm := m3\<rparr>)) (pt, of_nat j) \<noteq> None" using d2 by (auto simp: m3(2))
  obtain m4 where m4: "for_each ?body [256..<512] (s\<lparr>cpm := m3\<rparr>) = Some (s\<lparr>cpm := m3, cpm := m4\<rparr>)"
    "ents m4 = (\<lambda>(t, i). if t = pt \<and> 256 \<le> unat i \<and> unat i < 512 then Some (own (unat i)) else ents (cpm (s\<lparr>cpm := m3\<rparr>)) (t, i))"
    by (rule fill_run [OF d3, of 256 512 ?body own], simp, simp, rule body) (rule that)
  have e4: "ents m4 = (\<lambda>(t, i). if t = pt \<and> unat i < 512 then Some (own (unat i)) else (?f((pdpt, 2) \<mapsto> pd OR 7, (pd, 0) \<mapsto> pt OR 7)) (t, i))"
    by (auto simp: m4(2) m3(2) m2(2) m1(2) fun_eq_iff)
  have "cow_inv pml4 pdpt pd pt keep own (s\<lparr>cpm := m4\<rparr>)"
    using d f small_of_nat by (auto simp: cow_inv_def Let_def e4)
  moreover have "source_same (cpm s) m4" using d(2) by (auto simp: source_same_def e4)
  ultimately show ?thesis
    using that [of "s\<lparr>cpm := m4\<rparr>"] m1(1) m2(1) m3(1) m4(1) by (simp add: cow_tables_def tutorial_slots v2p_def rwu_7 Let_def)
qed

lemma shared_tables_run:
  assumes inv: "cow_inv pml4 pdpt pd pt keep own s" "source_same orig (cpm s)" and pl: "cow_places pml4 pdpt pd pt"
  obtains s' where "do {
      s \<leftarrow> for_each (\<lambda>i. cset pt (of_nat i) ((0x50000000 + of_nat i * 0x1000) OR (push_bit 0 1 OR push_bit 2 1))) [0..<256] s;
      for_each (\<lambda>i s. do { e \<leftarrow> read64 (cpm s) (page_entry pt (of_nat (i - 256))); cset pt (of_nat i) e s }) [256..<512] s } = Some s'"
    "cow_inv pml4 pdpt pd pt keep shared s'" "source_same orig (cpm s')" "ctlb s' = ctlb s"
proof -
  let ?b1 = "\<lambda>i. cset pt (of_nat i) ((0x50000000 + of_nat i * 0x1000) OR (push_bit 0 1 OR push_bit 2 1))"
  let ?b2 = "\<lambda>i s. do { e \<leftarrow> read64 (cpm s) (page_entry pt (of_nat (i - 256))); cset pt (of_nat i) e s }"
  have d: "distinct [pml4, pdpt, pd, pt]" "\<And>j. j < 512 \<Longrightarrow> frame j \<notin> {pml4, pdpt, pd, pt}" using pl by (auto simp: cow_places_def)
  have d0: "\<forall>j < 512. ents (cpm s) (pt, of_nat j) \<noteq> None" using inv(1) by (simp add: cow_inv_def Let_def)
  have b1: "?b1 i t = cset pt (of_nat i) (frame i OR 5) t" for i t by (simp add: frame_def)
  obtain m1 where m1: "for_each ?b1 [0..<256] s = Some (s\<lparr>cpm := m1\<rparr>)"
    "ents m1 = (\<lambda>(t, i). if t = pt \<and> 0 \<le> unat i \<and> unat i < 256 then Some (frame (unat i) OR 5) else ents (cpm s) (t, i))"
    by (rule fill_run [OF d0, of 0 256 ?b1 "\<lambda>i. frame i OR 5"], simp, simp, rule b1) (rule that)
  have d1: "\<forall>j < 512. ents (cpm (s\<lparr>cpm := m1\<rparr>)) (pt, of_nat j) \<noteq> None" using d0 by (auto simp: m1(2))
  have b2: "?b2 i (s\<lparr>cpm := m1, cpm := m\<rparr>) = cset pt (of_nat i) (frame (i - 256) OR 5) (s\<lparr>cpm := m1, cpm := m\<rparr>)"
    if "256 \<le> i" "i < 512" "\<And>j. unat j < 256 \<Longrightarrow> ents m (pt, j) = ents (cpm (s\<lparr>cpm := m1\<rparr>)) (pt, j)" for i m
  proof -
    have "ents m (pt, of_nat (i - 256)) = Some (frame (i - 256) OR 5)" using that small_of_nat [of "i - 256"] by (simp add: m1(2))
    then show ?thesis using ents_read [of m pt "of_nat (i - 256)"] by (simp add: page_entry_def)
  qed
  obtain m2 where m2: "for_each ?b2 [256..<512] (s\<lparr>cpm := m1\<rparr>) = Some (s\<lparr>cpm := m1, cpm := m2\<rparr>)"
    "ents m2 = (\<lambda>(t, i). if t = pt \<and> 256 \<le> unat i \<and> unat i < 512 then Some (frame (unat i - 256) OR 5)
      else ents (cpm (s\<lparr>cpm := m1\<rparr>)) (t, i))"
    by (rule fill_run [OF d1, of 256 512 ?b2 "\<lambda>i. frame (i - 256) OR 5"], simp, simp, rule b2, assumption, assumption, blast)
      (rule that)
  have "256 \<le> j \<Longrightarrow> j - 256 = j mod 256" if "j < 512" for j :: nat using that by (simp add: mod_if)
  then have e2: "ents m2 = (\<lambda>(t, i). if t = pt \<and> unat i < 512 then Some (shared (unat i)) else ents (cpm s) (t, i))"
    by (auto simp: m2(2) m1(2) fun_eq_iff)
  have "cow_inv pml4 pdpt pd pt keep shared (s\<lparr>cpm := m2\<rparr>)"
    using d inv(1) small_of_nat unfolding cow_inv_def Let_def by (simp add: e2)
  moreover have "source_same orig m2" using d(2) inv(2) by (auto simp: source_same_def e2)
  ultimately show ?thesis using that [of "s\<lparr>cpm := m2\<rparr>"] m1(1) m2(1) by simp
qed

text \<open>The handler copies by physical addresses, which the tables do not map.\<close>

lemma handler_fails:
  assumes inv: "cow_inv pml4 pdpt pd pt keep F s" and pl: "cow_places pml4 pdpt pd pt"
    and v: "0x80100000 \<le> unat v" "unat v < 0x80200000"
  shows "fault_handler ctl keep pml4 pt v s = None"
proof -
  define j where "j = unat v div 0x1000 - 0x80000"
  have j: "256 \<le> j" "j < 512" "unat v div 0x1000 = 0x80000 + j" using v by (auto simp: j_def)
  let ?n = "(v mod k2MB) div k4KB" and ?i = "j - 256"
  have "unat v mod 0x200000 = unat v - 0x80000000" using v by (intro mod_nat_eqI) simp_all
  moreover have "(unat v - 0x80000000) div 0x1000 = j" using v j(3) by (simp add: div_nat_eqI j_def)
  ultimately have "unat v mod 0x200000 div 0x1000 = j" by simp
  then have n: "?n = of_nat j" "?n - 256 = of_nat ?i"
    using j by (simp_all add: k2MB_def k4KB_def word_unat_eq_iff unat_div unat_mod small_of_nat unat_sub_if' of_nat_diff)
  have f: "ents (cpm s) (pt, of_nat k) \<noteq> None" if "k < 512" for k using inv that by (simp add: cow_inv_def Let_def)
  obtain m1 where m1: "cset pt ?n ((0x50000000 + ?n * 0x1000) OR rwu) s = Some (s\<lparr>cpm := m1\<rparr>)"
    "ents m1 = (ents (cpm s))((pt, ?n) \<mapsto> (0x50000000 + ?n * 0x1000) OR rwu)"
    using cset_run [of s pt ?n] f [OF j(2)] unfolding n(1) by blast
  have "ents m1 (pt, of_nat ?i) \<noteq> None" using f [of ?i] j by (auto simp: m1(2))
  then obtain e where e: "ents m1 (pt, of_nat ?i) = Some e" by blast
  obtain m2 where m2: "cset pt (of_nat ?i) (e OR push_bit 1 1) (s\<lparr>cpm := m1\<rparr>) = Some (s\<lparr>cpm := m2\<rparr>)"
    "ents m2 = (ents m1)((pt, of_nat ?i) \<mapsto> e OR push_bit 1 1)"
    using cset_run [of "s\<lparr>cpm := m1\<rparr>" pt "of_nat ?i" "e OR push_bit 1 1"] e by auto
  let ?a = "0x50000000 + of_nat ?i * 0x1000 :: addr" and ?s = "s\<lparr>cpm := m2\<rparr>"
  have a: "unat ?a = 0x50000000 + 0x1000 * ?i" using unat_frame [of ?i] j(2) by (simp add: frame_def)
  have "vpage ?a \<noteq> 0x80000 + of_nat k" if "k < 512" for k
  proof -
    have "unat (vpage ?a) < 0x80000" using a j(2) by (simp add: vpage_def unat_drop_bit_eq drop_bit_nat_def)
    moreover have "unat (0x80000 + of_nat k :: u64) = 0x80000 + k" using that by (simp add: unat_word_ariths small_of_nat)
    ultimately show ?thesis by auto
  qed
  then have "ctlb s (vpage ?a) = None" using inv unfolding cow_inv_def by (cases "ctlb s (vpage ?a)") blast+
  moreover have "walk m2 pml4 ?a = None"
  proof -
    have g: "ents m2 (pml4, 0) = Some (pdpt OR 7)" "\<exists>e. ents m2 (pdpt, 1) = Some e \<and> \<not> pte_present e"
      using inv pl by (auto simp: cow_inv_def Let_def m1(2) m2(2) cow_places_def)
    have ix: "pt_index 39 ?a = 0" "pt_index 30 ?a = 1" using a j(2) index_bounds [of 39 0 ?a] index_bounds [of 30 1 ?a] by simp_all
    have "pte_frame 12 pml4 = pml4" "pte_frame 12 (pdpt OR 7) = pdpt"
      using pl pte_frame_or [of 12 pml4 0] table_entry [of pdpt] by (simp_all add: cow_places_def)
    then show ?thesis using g(2) ents_read [OF g(1)] ix by (auto simp: walk_def pt_entry_def dest!: ents_read)
  qed
  ultimately have "cow_load keep pml4 ?a ?s = Fault 14 (Some 0)" by (simp add: cow_load_def find_page_def)
  then have "my_memcpy (\<lambda>v s. completed (cow_load keep pml4 v s)) st d ?a 0x1000 ?s = None" for st d
    by (simp add: my_memcpy_def completed_def upt_conv_Cons)
  moreover have "read64 m1 (page_entry pt (of_nat ?i)) = Some e" using ents_read [OF e] by (simp add: page_entry_def)
  moreover have "cpm (s\<lparr>cpm := m1\<rparr>) = m1" by simp
  ultimately show ?thesis
    unfolding fault_handler_def Let_def n(2) m1(1) by (simp only: bind.bind_lunit m2(1) bind.bind_lzero)
qed

lemma cow_main_run:
  assumes "cow_start pml4 pdpt pd pt s" "\<not> bit ctl 16"
  obtains s' where "cow_friend_main ctl keep pml4 pdpt pd pt s = Some s'" "cow_inv pml4 pdpt pd pt keep shared s'"
    "shared_after keep (cpm s) 256 (cpm s')"
proof -
  have pl: "cow_places pml4 pdpt pd pt" using assms(1) by (simp add: cow_start_def Let_def)
  obtain s1 where s1: "do { s \<leftarrow> cow_tables pdpt pd pt s;
      for_each (\<lambda>i. cset pt (of_nat i) ((0x50000000 + of_nat i * 0x1000) OR rwu)) [256..<512] s } = Some s1"
    "cow_inv pml4 pdpt pd pt keep own s1" "source_same (cpm s) (cpm s1)" by (rule cow_tables_run [OF assms(1)]) (rule that)
  obtain s2 where s2: "my_memcpy (load_retry ctl keep pml4 pt) (store_retry ctl keep pml4 pt) 0x80100000 0x80000000 0x100000 s1 = Some s2"
    "cow_inv pml4 pdpt pd pt keep own s2" "source_same (cpm s) (cpm s2)" by (rule memcpy_run [OF s1(2,3) pl]) (rule that)
  obtain s3 where s3: "clear_words (store_retry ctl keep pml4 pt) s2 = Some s3" "cow_inv pml4 pdpt pd pt keep own s3"
    "source_same (cpm s) (cpm s3)" "kept_below keep 256 s3" by (rule eager_clear [OF s2(2,3) pl]) (rule that)
  obtain s4 where s4: "do {
      s \<leftarrow> for_each (\<lambda>i. cset pt (of_nat i) ((0x50000000 + of_nat i * 0x1000) OR (push_bit 0 1 OR push_bit 2 1))) [0..<256] s3;
      for_each (\<lambda>i s. do { e \<leftarrow> read64 (cpm s) (page_entry pt (of_nat (i - 256))); cset pt (of_nat i) e s }) [256..<512] s } = Some s4"
    "cow_inv pml4 pdpt pd pt keep shared s4" "source_same (cpm s) (cpm s4)" "ctlb s4 = ctlb s3"
    by (rule shared_tables_run [OF s3(2,3) pl]) (rule that)
  have k4: "kept_below keep 256 s4" using s3(4) s4(4) by (simp add: kept_below_def)
  obtain s5 where s5: "clear_words (store_retry ctl keep pml4 pt) s4 = Some s5" "cow_inv pml4 pdpt pd pt keep shared s5"
    "shared_after keep (cpm s) 256 (cpm s5)" by (rule shared_clear [OF s4(2,3) k4 pl assms(2)]) (rule that)
  obtain t1 t4 where "cow_tables pdpt pd pt s = Some t1"
    "for_each (\<lambda>i. cset pt (of_nat i) ((0x50000000 + of_nat i * 0x1000) OR rwu)) [256..<512] t1 = Some s1"
    "for_each (\<lambda>i. cset pt (of_nat i) ((0x50000000 + of_nat i * 0x1000) OR (push_bit 0 1 OR push_bit 2 1))) [0..<256] s3 = Some t4"
    "for_each (\<lambda>i s. do { e \<leftarrow> read64 (cpm s) (page_entry pt (of_nat (i - 256))); cset pt (of_nat i) e s }) [256..<512] t4 = Some s4"
    using s1(1) s4(1) unfolding bind_eq_Some_conv by blast
  then have run: "cow_friend_main ctl keep pml4 pdpt pd pt s = Some s5"
    by (simp only: cow_friend_main_def eager_copy_def shared_copy_def bind.bind_lunit s2(1) s3(1) s5(1))
  then show ?thesis using s5(2,3) by (rule that)
qed

text \<open>
  C31: The copy-on-write tutorial never copies on a write. The boot code leaves CR0.WP clear, so a
  store by the friend to a read-only page is no fault: \<^verbatim>\<open>friend_main\<close> runs to its end without one run of
  \<^verbatim>\<open>fault_handler\<close>, and afterwards all 512 entries still name the shared frames, read-only. Where the
  processor has not kept the translation of the first part, the store through the second mapping has
  cleared the first word of the original page; where it has (\<^verbatim>\<open>friend_main\<close> does not invalidate), the
  store went to the old copy. The other words of the originals are untouched. The handler would not
  have helped: for every address it is meant for, its copy faults itself, because it addresses the
  frames by their physical addresses, which the tables do not map. And the frames are no memory of
  the friend's.\<close>

theorem cow_never_copies:
  assumes "cow_start pml4 pdpt pd pt s" "\<not> bit ctl 16"
  shows "\<exists>s'. cow_friend_main ctl keep pml4 pdpt pd pt s = Some s' \<and> handled s' = 0 \<and>
    (\<forall>i < 256. read64 (cpm s') (page_entry pt (of_nat i)) = Some (frame i OR 5) \<and>
       read64 (cpm s') (page_entry pt (of_nat (256 + i))) = Some (frame i OR 5) \<and>
       (let kept = keep (vpage (0x80100000 + of_nat i * 0x1000)) in
          (kept \<longrightarrow> read64 (cpm s') (frame (256 + i)) = Some 0) \<and>
          (\<forall>k < 512. read64 (cpm s') (page_entry (frame i) (of_nat k)) =
             (if k = 0 \<and> \<not> kept then Some 0 else read64 (cpm s) (page_entry (frame i) (of_nat k)))))) \<and>
    (\<forall>v \<in> region 0x80100000 0x100000. fault_handler ctl' keep pml4 pt v s' = None) \<and>
    (\<forall>j < 512. region (frame j) 0x1000 \<inter> deploy_region = {})"
proof -
  have pl: "cow_places pml4 pdpt pd pt" using assms(1) by (simp add: cow_start_def Let_def)
  then have al: "aligned_to 12 pt" by (simp add: cow_places_def)
  obtain s5 where run: "cow_friend_main ctl keep pml4 pdpt pd pt s = Some s5" and s5: "cow_inv pml4 pdpt pd pt keep shared s5"
    "shared_after keep (cpm s) 256 (cpm s5)" by (rule cow_main_run [OF assms]) (rule that)
  have words: "read64 (cpm t) (page_entry (frame i) (of_nat k)) = ents (cpm t) (frame i, of_nat k)" if "i < 512" "k < 512" for t i k
    using frame_ok(1) [OF that(1)] that(2) by (simp add: ents_def small_of_nat)
  have pts: "read64 (cpm s5) (page_entry pt (of_nat j)) = Some (shared j)" if "j < 512" for j
    using s5(1) that al unfolding cow_inv_def Let_def by (simp add: ents_def small_of_nat)
  show ?thesis
  proof (intro exI conjI allI impI ballI, rule run)
    show "handled s5 = 0" using s5(1) by (simp add: cow_inv_def)
    fix i :: nat assume i: "i < 256"
    show "read64 (cpm s5) (page_entry pt (of_nat i)) = Some (frame i OR 5)"
      "read64 (cpm s5) (page_entry pt (of_nat (256 + i))) = Some (frame i OR 5)" using pts [of i] pts [of "256 + i"] i by simp_all
    have p: "vpage (0x80100000 + of_nat i * 0x1000) = 0x80000 + of_nat (256 + i)"
      by (rule page_word(1) [OF clear_addr [OF i]]) (use i in simp_all)
    show "let kept = keep (vpage (0x80100000 + of_nat i * 0x1000)) in
        (kept \<longrightarrow> read64 (cpm s5) (frame (256 + i)) = Some 0) \<and>
        (\<forall>k < 512. read64 (cpm s5) (page_entry (frame i) (of_nat k)) =
           (if k = 0 \<and> \<not> kept then Some 0 else read64 (cpm s) (page_entry (frame i) (of_nat k))))"
      unfolding p Let_def
    proof (intro conjI allI impI)
      show "read64 (cpm s5) (frame (256 + i)) = Some 0" if "keep (0x80000 + of_nat (256 + i))"
        using s5(2) i that words [of "256 + i" 0 s5] by (simp add: shared_after_def page_entry_def)
      show "read64 (cpm s5) (page_entry (frame i) (of_nat k)) = (if k = 0 \<and> \<not> keep (0x80000 + of_nat (256 + i)) then Some 0
        else read64 (cpm s) (page_entry (frame i) (of_nat k)))" if "k < 512" for k
        using s5(2) i that page_number_eq [of k 0] by (simp add: shared_after_def words)
    qed
  next
    show "fault_handler ctl' keep pml4 pt v s5 = None" if "v \<in> region 0x80100000 0x100000" for v
      using that by (intro handler_fails [OF s5(1) pl]) (simp_all add: region_interval)
  qed (rule frame_foreign)
qed

text \<open>Witness: tables at 0x1000 to 0x4000 and a memory that is 0 elsewhere; nothing is kept.\<close>

lemma tutorial_cow_start: "cow_start 0x1000 0x2000 0x3000 0x4000 \<lparr>cpm = tutorial_mem, ctlb = Map.empty, handled = 0\<rparr>"
proof -
  have w: "ents tutorial_mem (t, i) \<noteq> None" if "aligned_to 12 t" "unat i < 512" for t i
    using that tutorial_mem_reads(1) by (simp add: ents_def)
  have "t \<noteq> frame j" if "unat t < 0x50000000" "j < 512" for t j using that unat_frame [of j] by auto
  then have pl: "cow_places 0x1000 0x2000 0x3000 0x4000" by (simp add: cow_places_def aligned_to_def)
  have "ents tutorial_mem (0x1000, 0) = Some (0x2000 OR 7)" using tutorial_mem_reads(4) by (simp add: ents_def aligned_to_def page_entry_def)
  moreover have "read64 tutorial_mem 0x2008 = Some 0" by (simp add: tutorial_mem_def read_le_numeral)
  then have "ents tutorial_mem (0x2000, 1) = Some 0" by (simp add: ents_def aligned_to_def page_entry_def)
  then have "\<exists>e. ents tutorial_mem (0x2000, 1) = Some e \<and> \<not> pte_present e" by (simp add: pte_present_def)
  moreover have "ents tutorial_mem (0x2000, 2) \<noteq> None" "ents tutorial_mem (0x3000, 0) \<noteq> None"
    by (rule w; simp add: aligned_to_def)+
  moreover have "ents tutorial_mem (0x4000, of_nat j) \<noteq> None" if "j < 512" for j
    by (rule w) (use that in \<open>simp_all add: aligned_to_def small_of_nat\<close>)
  moreover have "ents tutorial_mem (frame j, of_nat k) \<noteq> None" if "j < 512" "k < 512" for j k
    by (rule w) (use that frame_ok in \<open>simp_all add: small_of_nat\<close>)
  ultimately show ?thesis using pl unfolding cow_start_def Let_def by simp
qed

theorem cow_never_copies_witness:
  "\<exists>s'. cow_friend_main 0x80000001 (\<lambda>_. False) 0x1000 0x2000 0x3000 0x4000 \<lparr>cpm = tutorial_mem, ctlb = Map.empty, handled = 0\<rparr> = Some s' \<and>
     handled s' = 0 \<and> read64 (cpm s') (frame 7) = Some 0"
proof -
  have "\<not> bit (0x80000001 :: u32) 16" by (simp add: bit_iff_odd_drop_bit)
  from cow_never_copies [OF tutorial_cow_start this, where keep = "\<lambda>_. False" and ctl' = 0]
  obtain s' where s': "cow_friend_main 0x80000001 (\<lambda>_. False) 0x1000 0x2000 0x3000 0x4000 \<lparr>cpm = tutorial_mem, ctlb = Map.empty, handled = 0\<rparr> = Some s'"
    "handled s' = 0" "\<And>i k. i < 256 \<Longrightarrow> k < 512 \<Longrightarrow> read64 (cpm s') (page_entry (frame i) (of_nat k)) =
       (if k = 0 then Some 0 else read64 tutorial_mem (page_entry (frame i) (of_nat k)))" by (auto simp: Let_def)
  moreover have "read64 (cpm s') (frame 7) = Some 0" using s'(3) [of 7 0] by (simp add: page_entry_def)
  ultimately show ?thesis by blast
qed

end
