(* ===== verification/Session.thy ===== *)
theory Session
  imports Offload Friend_Init
begin

text \<open>
  A session of hakase and the friend, as the programs of \<^verbatim>\<open>src/tutorial\<close> run it: the friend cores
  pass through \<^verbatim>\<open>friend_init\<close> and execute their \<^verbatim>\<open>friend_main\<close> with its offloads, while hakase polls
  \<^verbatim>\<open>is_friend_stopped\<close> and receives. It composes the step relations of \<open>Friend_Init\<close> and \<open>Offload\<close>
  with the loop of hakase's \<^verbatim>\<open>test_main\<close>.
\<close>

section \<open>The composed system\<close>

datatype loop_pc = Poll | Receiving | Finished

record ('r, 'g) session =
  fi :: friend_state
  ofl :: "('r, 'g) offloader"
  loop :: loop_pc

text \<open>
  \<^verbatim>\<open>offloader_tryreceive\<close> calls \<^verbatim>\<open>TryReceive\<close> until it returns false, which is when \<open>hakase_step\<close> is
  back at \<open>Main\<close>; the polling loop then goes on.
\<close>

definition offloader_tryreceive :: "('r, 'g) session \<Rightarrow> ('r, 'g) session option" where
  "offloader_tryreceive s = map_option
     (\<lambda>t. s\<lparr>ofl := t, loop := (if pcs t Hakase = Main then Poll else Receiving)\<rparr>) (exec1 Hakase (ofl s))"

definition test_loop :: "('r, 'g) session \<Rightarrow> ('r, 'g) session option" where
  "test_loop s = (case loop s of
      Poll \<Rightarrow> if \<not> is_friend_stopped (fi s) then offloader_tryreceive s else Some (s\<lparr>loop := Finished\<rparr>)
    | Receiving \<Rightarrow> offloader_tryreceive s
    | Finished \<Rightarrow> None)"

text \<open>A core in \<^verbatim>\<open>friend_main\<close> executes its program; at its end it returns to \<^verbatim>\<open>friend_init\<close>.\<close>

definition main_over :: "('r, 'g) offloader \<Rightarrow> nat \<Rightarrow> bool" where
  "main_over t i \<longleftrightarrow> todo t i = [] \<and> pcs t (Friend i) = Main"

definition core_step :: "friend_image \<Rightarrow> nat \<Rightarrow> ('r, 'g) session \<Rightarrow> ('r, 'g) session option" where
  "core_step B i s = (if core (fi s) i = InMain \<and> \<not> main_over (ofl s) i
     then map_option (\<lambda>t. s\<lparr>ofl := t\<rparr>) (exec1 (Friend i) (ofl s))
     else map_option (\<lambda>f. s\<lparr>fi := f\<rparr>) (friend_init B i (fi s)))"

text \<open>\<open>n\<close> is the number of processors that \<^verbatim>\<open>boot\<close> has started.\<close>

inductive session_step :: "friend_image \<Rightarrow> nat \<Rightarrow> ('r, 'g) session \<Rightarrow> ('r, 'g) session \<Rightarrow> bool" for B n where
  core_moves: "i < n \<Longrightarrow> core_step B i s = Some s' \<Longrightarrow> session_step B n s s'"
| hakase_moves: "test_loop s = Some s' \<Longrightarrow> session_step B n s s'"

definition session_start :: "('r, 'g) offloader \<Rightarrow> ('r, 'g) session" where
  "session_start t = \<lparr>fi = friend_start, ofl = t, loop = Poll\<rparr>"

lemma session_step_cases:
  assumes "session_step B n s s'"
  obtains (offload) c t where "exec1 c (ofl s) = Some t" "ofl s' = t" "fi s' = fi s"
      "c = Hakase \<and> loop s \<noteq> Finished \<and> loop s' = (if pcs t Hakase = Main then Poll else Receiving) \<or>
       (\<exists>i < n. c = Friend i \<and> core (fi s) i = InMain \<and> loop s' = loop s)"
  | (init) i where "i < n" "friend_init B i (fi s) = Some (fi s')" "ofl s' = ofl s" "loop s' = loop s"
      "core (fi s) i = InMain \<Longrightarrow> main_over (ofl s) i"
  | (finish) "loop s = Poll" "is_friend_stopped (fi s)" "s' = s\<lparr>loop := Finished\<rparr>"
  using assms
proof (cases rule: session_step.cases)
  case (core_moves i)
  show ?thesis
  proof (cases "core (fi s) i = InMain \<and> \<not> main_over (ofl s) i")
    case True
    then obtain t where "exec1 (Friend i) (ofl s) = Some t" "s' = s\<lparr>ofl := t\<rparr>"
      using core_moves(2) by (auto simp: core_step_def)
    then show ?thesis using offload [of "Friend i" t] core_moves(1) True by auto
  next
    case False
    then obtain f where "friend_init B i (fi s) = Some f" "s' = s\<lparr>fi := f\<rparr>"
      using core_moves(2) by (auto simp: core_step_def split: if_splits)
    then show ?thesis using init [of i] core_moves(1) False by auto
  qed
next
  case hakase_moves
  show ?thesis
  proof (cases "loop s = Poll \<and> is_friend_stopped (fi s)")
    case True
    then show ?thesis using hakase_moves finish by (simp add: test_loop_def)
  next
    case False
    then have "offloader_tryreceive s = Some s'" "loop s \<noteq> Finished"
      using hakase_moves by (auto simp: test_loop_def split: loop_pc.splits if_splits)
    then obtain t where "exec1 Hakase (ofl s) = Some t"
      "s' = s\<lparr>ofl := t, loop := (if pcs t Hakase = Main then Poll else Receiving)\<rparr>"
      by (auto simp: offloader_tryreceive_def)
    then show ?thesis using offload [of Hakase t] \<open>loop s \<noteq> Finished\<close> by auto
  qed
qed

section \<open>The components inside the session\<close>

text \<open>Every run of a session is a run of each component.\<close>

lemma session_projects:
  "(session_step B n)\<^sup>*\<^sup>* s s' \<Longrightarrow> (fstep B)\<^sup>*\<^sup>* (fi s) (fi s') \<and> ostep\<^sup>*\<^sup>* (ofl s) (ofl s')"
proof (induction rule: rtranclp_induct)
  case base
  then show ?case by simp
next
  case (step y z)
  from step.hyps(2) show ?case
  proof (cases rule: session_step_cases)
    case (offload c t)
    then show ?thesis using step.IH ostepI [of c "ofl y" t] by (auto intro: rtranclp.rtrancl_into_rtrancl)
  next
    case (init i)
    then show ?thesis using step.IH fstepI [OF init(2)] by (auto intro: rtranclp.rtrancl_into_rtrancl)
  next
    case finish
    then show ?thesis using step.IH by simp
  qed
qed

lemma exec1_other_pc: "exec1 c s = Some s' \<Longrightarrow> d \<noteq> c \<Longrightarrow> pcs s' d = pcs s d"
  by (cases c; cases "pcs s c";
      auto simp: exec1_def step_defs perform_def split: if_splits list.splits action.splits)

lemma over_stuck: "main_over t i \<Longrightarrow> exec1 (Friend i) t = None"
  by (simp add: main_over_def exec1_def)

lemma over_stays: "main_over t i \<Longrightarrow> exec1 c t = Some t' \<Longrightarrow> main_over t' i"
  using over_stuck [of t i] exec1_other_pc [of c t t' "Friend i"] todo_step [OF ostepI, of c t t' i]
  by (cases "c = Friend i") (auto simp: main_over_def)

lemma empty_main: "oinv H t \<Longrightarrow> todo t i = [] \<Longrightarrow> pcs t (Friend i) = Main"
  unfolding oinv_def heads_def by (metis list.distinct(1))

fun past_main :: "core_pc \<Rightarrow> bool" where
  "past_main Return = True" | "past_main l = has_returned l"

definition session_inv :: "'r \<Rightarrow> nat \<Rightarrow> ('r, 'g) session \<Rightarrow> bool" where
  "session_inv H n s \<longleftrightarrow> oinv H (ofl s) \<and> (\<forall>i \<ge> n. todo (ofl s) i = []) \<and>
     (\<forall>i. past_main (core (fi s) i) \<longrightarrow> main_over (ofl s) i) \<and>
     (loop s = Receiving \<longleftrightarrow> pcs (ofl s) Hakase \<noteq> Main) \<and> (loop s = Finished \<longrightarrow> is_friend_stopped (fi s))"

lemma friend_init_flag: "friend_init B i f = Some f' \<Longrightarrow> is_friend_stopped f \<Longrightarrow> is_friend_stopped f'"
  by (cases "core f i") (auto simp: is_friend_stopped_def finit_defs Let_def case_prod_unfold split: if_splits)

lemma past_main_step:
  assumes "friend_init B i f = Some f'" "past_main (core f' j)"
  shows "past_main (core f j) \<or> j = i \<and> core f i = InMain"
  using assms by (cases "j = i"; cases "core f i")
    (auto simp: finit_defs Let_def case_prod_unfold split: if_splits)

lemma session_inv_step:
  assumes inv: "session_inv H n s" and st: "session_step B n s s'"
  shows "session_inv H n s'"
  using st
proof (cases rule: session_step_cases)
  case (offload c t)
  have "oinv H t \<and> (\<forall>i \<ge> n. todo t i = [])"
    using off_bounded.inv_step [OF _ ostepI [OF offload(1)]] inv by (auto simp: session_inv_def)
  moreover have "main_over t i" if "past_main (core (fi s) i)" for i
    using inv that over_stays [OF _ offload(1)] by (auto simp: session_inv_def)
  moreover have "loop s' = Receiving \<longleftrightarrow> pcs t Hakase \<noteq> Main"
    using offload(4) exec1_other_pc [OF offload(1), of Hakase] inv by (auto simp: session_inv_def)
  moreover have "loop s' = Finished \<longrightarrow> is_friend_stopped (fi s)"
    using offload(4) inv by (auto simp: session_inv_def split: if_splits)
  ultimately show ?thesis using offload(2,3) by (simp add: session_inv_def)
next
  case (init i)
  then show ?thesis
    using inv past_main_step [OF init(2)] friend_init_flag [OF init(2)] by (auto simp: session_inv_def)
next
  case finish
  then show ?thesis using inv by (auto simp: session_inv_def)
qed

interpretation sess: inv_system "session_step B n" "session_inv H n" for B n H
  by unfold_locales (rule session_inv_step)

lemma session_inv_start:
  assumes "start t" "\<forall>i \<ge> n. todo t i = []"
  shows "session_inv (regs t Hakase) n (session_start t)"
proof -
  have "pcs t Hakase = Main" using assms(1) by (simp add: start_def)
  with assms(2) start_inv [OF assms(1)] show ?thesis
    by (simp add: session_inv_def session_start_def friend_start_def)
qed

section \<open>One core\<close>

text \<open>What a single core has called, by its program point.\<close>

fun calls_at :: "friend_image \<Rightarrow> core_pc \<Rightarrow> event list" where
  "calls_at B (Ctors k) = map (Ctor 0) [0..<k]"
| "calls_at B InMain = map (Ctor 0) [0..<ctor_count B]"
| "calls_at B Return = map (Ctor 0) [0..<ctor_count B] @ [Main_run 0]"
| "calls_at B (Compare _) = map (Ctor 0) [0..<ctor_count B] @ [Main_run 0]"
| "calls_at B (Dtors k) = map (Ctor 0) [0..<ctor_count B] @ Main_run 0 # map (Dtor 0) [0..<k]"
| "calls_at B SetFlag = map (Ctor 0) [0..<ctor_count B] @ Main_run 0 # map (Dtor 0) [0..<dtor_count B]"
| "calls_at B Stopped = map (Ctor 0) [0..<ctor_count B] @ Main_run 0 # map (Dtor 0) [0..<dtor_count B]"
| "calls_at B _ = []"

fun bounded_at :: "friend_image \<Rightarrow> core_pc \<Rightarrow> bool" where
  "bounded_at B (Ctors k) = (k \<le> ctor_count B)"
| "bounded_at B (Dtors k) = (k \<le> dtor_count B)"
| "bounded_at B (Compare v) = (v = 1)"
| "bounded_at B _ = True"

definition solo_inv :: "friend_image \<Rightarrow> friend_state \<Rightarrow> bool" where
  "solo_inv B f \<longleftrightarrow> bounded_at B (core f 0) \<and> events f = calls_at B (core f 0) \<and>
     init_count f = (if has_entered (core f 0) then 1 else 0) \<and>
     returned_count f = (if has_returned (core f 0) then 1 else 0) \<and> (is_friend_stopped f \<longleftrightarrow> core f 0 = Stopped)"

lemma solo_step:
  assumes "solo_inv B f" "friend_init B 0 f = Some f'"
  shows "solo_inv B f'"
  using assms by (cases "core f 0")
    (auto simp: solo_inv_def is_friend_stopped_def finit_defs Let_def case_prod_unfold split: if_splits)

lemma solo_start: "solo_inv B friend_start"
  by (simp add: solo_inv_def is_friend_stopped_def friend_start_def)

text \<open>What the rest of a program makes of the registers and the memory.\<close>

definition outcome_of :: "('r, 'g) action list \<Rightarrow> 'r \<times> 'g \<Rightarrow> 'r \<times> 'g" where
  "outcome_of = fold act_of"

definition solo_outcome :: "('r, 'g) serial \<Rightarrow> 'r \<times> 'g" where
  "solo_outcome a = outcome_of (stodo a 0) (sregs a 0, sglob a)"

abbreviation solo_serial :: "('r, 'g) serial \<Rightarrow> bool" where
  "solo_serial a \<equiv> \<forall>j \<ge> 1. stodo a j = []"

lemma solo_serial_step:
  assumes "solo_serial a" "sstep a a'"
  shows "solo_serial a' \<and> solo_outcome a' = solo_outcome a"
  using assms(2)
proof cases
  case (sstepI i x xs r g)
  then have "i = 0" using assms(1) by (cases i) auto
  then show ?thesis using sstepI assms(1) by (simp add: solo_outcome_def outcome_of_def)
qed

interpretation ser: inv_system sstep solo_serial
  by unfold_locales (use solo_serial_step in blast)

definition solo_session :: "friend_image \<Rightarrow> 'r \<Rightarrow> ('r, 'g) session \<Rightarrow> bool" where
  "solo_session B H s \<longleftrightarrow> session_inv H 1 s \<and> solo_inv B (fi s)"

lemma solo_session_step:
  assumes "solo_session B H s" "session_step B 1 s s'"
  shows "solo_session B H s'"
  using assms(2)
proof (cases rule: session_step_cases)
  case (init i)
  then show ?thesis using assms session_inv_step solo_step by (fastforce simp: solo_session_def)
qed (use assms session_inv_step in \<open>auto simp: solo_session_def\<close>)

interpretation solo: inv_system "session_step B 1" "solo_session B H" for B H
  by unfold_locales (rule solo_session_step)

lemma solo_session_start:
  "start t \<Longrightarrow> \<forall>i \<ge> 1. todo t i = [] \<Longrightarrow> solo_session B (regs t Hakase) (session_start t)"
  using session_inv_start [of t 1] solo_start [of B] by (simp add: solo_session_def session_start_def)

text \<open>When the loop has ended, the program of the core has been executed to its end.\<close>

lemma solo_finished:
  assumes "solo_session B H s" "loop s = Finished"
  shows "core (fi s) 0 = Stopped" "free H (ofl s)" "todo (ofl s) = (\<lambda>_. [])"
proof -
  show st: "core (fi s) 0 = Stopped" using assms by (auto simp: solo_session_def session_inv_def solo_inv_def)
  then have ov: "main_over (ofl s) 0" using assms by (simp add: solo_session_def session_inv_def)
  have "todo (ofl s) i = []" for i
    using assms(1) ov by (cases "i = 0") (auto simp: solo_session_def session_inv_def main_over_def)
  then show td: "todo (ofl s) = (\<lambda>_. [])" by auto
  have inv: "oinv H (ofl s)" using assms(1) by (simp add: solo_session_def session_inv_def)
  then have "pcs (ofl s) (Friend i) = Main" for i by (rule empty_main) (simp add: td)
  with inv show "free H (ofl s)" by (rule free_if_main)
qed

lemma serial_of_free: "free H t \<Longrightarrow> serial_of t = \<lparr>sglob = glob t, sregs = regs t \<circ> Friend, stodo = todo t\<rparr>"
  using free_view [of H t] by (simp add: serial_of_eq comp_def)

lemma start_free: "start t \<Longrightarrow> free (regs t Hakase) t"
  by (rule free_if_main [OF start_inv]) (simp_all add: start_def)

lemma solo_result:
  assumes "start t" "\<forall>i \<ge> 1. todo t i = []" "ostep\<^sup>*\<^sup>* t t'" "free H t'" "todo t' = (\<lambda>_. [])"
  shows "(regs t' (Friend 0), glob t') = outcome_of (todo t 0) (regs t (Friend 0), glob t)"
proof -
  have t: "serial_of t = \<lparr>sglob = glob t, sregs = regs t \<circ> Friend, stodo = todo t\<rparr>"
    by (rule serial_of_free [OF start_free [OF assms(1)]])
  have "sstep\<^sup>*\<^sup>* (serial_of t) (serial_of t')" using assms(3) start_inv [OF assms(1)] by (rule off.sim_steps)
  then have "solo_outcome (serial_of t') = solo_outcome (serial_of t)"
    by (rule ser.unchanged_steps [of solo_outcome, rotated])
      (use solo_serial_step assms(2) t in auto)
  then show ?thesis using t serial_of_free [OF assms(4)] assms(5) by (simp add: solo_outcome_def outcome_of_def)
qed

section \<open>Progress\<close>

text \<open>While the core is in \<^verbatim>\<open>friend_main\<close>, every step of the offload protocol is one of the session.\<close>

lemma lift_ostep:
  assumes inv: "solo_session B H s" and main: "core (fi s) 0 = InMain" and st: "ostep (ofl s) t"
  shows "\<exists>s'. session_step B 1 s s' \<and> ofl s' = t \<and> fi s' = fi s"
proof -
  have live: "\<not> is_friend_stopped (fi s)" "loop s \<noteq> Finished"
    using inv main by (auto simp: solo_session_def session_inv_def solo_inv_def)
  obtain c where c: "exec1 c (ofl s) = Some t" using st by (rule ostepE)
  show ?thesis
  proof (cases c)
    case Hakase
    then have "test_loop s = Some (s\<lparr>ofl := t, loop := (if pcs t Hakase = Main then Poll else Receiving)\<rparr>)"
      using c live by (cases "loop s") (simp_all add: test_loop_def offloader_tryreceive_def)
    then show ?thesis using hakase_moves [of s _ B 1] by fastforce
  next
    case (Friend i)
    have "i = 0"
    proof (rule ccontr)
      assume "i \<noteq> 0"
      then have "todo (ofl s) i = []" "oinv H (ofl s)" using inv by (auto simp: solo_session_def session_inv_def)
      then have "main_over (ofl s) i" using empty_main by (simp add: main_over_def)
      then show False using over_stuck [of "ofl s" i] c Friend by simp
    qed
    then have "core_step B 0 s = Some (s\<lparr>ofl := t\<rparr>)"
      using c Friend main over_stuck [of "ofl s" 0] by (auto simp: core_step_def)
    then show ?thesis using core_moves [of 0 1 B s] by fastforce
  qed
qed

lemma lift_osteps:
  assumes "ostep\<^sup>*\<^sup>* t t'" "solo_session B H s" "core (fi s) 0 = InMain" "ofl s = t"
  shows "\<exists>s'. (session_step B 1)\<^sup>*\<^sup>* s s' \<and> ofl s' = t' \<and> fi s' = fi s"
  using assms
proof (induction rule: rtranclp_induct)
  case base
  then show ?case by blast
next
  case (step y z)
  then obtain s1 where s1: "(session_step B 1)\<^sup>*\<^sup>* s s1" "ofl s1 = y" "fi s1 = fi s" by blast
  have "solo_session B H s1" using s1(1) step.prems(1) by (rule solo.inv_steps)
  from lift_ostep [OF this] obtain s2 where "session_step B 1 s1 s2" "ofl s2 = z" "fi s2 = fi s"
    using s1 step by auto
  then show ?case using rtranclp.rtrancl_into_rtrancl [OF s1(1)] by blast
qed

text \<open>The calls and accesses that a core has still to make.\<close>

fun core_left :: "friend_image \<Rightarrow> core_pc \<Rightarrow> nat" where
  "core_left B Stopped = 0"
| "core_left B SetFlag = 1"
| "core_left B (Dtors k) = 2 + (dtor_count B - k)"
| "core_left B (Compare _) = 3 + dtor_count B"
| "core_left B Return = 4 + dtor_count B"
| "core_left B InMain = 5 + dtor_count B"
| "core_left B (Ctors k) = 6 + dtor_count B + (ctor_count B - k)"
| "core_left B Start = 7 + dtor_count B + ctor_count B"
| "core_left B Entry = 8 + dtor_count B + ctor_count B"
| "core_left B Off = 9 + dtor_count B + ctor_count B"

lemma core_left_step:
  assumes "core f 0 \<noteq> Stopped"
  shows "\<exists>f'. friend_init B 0 f = Some f' \<and> core_left B (core f' 0) < core_left B (core f 0)"
  using assms by (cases "core f 0") (auto simp: finit_defs Let_def case_prod_unfold)

lemma solo_progress:
  assumes inv: "solo_session B H s" and left: "core (fi s) 0 \<noteq> Stopped"
  shows "\<exists>s'. (session_step B 1)\<^sup>*\<^sup>* s s' \<and> core_left B (core (fi s') 0) < core_left B (core (fi s) 0)"
proof -
  have init: "\<exists>s'. (session_step B 1)\<^sup>*\<^sup>* u s' \<and> core_left B (core (fi s') 0) < core_left B (core (fi u) 0)"
    if ns: "core (fi u) 0 \<noteq> Stopped" and ov: "core (fi u) 0 = InMain \<Longrightarrow> main_over (ofl u) 0" for u :: "('a, 'b) session"
  proof -
    obtain f where f: "friend_init B 0 (fi u) = Some f" "core_left B (core f 0) < core_left B (core (fi u) 0)"
      using core_left_step [OF ns] by blast
    then have "core_step B 0 u = Some (u\<lparr>fi := f\<rparr>)" using ov by (auto simp: core_step_def)
    then have "session_step B 1 u (u\<lparr>fi := f\<rparr>)" by (intro core_moves) simp_all
    then show ?thesis using f(2) by (intro exI [of _ "u\<lparr>fi := f\<rparr>"]) auto
  qed
  show ?thesis
  proof (cases "core (fi s) 0 = InMain")
    case True
    have "oinv H (ofl s) \<and> (\<forall>i \<ge> 1. todo (ofl s) i = [])" using inv by (simp add: solo_session_def session_inv_def)
    then obtain t where t: "ostep\<^sup>*\<^sup>* (ofl s) t" "main_over t 0" using can_drain by (metis main_over_def)
    then obtain s1 where s1: "(session_step B 1)\<^sup>*\<^sup>* s s1" "ofl s1 = t" "fi s1 = fi s"
      using lift_osteps [OF _ inv True] by blast
    then show ?thesis using init [of s1] left t(2) rtranclp_trans [OF s1(1)] by auto
  qed (use init [of s] left in blast)
qed

text \<open>Once the core has stopped, hakase leaves \<^verbatim>\<open>TryReceive\<close> and its loop.\<close>

lemma solo_leaves:
  assumes inv: "solo_session B H s" and st: "core (fi s) 0 = Stopped"
  shows "\<exists>s'. (session_step B 1)\<^sup>*\<^sup>* s s' \<and> loop s' = Finished"
proof -
  have stopped: "is_friend_stopped (fi s)" using inv st by (auto simp: solo_session_def solo_inv_def)
  have poll: "\<exists>s'. (session_step B 1)\<^sup>*\<^sup>* u s' \<and> loop s' = Finished"
    if "loop u = Poll" "is_friend_stopped (fi u)" for u :: "('a, 'b) session"
  proof -
    have "test_loop u = Some (u\<lparr>loop := Finished\<rparr>)" using that by (simp add: test_loop_def)
    then have "session_step B 1 u (u\<lparr>loop := Finished\<rparr>)" by (rule hakase_moves)
    then show ?thesis by (intro exI [of _ "u\<lparr>loop := Finished\<rparr>"]) auto
  qed
  have ov: "main_over (ofl s) 0" using inv st by (simp add: solo_session_def session_inv_def)
  have "pcs (ofl s) (Friend i) = Main" for i
  proof (cases "i = 0")
    case False
    then have "todo (ofl s) i = []" "oinv H (ofl s)" using inv by (auto simp: solo_session_def session_inv_def)
    then show ?thesis by (intro empty_main)
  qed (use ov in \<open>simp add: main_over_def\<close>)
  moreover have "oinv H (ofl s)" using inv by (simp add: solo_session_def session_inv_def)
  ultimately have fr: "free H (ofl s)" by (intro free_if_main)
  show ?thesis
  proof (cases "loop s")
    case Receiving
    then have "pcs (ofl s) Hakase = TCheck" using fr inv by (auto simp: free_def idle_def solo_session_def session_inv_def)
    then have "exec1 Hakase (ofl s) = Some (goto Hakase Main (ofl s))" using fr by (simp add: exec1_def free_def)
    then have "test_loop s = Some (s\<lparr>ofl := goto Hakase Main (ofl s), loop := Poll\<rparr>)"
      using Receiving by (simp add: test_loop_def offloader_tryreceive_def goto_def)
    then have "session_step B 1 s (s\<lparr>ofl := goto Hakase Main (ofl s), loop := Poll\<rparr>)" by (rule hakase_moves)
    then show ?thesis using poll [of "s\<lparr>ofl := goto Hakase Main (ofl s), loop := Poll\<rparr>"] stopped
      by (auto intro: converse_rtranclp_into_rtranclp)
  qed (use poll [of s] stopped in blast)+
qed

lemma solo_can_finish:
  assumes inv: "solo_session B H s"
  shows "\<exists>s'. (session_step B 1)\<^sup>*\<^sup>* s s' \<and> loop s' = Finished"
proof -
  have "\<exists>s'. (session_step B 1)\<^sup>*\<^sup>* s s' \<and> core (fi s') 0 = Stopped"
    by (rule solo.can_reach [where \<mu> = "\<lambda>s. core_left B (core (fi s) 0)", OF solo_progress inv])
  then obtain s1 where s1: "(session_step B 1)\<^sup>*\<^sup>* s s1" "core (fi s1) 0 = Stopped" by blast
  from solo_leaves [OF solo.inv_steps [OF s1(1) inv] s1(2)]
  obtain s2 where "(session_step B 1)\<^sup>*\<^sup>* s1 s2" "loop s2 = Finished" by blast
  then show ?thesis using rtranclp_trans [OF s1(1)] by blast
qed

section \<open>The offloading tutorial\<close>

text \<open>
  \<^verbatim>\<open>src/tutorial/toshokan/offloading\<close>: the variable \<^verbatim>\<open>x\<close> of the friend's frame is the register state, the
  shared variable \<^verbatim>\<open>value\<close> and what has been printed are the memory.
\<close>

definition func :: int where
  "func = 1"

definition offloading_main :: "(int, int \<times> string list) action list" where
  "offloading_main = [
     Local (\<lambda>(x, g). (0, g)),
     Offload (\<lambda>(x, v, out). (func, v, out @ [''Hello World!'' @ [CHR 0x0A]])),
     Local (\<lambda>(x, v, out). (x, x, out))]"

text \<open>The state in which all members of the offloader are zero, with the programs of the cores.\<close>

definition fresh :: "'r \<Rightarrow> 'g \<Rightarrow> (nat \<Rightarrow> ('r, 'g) action list) \<Rightarrow> ('r, 'g) offloader" where
  "fresh r g progs = \<lparr>glob = g, lock = False, req = False, don = False, friend_ctx = (r, AfterHakase),
     hakase_ctx = (r, AfterHakase), pcs = (\<lambda>_. Main), regs = (\<lambda>_. r), todo = progs\<rparr>"

lemma fresh_start: "start (fresh r g progs)"
  by (simp add: start_def fresh_def)

text \<open>What \<^verbatim>\<open>test_main\<close> returns behind its loop.\<close>

definition test_main_result :: "(int, int \<times> string list) session \<Rightarrow> int" where
  "test_main_result s = (if fst (glob (ofl s)) \<noteq> 0 then 1 else 0)"

section \<open>Running a session\<close>

fun session_run :: "friend_image \<Rightarrow> cpu list \<Rightarrow> ('r, 'g) session \<Rightarrow> ('r, 'g) session option" where
  "session_run B [] s = Some s"
| "session_run B (Hakase # cs) s = (case test_loop s of None \<Rightarrow> None | Some s' \<Rightarrow> session_run B cs s')"
| "session_run B (Friend i # cs) s = (case core_step B i s of None \<Rightarrow> None | Some s' \<Rightarrow> session_run B cs s')"

lemma session_run_steps:
  "session_run B cs s = Some s' \<Longrightarrow> (\<forall>i. Friend i \<in> set cs \<longrightarrow> i < n) \<Longrightarrow> (session_step B n)\<^sup>*\<^sup>* s s'"
proof (induction B cs s rule: session_run.induct)
  case (2 B cs s)
  then obtain u where u: "test_loop s = Some u" "session_run B cs u = Some s'" by (auto split: option.splits)
  then have "(session_step B n)\<^sup>*\<^sup>* u s'" using 2 by simp
  with hakase_moves [OF u(1)] show ?case by (rule converse_rtranclp_into_rtranclp)
next
  case (3 B i cs s)
  then obtain u where u: "core_step B i s = Some u" "session_run B cs u = Some s'" by (auto split: option.splits)
  then have "(session_step B n)\<^sup>*\<^sup>* u s'" using 3 by simp
  moreover have "i < n" using 3 by simp
  then have "session_step B n s u" using u(1) by (rule core_moves)
  ultimately show ?case by (rule converse_rtranclp_into_rtranclp [rotated])
qed simp

text \<open>
  C4: A session with one core, as the tutorials start it with \<^verbatim>\<open>boot(1)\<close>. From every state that it
  can get into, hakase's loop can come to its end. When it has ended, the core has run the
  constructors, \<^verbatim>\<open>friend_main\<close> and the destructors, each once and in this order; the memory and the
  registers of the core are what the actions of its program, offloaded or not, make of them one
  after the other; no request is left and hakase has its own registers.
\<close>

theorem session_completes:
  assumes "start t" "\<forall>i \<ge> 1. todo t i = []" "(session_step B 1)\<^sup>*\<^sup>* (session_start t) s"
  shows "(\<exists>s'. (session_step B 1)\<^sup>*\<^sup>* s s' \<and> loop s' = Finished) \<and>
    (loop s = Finished \<longrightarrow>
       events (fi s) = map (Ctor 0) [0..<ctor_count B] @ Main_run 0 # map (Dtor 0) [0..<dtor_count B] \<and>
       (regs (ofl s) (Friend 0), glob (ofl s)) = fold act_of (todo t 0) (regs t (Friend 0), glob t) \<and>
       todo (ofl s) 0 = [] \<and> \<not> req (ofl s) \<and> \<not> lock (ofl s) \<and> regs (ofl s) Hakase = regs t Hakase)"
proof (intro conjI impI)
  let ?H = "regs t Hakase"
  have inv: "solo_session B ?H s" using assms(3) solo_session_start [OF assms(1,2)] by (rule solo.inv_steps)
  then show "\<exists>s'. (session_step B 1)\<^sup>*\<^sup>* s s' \<and> loop s' = Finished" by (rule solo_can_finish)
  assume "loop s = Finished"
  note f = solo_finished [OF inv this]
  show "events (fi s) = map (Ctor 0) [0..<ctor_count B] @ Main_run 0 # map (Dtor 0) [0..<dtor_count B]"
    using inv f(1) by (simp add: solo_session_def solo_inv_def)
  have "ostep\<^sup>*\<^sup>* t (ofl s)" using session_projects [OF assms(3)] by (simp add: session_start_def)
  from solo_result [OF assms(1,2) this f(2,3)]
  show "(regs (ofl s) (Friend 0), glob (ofl s)) = fold act_of (todo t 0) (regs t (Friend 0), glob t)"
    by (simp add: outcome_of_def)
  show "todo (ofl s) 0 = []" "\<not> req (ofl s)" "\<not> lock (ofl s)" "regs (ofl s) Hakase = ?H"
    using f(2,3) by (simp_all add: free_def idle_def)
qed

theorem session_completes_witness:
  "\<exists>s. (session_step demo_image 1)\<^sup>*\<^sup>* (session_start (fresh 7 (0, []) ((\<lambda>_. [])(0 := offloading_main)))) s \<and>
     loop s = Finished \<and> glob (ofl s) = (1, [''Hello World!'' @ [CHR 0x0A]]) \<and> test_main_result s > 0"
proof -
  let ?t = "fresh 7 (0, []) ((\<lambda>_. [])(0 := offloading_main))"
  note c = session_completes [OF fresh_start, of 7 "(0, [])" "(\<lambda>_. [])(0 := offloading_main)" demo_image]
  have z: "\<forall>i \<ge> 1. todo ?t i = []" by (simp add: fresh_def)
  obtain s where s: "(session_step demo_image 1)\<^sup>*\<^sup>* (session_start ?t) s" "loop s = Finished"
    using c [OF z rtranclp.rtrancl_refl] by blast
  then have "(regs (ofl s) (Friend 0), glob (ofl s)) = fold act_of (todo ?t 0) (regs ?t (Friend 0), glob ?t)"
    using c [OF z s(1)] by blast
  also have "\<dots> = (1, 1, [''Hello World!'' @ [CHR 0x0A]])"
    by (simp add: fresh_def offloading_main_def func_def)
  finally have "glob (ofl s) = (1, [''Hello World!'' @ [CHR 0x0A]])" by (rule Pair_inject)
  moreover from this have "test_main_result s > 0" by (simp add: test_main_result_def)
  ultimately show ?thesis using s by blast
qed

section \<open>A core that comes too late\<close>

text \<open>
  With more cores, as \<^verbatim>\<open>src/sample\<close> starts them with \<^verbatim>\<open>boot(0)\<close>, the loop can end while a core has still to
  enter: its offload then waits for ever, since nobody receives any more.
\<close>

definition late_sched :: "cpu list" where
  "late_sched = replicate 11 (Friend 0) @ Hakase # replicate 8 (Friend 1)"

lemma abandoned:
  "\<exists>s. session_run demo_image late_sched
       (session_start (fresh 0 (0, []) ((\<lambda>_. [])(1 := tl offloading_main)))) = Some s \<and>
     loop s = Finished \<and> todo (ofl s) 1 \<noteq> [] \<and> (\<forall>s'. (session_step demo_image 2)\<^sup>*\<^sup>* s s' \<longrightarrow> s' = s)"
proof -
  let ?run = "session_run demo_image late_sched (session_start (fresh 0 (0, []) ((\<lambda>_. [])(1 := tl offloading_main))))"
  have "map_option (\<lambda>s. (loop s, todo (ofl s) 1 = [], core (fi s) 0, core (fi s) 1, pcs (ofl s) (Friend 1), don (ofl s)))
      ?run = Some (Finished, False, Stopped, InMain, OWait, False)" by code_simp
  then obtain s where s: "?run = Some s" "loop s = Finished" "todo (ofl s) 1 \<noteq> []" "core (fi s) 0 = Stopped"
    "core (fi s) 1 = InMain" "pcs (ofl s) (Friend 1) = OWait" "\<not> don (ofl s)" by auto
  have step: "s' = s" if "session_step demo_image 2 s s'" for s'
    using that
  proof (cases rule: session_step.cases)
    case (core_moves i)
    then consider "i = 0" | "i = 1" by linarith
    then show ?thesis
      using core_moves(2) s by cases (simp_all add: core_step_def main_over_def exec1_def friend_init_def)
  qed (use s in \<open>simp add: test_loop_def\<close>)
  have "s' = s" if "(session_step demo_image 2)\<^sup>*\<^sup>* s s'" for s'
    using that by (induction rule: rtranclp_induct) (auto dest: step)
  then show ?thesis using s by blast
qed

end
