(* ===== verification/Old_Samples.thy ===== *)
theory Old_Samples
  imports Tutorial_Paging
begin

text \<open>
  \<^verbatim>\<open>src/sample_old/common\<close> and what its programs share. They are friend programs for an earlier
  version of the repository: output goes through a channel to hakase, which is recorded as the list
  of the signals sent; the friend runs at the addresses below 1GB, which its page tables map to the
  physical addresses from \<^verbatim>\<open>0x80000000\<close> on. Accesses to that part are accesses to the physical
  memory; the other addresses go through the current page tables and a translation buffer.
\<close>

section \<open>Output\<close>

type_synonym signal = "int \<times> int"

record osys =
  opm :: mem
  ocr3 :: addr
  otlb :: "u64 \<rightharpoonup> addr"
  print_flag :: int
  sent :: "signal list"

text \<open>\<^verbatim>\<open>ChannelAccessor\<close>: a signal of a type with one value as its payload.\<close>

definition send :: "int \<Rightarrow> int \<Rightarrow> osys \<Rightarrow> osys" where
  "send ty x s = s\<lparr>sent := sent s @ [(ty, x)]\<rparr>"

text \<open>The loop around the compare-and-swap goes on as long as the flag was 0 and is now set.\<close>

function await_print :: "int \<Rightarrow> int" where
  "await_print flag = (if flag = 0 then await_print 1 else flag)"
  by pat_completeness auto

termination
  by (relation "measure (\<lambda>flag. if flag = 0 then 1 else 0)") auto

declare await_print.simps [simp del]

definition puts :: "string \<Rightarrow> osys \<Rightarrow> osys" where
  "puts str s = (
     let s = s\<lparr>print_flag := await_print (print_flag s)\<rparr>;
         s = fold (\<lambda>c. send 2 (of_char c)) (takeWhile (\<lambda>c. c \<noteq> CHR 0x00) str) s;
         s = send 2 10 s
     in s\<lparr>print_flag := 0\<rparr>)"

definition return_value :: "int \<Rightarrow> osys \<Rightarrow> osys" where
  "return_value i s = send 1 i s"

definition show_i :: "int \<Rightarrow> osys \<Rightarrow> osys" where
  "show_i i s = puts (''i='' @ [char_of (of_char (CHR ''0'') + i)]) s"

text \<open>
  The loop of \<^verbatim>\<open>exec.cc\<close> over the signals in the order they arrive: the value it returns and what it
  has printed. Without a further signal it waits for ever.
\<close>

fun exec_loop :: "signal list \<Rightarrow> string \<Rightarrow> (int \<times> string) option" where
  "exec_loop [] out = None"
| "exec_loop ((ty, x) # ss) out =
     (if ty = 1 then Some (x mod 2 ^ 32, out)
      else if ty = 2 then exec_loop ss (out @ [char_of (x mod 256)])
      else Some (1, out))"

section \<open>Memory\<close>

definition straight :: "addr \<Rightarrow> addr" where
  "straight v = v + 0x80000000"

text \<open>A table entry, a byte range, and an application image are stored through the straight mapping.\<close>

definition vput :: "addr \<Rightarrow> u64 \<Rightarrow> u64 \<Rightarrow> osys \<Rightarrow> osys option" where
  "vput p i e s = do { m \<leftarrow> set_entry (opm s) (straight p) i e; Some (s\<lparr>opm := m\<rparr>) }"

definition vclear :: "addr \<Rightarrow> nat \<Rightarrow> osys \<Rightarrow> osys option" where
  "vclear p n s = do { m \<leftarrow> memset n (opm s) (straight p) 0; Some (s\<lparr>opm := m\<rparr>) }"

definition vcopy :: "addr \<Rightarrow> addr \<Rightarrow> nat \<Rightarrow> osys \<Rightarrow> osys option" where
  "vcopy d p n s = do { m \<leftarrow> memcpy n (opm s) (straight d) (straight p); Some (s\<lparr>opm := m\<rparr>) }"

definition load_cr3 :: "addr \<Rightarrow> osys \<Rightarrow> osys" where
  "load_cr3 a s = s\<lparr>ocr3 := a, otlb := Map.empty\<rparr>"

definition flush_page :: "addr \<Rightarrow> osys \<Rightarrow> osys" where
  "flush_page v s = s\<lparr>otlb := (otlb s)(vpage v := None)\<rparr>"

text \<open>Where an address leads: straight below 1GB, else by the buffer or by the tables.\<close>

definition addr_of :: "osys \<Rightarrow> addr \<Rightarrow> addr option" where
  "addr_of s v = (if v < 0x40000000 then Some (straight v)
     else case otlb s (vpage v) of
       Some f \<Rightarrow> Some (f + take_bit 12 v)
     | None \<Rightarrow> translate_read (opm s) (ocr3 s) v)"

text \<open>After an access the buffer may keep the translation (\<open>keep\<close>).\<close>

definition remember :: "(u64 \<Rightarrow> bool) \<Rightarrow> addr \<Rightarrow> osys \<Rightarrow> osys" where
  "remember keep v s = (case addr_of s v of None \<Rightarrow> s | Some a \<Rightarrow>
     if 0x40000000 \<le> v \<and> keep (vpage v) then s\<lparr>otlb := (otlb s)(vpage v \<mapsto> a - take_bit 12 v)\<rparr> else s)"

definition vstore8 :: "(u64 \<Rightarrow> bool) \<Rightarrow> addr \<Rightarrow> u8 \<Rightarrow> osys \<Rightarrow> osys option" where
  "vstore8 keep v b s = do {
     a \<leftarrow> addr_of s v;
     m \<leftarrow> store8 (opm s) a b;
     Some ((remember keep v s)\<lparr>opm := m\<rparr>) }"

section \<open>What is sent is printed\<close>

definition chars_sent :: "string \<Rightarrow> signal list" where
  "chars_sent str = map (\<lambda>c. (2, of_char c)) str"

lemma fold_send: "fold (\<lambda>c. send 2 (of_char c)) str s = s\<lparr>sent := sent s @ chars_sent str\<rparr>"
  by (induction str arbitrary: s) (simp_all add: send_def chars_sent_def)

lemma puts_eq:
  "puts str s = s\<lparr>print_flag := 0, sent := sent s @ chars_sent (takeWhile (\<lambda>c. c \<noteq> CHR 0x00) str @ [CHR 0x0A])\<rparr>"
  by (simp add: puts_def Let_def fold_send send_def chars_sent_def)

lemma exec_loop_output: "exec_loop (chars_sent str @ ss) out = exec_loop ss (out @ str)"
  by (induction str arbitrary: out) (simp_all add: chars_sent_def)

lemma exec_loop_return: "exec_loop (chars_sent str @ [(1, x)]) [] = Some (x mod 2 ^ 32, str)"
  by (simp add: exec_loop_output)

text \<open>The lock of \<^verbatim>\<open>puts\<close> keeps nobody out: the loop ends at once when another core has the flag.\<close>

lemma await_print_passes: "await_print flag \<noteq> 0" "flag \<noteq> 0 \<Longrightarrow> await_print flag = flag"
  by (simp_all add: await_print.simps)

section \<open>Byte strings and table words in memory\<close>

definition holds :: "mem \<Rightarrow> addr \<Rightarrow> u8 list \<Rightarrow> bool" where
  "holds m a bs \<longleftrightarrow> (\<forall>k < length bs. m (a + of_nat k) = Some (bs ! k))"

lemma holds_cong:
  assumes "holds m a bs" "length bs \<le> 2 ^ 64" "\<And>x. x \<in> region a (length bs) \<Longrightarrow> m' x = m x"
  shows "holds m' a bs"
  using assms region_offset by (auto simp: holds_def)

lemma holds_memcpy:
  assumes "memcpy (length bs) m d p = Some m'" "holds m p bs" "length bs \<le> 2 ^ 64"
    "region d (length bs) \<inter> region p (length bs) = {}"
  shows "holds m' d bs"
proof -
  have "m' (d + of_nat k) = Some (bs ! k)" if "k < length bs" for k
    using memcpy_value [OF assms(1,3,4) region_offset [OF that assms(3)]] assms(2) that by (simp add: holds_def)
  then show ?thesis by (simp add: holds_def)
qed

definition words_at :: "(addr \<times> u64) list \<Rightarrow> mem \<Rightarrow> bool" where
  "words_at ws m \<longleftrightarrow> (\<forall>(a, w) \<in> set ws. aligned8 a \<and> read64 m a = Some w)"

lemma words_at_read: "words_at ws m \<Longrightarrow> (a, w) \<in> set ws \<Longrightarrow> read64 m a = Some w"
  by (auto simp: words_at_def)

lemma words_at_cong:
  assumes "words_at ws m" "\<And>a w x. (a, w) \<in> set ws \<Longrightarrow> x \<in> region a 8 \<Longrightarrow> m' x = m x"
  shows "words_at ws m'"
  unfolding words_at_def
proof (intro ballI, clarify)
  fix a w assume aw: "(a, w) \<in> set ws"
  have "read64 m' a = read64 m a" by (rule read_le_cong) (use assms(2) [OF aw] in simp)
  then show "aligned8 a \<and> read64 m' a = Some w" using assms(1) aw by (auto simp: words_at_def)
qed

lemma words_at_write:
  assumes "words_at ws m" "write64 m b v = Some m'" "aligned8 b" "b \<notin> fst ` set ws"
  shows "words_at ws m'"
  unfolding words_at_def
proof (intro ballI, clarify)
  fix a w assume aw: "(a, w) \<in> set ws"
  then have "a \<noteq> b" using assms(4) by force
  moreover have "aligned8 a" "read64 m a = Some w" using assms(1) aw by (auto simp: words_at_def)
  ultimately show "aligned8 a \<and> read64 m' a = Some w" using wm.rd_wr [OF assms(3) _ assms(2), of a] by simp
qed

text \<open>Several entries, one after the other.\<close>

primrec vputs :: "(addr \<times> u64 \<times> u64) list \<Rightarrow> osys \<Rightarrow> osys option" where
  "vputs [] s = Some s"
| "vputs (w # ws) s = do { s \<leftarrow> vput (fst w) (fst (snd w)) (snd (snd w)) s; vputs ws s }"

abbreviation entry_words :: "(addr \<times> u64 \<times> u64) list \<Rightarrow> (addr \<times> u64) list" where
  "entry_words ws \<equiv> map (\<lambda>(p, i, e). (page_entry (straight p) i, e)) ws"

lemma vputs_append: "vputs (xs @ ys) s = do { s \<leftarrow> vputs xs s; vputs ys s }"
  by (induction xs arbitrary: s) auto

lemma for_each_vputs: "for_each (\<lambda>i. vput p (of_nat i) (e i)) is s = vputs (map (\<lambda>i. (p, of_nat i, e i)) is) s"
  by (induction "is" arbitrary: s) auto

lemma vputs_write_all: "vputs ws s = map_option (\<lambda>m. s\<lparr>opm := m\<rparr>) (write_all write64 (opm s) (entry_words ws))"
proof (induction ws arbitrary: s)
  case Nil
  then show ?case by simp
next
  case (Cons w ws)
  obtain p i e where "w = (p, i, e)" by (cases w)
  with Cons show ?case
    by (cases "write64 (opm s) (page_entry (straight p) i) e") (simp_all add: vput_def set_entry_def)
qed

text \<open>Entries of different slots are all there afterwards, and nothing else has changed.\<close>

lemma vputs_run:
  assumes "list_all (\<lambda>(p, i, e). aligned_to 12 (straight p) \<and> unat i < 512) ws"
    "distinct (map (\<lambda>(p, i, e). (straight p, i)) ws)"
    "\<And>p i e. (p, i, e) \<in> set ws \<Longrightarrow> region (straight p) 0x1000 \<subseteq> dom (opm s)"
  obtains m where "vputs ws s = Some (s\<lparr>opm := m\<rparr>)" "words_at (entry_words ws) m" "dom m = dom (opm s)"
    "\<And>x. (\<And>p i e. (p, i, e) \<in> set ws \<Longrightarrow> x \<notin> region (page_entry (straight p) i) 8) \<Longrightarrow> m x = opm s x"
proof -
  have al: "\<forall>w \<in> set (entry_words ws). aligned8 (fst w)"
    using assms(1) entry_aligned8 by (auto simp: list_all_iff page_entry_def)
  have sub: "region (page_entry (straight p) i) 8 \<subseteq> dom (opm s)" if "(p, i, e) \<in> set ws" for p i e
  proof -
    have "unat i < 512" using assms(1) that by (auto simp: list_all_iff)
    then have "unat (8 * i) + 8 \<le> 0x1000" by (simp add: unat_word_ariths)
    then have "region (straight p + 8 * i) 8 \<subseteq> region (straight p) 0x1000" by (rule region_shift)
    then show ?thesis using assms(3) [OF that] by (simp add: page_entry_def)
  qed
  have "\<forall>w \<in> set (entry_words ws). read64 (opm s) (fst w) \<noteq> None"
  proof
    fix w assume "w \<in> set (entry_words ws)"
    then obtain p i e where w: "(p, i, e) \<in> set ws" "w = (page_entry (straight p) i, e)" by auto
    show "read64 (opm s) (fst w) \<noteq> None" using read_le_defined [OF sub [OF w(1)]] w(2) by auto
  qed
  then obtain m where m: "write_all write64 (opm s) (entry_words ws) = Some m"
    using wm.write_all_defined [OF al] by blast
  have slot: "aligned_to 12 (straight p)" "unat i < 512" if "(p, i, e) \<in> set ws" for p i e
    using assms(1) that by (auto simp: list_all_iff)
  have "inj_on (\<lambda>(t, i). page_entry t i) (set (map (\<lambda>(p, i, e). (straight p, i)) ws))"
  proof (rule inj_onI, clarsimp)
    fix p i e q j d
    assume a: "(p, i, e) \<in> set ws" "(q, j, d) \<in> set ws" "page_entry (straight p) i = page_entry (straight q) j"
    show "straight p = straight q \<and> i = j"
      using a(3) entry_eq_iff [OF slot(1) [OF a(1)] slot(1) [OF a(2)] slot(2) [OF a(1)] slot(2) [OF a(2)]]
      by (simp add: page_entry_def)
  qed
  then have "distinct (map (\<lambda>(t, i). page_entry t i) (map (\<lambda>(p, i, e). (straight p, i)) ws))"
    by (intro iffD2 [OF distinct_map] conjI assms(2))
  also have "map (\<lambda>(t, i). page_entry t i) (map (\<lambda>(p, i, e). (straight p, i)) ws) = map fst (entry_words ws)"
    by auto
  finally have d: "distinct (map fst (entry_words ws))" .
  have "words_at (entry_words ws) m"
    unfolding words_at_def
  proof (intro ballI, clarify)
    fix a w assume aw: "(a, w) \<in> set (entry_words ws)"
    show "aligned8 a \<and> read64 m a = Some w"
      using bspec [OF al aw] wm.rd_write_all_distinct [OF al d m aw] by simp
  qed
  moreover have "m x = opm s x" if "\<And>p i e. (p, i, e) \<in> set ws \<Longrightarrow> x \<notin> region (page_entry (straight p) i) 8" for x
    by (rule write_all_frame [OF m]) (use that in auto)
  ultimately show ?thesis using that [of m] m write_all_dom [OF m] by (simp add: vputs_write_all)
qed

end
