(* ===== verification/Sample_Apps.thy ===== *)
theory Sample_Apps
  imports Old_Samples
begin

text \<open>
  \<^verbatim>\<open>src/sample_old/paging/021\<close> to \<^verbatim>\<open>042\<close>: two small applications that are called in turn. The samples
  differ in how an application gets to the addresses it is linked for: both stay in memory (022), it
  is copied there (023), its page is mapped there (024), or it has page tables of its own (041, and
  042 with a further page mapped during some calls). The images are made by the compiler and the
  linker and are parameters; a call runs an entry of an application only if the memory, seen through
  the translation in force, shows its image.
\<close>

section \<open>Applications\<close>

record Context =
  nxt :: addr
  ival :: int

type_synonym entry_code = "Context \<Rightarrow> osys \<Rightarrow> (Context \<times> osys) option"

text \<open>\<^verbatim>\<open>app1.cc\<close> and \<^verbatim>\<open>app2.cc\<close>; the argument is the address of the entry that follows.\<close>

definition entry1 :: "addr \<Rightarrow> entry_code" where
  "entry1 e2 c s = Some (c\<lparr>ival := 1, nxt := e2\<rparr>, s)"

definition entry2 :: entry_code where
  "entry2 c s = Some (c\<lparr>ival := ival c + 1, nxt := 0\<rparr>, s)"

definition entry3 :: "addr \<Rightarrow> entry_code" where
  "entry3 e4 c s = Some (c\<lparr>ival := 9, nxt := e4\<rparr>, s)"

definition entry4 :: entry_code where
  "entry4 c s = Some (c\<lparr>ival := ival c - 1, nxt := 0\<rparr>, s)"

text \<open>The applications of sample 042, two of whose entries fill a buffer on a page of its own.\<close>

definition fill_buf :: "(u64 \<Rightarrow> bool) \<Rightarrow> osys \<Rightarrow> osys option" where
  "fill_buf keep s = for_each (\<lambda>i. vstore8 keep (0xC0001000 + of_nat i) (of_nat i)) [0..<10] s"

definition entry1_042 :: "(u64 \<Rightarrow> bool) \<Rightarrow> addr \<Rightarrow> entry_code" where
  "entry1_042 keep e2 c s = do { s \<leftarrow> fill_buf keep s; Some (c\<lparr>ival := 1, nxt := e2\<rparr>, s) }"

definition entry4_042 :: "(u64 \<Rightarrow> bool) \<Rightarrow> entry_code" where
  "entry4_042 keep c s = do { s \<leftarrow> fill_buf keep s; Some (c\<lparr>ival := ival c - 1, nxt := 0\<rparr>, s) }"

text \<open>
  What the build makes of an application: its bytes, the place of its second entry in them, and
  where they are in the friend's binary. The first entry is at the beginning (\<^verbatim>\<open>.text.entry\<close>).
\<close>

record binary =
  bytes :: "u8 list"
  second :: addr
  start_at :: addr

abbreviation image_size :: "binary \<Rightarrow> nat" where "image_size b \<equiv> length (bytes b)"

text \<open>An application linked for an address, with the code of its two entries.\<close>

record app =
  link_at :: addr
  bin :: binary
  first_entry :: entry_code
  second_entry :: entry_code

definition app1 :: "addr \<Rightarrow> binary \<Rightarrow> app" where
  "app1 l b = \<lparr>link_at = l, bin = b, first_entry = entry1 (l + second b), second_entry = entry2\<rparr>"

definition app2 :: "addr \<Rightarrow> binary \<Rightarrow> app" where
  "app2 l b = \<lparr>link_at = l, bin = b, first_entry = entry3 (l + second b), second_entry = entry4\<rparr>"

definition app1_042 :: "(u64 \<Rightarrow> bool) \<Rightarrow> addr \<Rightarrow> binary \<Rightarrow> app" where
  "app1_042 keep l b = \<lparr>link_at = l, bin = b, first_entry = entry1_042 keep (l + second b), second_entry = entry2\<rparr>"

definition app2_042 :: "(u64 \<Rightarrow> bool) \<Rightarrow> addr \<Rightarrow> binary \<Rightarrow> app" where
  "app2_042 keep l b = \<lparr>link_at = l, bin = b, first_entry = entry3 (l + second b), second_entry = entry4_042 keep\<rparr>"

definition in_memory :: "osys \<Rightarrow> app \<Rightarrow> bool" where
  "in_memory s p = list_all (\<lambda>k. case addr_of s (link_at p + of_nat k) of None \<Rightarrow> False
     | Some a \<Rightarrow> opm s a = Some (bytes (bin p) ! k)) [0..<image_size (bin p)]"

text \<open>The call of \<^verbatim>\<open>c.next\<close>.\<close>

definition call_next :: "(u64 \<Rightarrow> bool) \<Rightarrow> app list \<Rightarrow> entry_code" where
  "call_next keep ps c s =
     (case find (\<lambda>p. nxt c \<in> {link_at p, link_at p + second (bin p)} \<and> in_memory s p) ps of
        None \<Rightarrow> None
      | Some p \<Rightarrow> (if nxt c = link_at p then first_entry p else second_entry p) c (remember keep (nxt c) s))"

section \<open>The programs\<close>

text \<open>One call with what is done before and after it; a wrong value ends the program.\<close>

definition app_round :: "entry_code \<Rightarrow> (osys \<Rightarrow> osys option) \<Rightarrow> (osys \<Rightarrow> osys option) \<Rightarrow> int \<Rightarrow>
    Context \<Rightarrow> osys \<Rightarrow> (osys + Context \<times> osys) option" where
  "app_round invoke bef aft expected c s = do {
     s \<leftarrow> bef s;
     (c, s) \<leftarrow> invoke c s;
     s \<leftarrow> aft s;
     let s = show_i (ival c) s;
     Some (if ival c \<noteq> expected then Inl (return_value 1 s) else Inr (c, s)) }"

definition and_then :: "(osys + 'a) option \<Rightarrow> ('a \<Rightarrow> osys option) \<Rightarrow> osys option" where
  "and_then r k = (case r of None \<Rightarrow> None | Some (Inl s) \<Rightarrow> Some s | Some (Inr x) \<Rightarrow> k x)"

text \<open>The four calls that the samples with two applications make.\<close>

definition two_apps :: "entry_code \<Rightarrow> (nat \<Rightarrow> osys \<Rightarrow> osys option) \<Rightarrow> (nat \<Rightarrow> osys \<Rightarrow> osys option) \<Rightarrow>
    addr \<Rightarrow> addr \<Rightarrow> osys \<Rightarrow> osys option" where
  "two_apps invoke bef aft l1 l2 s =
     and_then (app_round invoke (bef 0) (aft 0) 1 \<lparr>nxt = l1, ival = 0\<rparr> s) (\<lambda>(c1, s).
     and_then (app_round invoke (bef 1) (aft 1) 9 \<lparr>nxt = l2, ival = 0\<rparr> s) (\<lambda>(c2, s).
     and_then (app_round invoke (bef 2) (aft 2) 2 c1 s) (\<lambda>(c1, s).
     and_then (app_round invoke (bef 3) (aft 3) 8 c2 s) (\<lambda>(c2, s).
     Some (return_value 0 (puts ''bye!'' s))))))"

definition sample_021 :: "(u64 \<Rightarrow> bool) \<Rightarrow> binary \<Rightarrow> osys \<Rightarrow> osys option" where
  "sample_021 keep b1 s = do {
     let s = puts ''hello!'' s;
     s \<leftarrow> vcopy 0x400000 (start_at b1) (image_size b1) s;
     let invoke = call_next keep [app1 0x400000 b1];
     and_then (app_round invoke Some Some 1 \<lparr>nxt = 0x400000, ival = 0\<rparr> s) (\<lambda>(c1, s).
     and_then (app_round invoke Some Some 2 c1 s) (\<lambda>(c1, s).
     Some (return_value 0 (puts ''bye!'' s)))) }"

definition sample_022 :: "(u64 \<Rightarrow> bool) \<Rightarrow> binary \<Rightarrow> binary \<Rightarrow> osys \<Rightarrow> osys option" where
  "sample_022 keep b1 b2 s = do {
     let s = puts ''hello!'' s;
     s \<leftarrow> vcopy 0x400000 (start_at b1) (image_size b1) s;
     s \<leftarrow> vcopy 0x500000 (start_at b2) (image_size b2) s;
     two_apps (call_next keep [app1 0x400000 b1, app2 0x500000 b2]) (\<lambda>_. Some) (\<lambda>_. Some) 0x400000 0x500000 s }"

text \<open>Samples 023 to 042 put the images at 0x500000 and 0x600000 first.\<close>

definition copy_images :: "binary \<Rightarrow> binary \<Rightarrow> osys \<Rightarrow> osys option" where
  "copy_images b1 b2 s = do {
     s \<leftarrow> vcopy 0x500000 (start_at b1) (image_size b1) s;
     vcopy 0x600000 (start_at b2) (image_size b2) s }"

definition copy_in :: "binary \<Rightarrow> binary \<Rightarrow> nat \<Rightarrow> osys \<Rightarrow> osys option" where
  "copy_in b1 b2 k = (if even k then vcopy 0x400000 0x500000 (image_size b1) else vcopy 0x400000 0x600000 (image_size b2))"

definition copy_out :: "binary \<Rightarrow> binary \<Rightarrow> nat \<Rightarrow> osys \<Rightarrow> osys option" where
  "copy_out b1 b2 k = (if even k then vcopy 0x500000 0x400000 (image_size b1) else vcopy 0x600000 0x400000 (image_size b2))"

definition sample_023 :: "(u64 \<Rightarrow> bool) \<Rightarrow> binary \<Rightarrow> binary \<Rightarrow> osys \<Rightarrow> osys option" where
  "sample_023 keep b1 b2 s = do {
     let s = puts ''hello!'' s;
     s \<leftarrow> copy_images b1 b2 s;
     two_apps (call_next keep [app1 0x400000 b1, app2 0x400000 b2]) (copy_in b1 b2) (copy_out b1 b2)
       0x400000 0x400000 s }"

text \<open>The tables of sample 024: the straight mapping below 1GB and one page table for 0xC0000000.\<close>

definition base_tables :: "osys \<Rightarrow> osys option" where
  "base_tables s = do {
     s \<leftarrow> vclear 0x310000 0x5000 s;
     let pml4t = 0x310000;
     let pdpt = 0x311000;
     let pd1 = 0x312000;
     let pd2 = 0x313000;
     let pt1 = 0x314000;
     s \<leftarrow> vput pml4t 0 ((pdpt + 0x80000000) OR rwu) s;
     s \<leftarrow> vput pdpt 0 ((pd1 + 0x80000000) OR rwu) s;
     s \<leftarrow> vput pdpt 3 ((pd2 + 0x80000000) OR rwu) s;
     s \<leftarrow> vput pd2 0 ((pt1 + 0x80000000) OR rwu) s;
     for_each (\<lambda>i. vput pd1 (of_nat i) ((0x80000000 + 0x200000 * of_nat i) OR rwu OR push_bit 7 1)) [0..<512] s }"

definition map_in :: "nat \<Rightarrow> osys \<Rightarrow> osys option" where
  "map_in k s = do {
     s \<leftarrow> vput 0x314000 0 ((if even k then 0x80500000 else 0x80600000) OR rwu) s;
     Some (flush_page 0xC0000000 s) }"

definition sample_024 :: "(u64 \<Rightarrow> bool) \<Rightarrow> binary \<Rightarrow> binary \<Rightarrow> osys \<Rightarrow> osys option" where
  "sample_024 keep b1 b2 s = do {
     let s = puts ''hello!'' s;
     s \<leftarrow> base_tables s;
     let s = load_cr3 (0x310000 + 0x80000000) s;
     s \<leftarrow> copy_images b1 b2 s;
     two_apps (call_next keep [app1 0xC0000000 b1, app2 0xC0000000 b2]) map_in (\<lambda>_. Some)
       0xC0000000 0xC0000000 s }"

definition create_pagetable :: "addr \<Rightarrow> addr \<Rightarrow> addr \<Rightarrow> osys \<Rightarrow> osys option" where
  "create_pagetable page_structures pd_for_baremetal page_for_app s = do {
     let pml4t = page_structures;
     let pdpt = page_structures + 0x1000;
     let pd = page_structures + 0x2000;
     let pt = page_structures + 0x3000;
     s \<leftarrow> vput pml4t 0 ((pdpt + 0x80000000) OR rwu) s;
     s \<leftarrow> vput pdpt 0 ((pd_for_baremetal + 0x80000000) OR rwu) s;
     s \<leftarrow> vput pdpt 3 ((pd + 0x80000000) OR rwu) s;
     s \<leftarrow> vput pd 0 ((pt + 0x80000000) OR rwu) s;
     vput pt 0 (page_for_app OR rwu) s }"

text \<open>Samples 041 and 042: two sets of tables that share the directory of the first GB.\<close>

definition app_tables :: "osys \<Rightarrow> osys option" where
  "app_tables s = do {
     s \<leftarrow> vclear 0x310000 0x9000 s;
     let page_structures_for_app1 = 0x310000;
     let page_structures_for_app2 = 0x314000;
     let pd_for_baremetal = 0x318000;
     s \<leftarrow> for_each (\<lambda>i. vput pd_for_baremetal (of_nat i)
       ((0x80000000 + 0x200000 * of_nat i) OR rwu OR push_bit 7 1 OR push_bit 8 1)) [0..<512] s;
     s \<leftarrow> create_pagetable page_structures_for_app1 pd_for_baremetal 0x80500000 s;
     create_pagetable page_structures_for_app2 pd_for_baremetal 0x80600000 s }"

definition app_cr3 :: "nat \<Rightarrow> addr" where
  "app_cr3 k = (if even k then 0x310000 else 0x314000) + 0x80000000"

definition sample_041 :: "(u64 \<Rightarrow> bool) \<Rightarrow> binary \<Rightarrow> binary \<Rightarrow> osys \<Rightarrow> osys option" where
  "sample_041 keep b1 b2 s = do {
     let s = puts ''hello!'' s;
     s \<leftarrow> app_tables s;
     s \<leftarrow> copy_images b1 b2 s;
     two_apps (call_next keep [app1 0xC0000000 b1, app2 0xC0000000 b2]) (\<lambda>k s. Some (load_cr3 (app_cr3 k) s)) (\<lambda>_. Some)
       0xC0000000 0xC0000000 s }"

definition map_page :: "addr \<Rightarrow> osys \<Rightarrow> osys option" where
  "map_page page_structures s = do {
     s \<leftarrow> vput (page_structures + 0x3000) 1 (0x80700000 OR rwu) s;
     Some (flush_page 0xC0000000 s) }"

definition unmap_page :: "addr \<Rightarrow> osys \<Rightarrow> osys option" where
  "unmap_page page_structures s = do {
     s \<leftarrow> vput (page_structures + 0x3000) 1 0 s;
     Some (flush_page 0xC0000000 s) }"

definition enter_042 :: "nat \<Rightarrow> osys \<Rightarrow> osys option" where
  "enter_042 k s = (let s = load_cr3 (app_cr3 k) s in
     if k = 0 then map_page 0x310000 s else if k = 3 then map_page 0x314000 s else Some s)"

definition leave_042 :: "nat \<Rightarrow> osys \<Rightarrow> osys option" where
  "leave_042 k s = (if k = 0 then unmap_page 0x310000 s else if k = 3 then unmap_page 0x314000 s else Some s)"

definition sample_042 :: "(u64 \<Rightarrow> bool) \<Rightarrow> binary \<Rightarrow> binary \<Rightarrow> osys \<Rightarrow> osys option" where
  "sample_042 keep b1 b2 s = do {
     let s = puts ''hello!'' s;
     s \<leftarrow> app_tables s;
     s \<leftarrow> copy_images b1 b2 s;
     two_apps (call_next keep [app1_042 keep 0xC0000000 b1, app2_042 keep 0xC0000000 b2]) enter_042 leave_042
       0xC0000000 0xC0000000 s }"

section \<open>Switching between applications\<close>

text \<open>
  What a way of switching promises for the four calls: with what is done before and after it, the
  call takes the context on, the invariant holds again, and nothing is sent.
\<close>

definition switches :: "entry_code \<Rightarrow> (osys \<Rightarrow> osys option) \<Rightarrow> (osys \<Rightarrow> osys option) \<Rightarrow> (osys \<Rightarrow> bool) \<Rightarrow>
    osys \<Rightarrow> Context \<Rightarrow> Context \<Rightarrow> bool" where
  "switches invoke bef aft good s c c' \<longleftrightarrow> (\<exists>s1 s2 s3. bef s = Some s1 \<and> invoke c s1 = Some (c', s2) \<and>
     aft s2 = Some s3 \<and> good s3 \<and> sent s3 = sent s)"

lemma digit_chars [simp]:
  "char_of (49 :: int) = CHR ''1''" "char_of (50 :: int) = CHR ''2''" "char_of (56 :: int) = CHR ''8''"
  "char_of (57 :: int) = CHR ''9''"
  by code_simp+

locale app_switch =
  fixes invoke :: entry_code
    and bef aft :: "nat \<Rightarrow> osys \<Rightarrow> osys option"
    and good :: "osys \<Rightarrow> bool"
    and l1 l2 e2 e4 :: addr
  assumes round0: "good s \<Longrightarrow> switches invoke (bef 0) (aft 0) good s \<lparr>nxt = l1, ival = 0\<rparr> \<lparr>nxt = e2, ival = 1\<rparr>"
    and round1: "good s \<Longrightarrow> switches invoke (bef 1) (aft 1) good s \<lparr>nxt = l2, ival = 0\<rparr> \<lparr>nxt = e4, ival = 9\<rparr>"
    and round2: "good s \<Longrightarrow> switches invoke (bef 2) (aft 2) good s \<lparr>nxt = e2, ival = 1\<rparr> \<lparr>nxt = 0, ival = 2\<rparr>"
    and round3: "good s \<Longrightarrow> switches invoke (bef 3) (aft 3) good s \<lparr>nxt = e4, ival = 9\<rparr> \<lparr>nxt = 0, ival = 8\<rparr>"
    and good_output: "good s \<Longrightarrow> good (s\<lparr>print_flag := f, sent := ss\<rparr>)"
begin

lemma one_round:
  assumes "good s" "switches invoke (bef k) (aft k) good s c c'"
  shows "\<exists>s'. app_round invoke (bef k) (aft k) (ival c') c s = Some (Inr (c', s')) \<and> good s' \<and>
    sent s' = sent s @ chars_sent (takeWhile (\<lambda>c. c \<noteq> CHR 0x00) (''i='' @ [char_of (of_char (CHR ''0'') + ival c')]) @ [CHR 0x0A])"
proof -
  obtain s1 s2 s3 where r: "bef k s = Some s1" "invoke c s1 = Some (c', s2)" "aft k s2 = Some s3" "good s3" "sent s3 = sent s"
    using assms(2) by (auto simp: switches_def)
  then show ?thesis using good_output [OF r(4)] by (simp add: app_round_def show_i_def puts_eq)
qed

lemma runs:
  assumes "good s"
  shows "\<exists>s'. two_apps invoke bef aft l1 l2 s = Some s' \<and> good s' \<and>
    sent s' = sent s @ chars_sent (concat (map (\<lambda>l. l @ [CHR 0x0A]) [''i=1'', ''i=9'', ''i=2'', ''i=8'', ''bye!''])) @ [(1, 0)]"
proof -
  obtain s1 where s1: "app_round invoke (bef 0) (aft 0) 1 \<lparr>nxt = l1, ival = 0\<rparr> s = Some (Inr (\<lparr>nxt = e2, ival = 1\<rparr>, s1))"
    "good s1" "sent s1 = sent s @ chars_sent (''i=1'' @ [CHR 0x0A])"
    using one_round [OF assms round0 [OF assms]] by auto
  obtain s2 where s2: "app_round invoke (bef 1) (aft 1) 9 \<lparr>nxt = l2, ival = 0\<rparr> s1 = Some (Inr (\<lparr>nxt = e4, ival = 9\<rparr>, s2))"
    "good s2" "sent s2 = sent s1 @ chars_sent (''i=9'' @ [CHR 0x0A])"
    using one_round [OF s1(2) round1 [OF s1(2)]] by auto
  obtain s3 where s3: "app_round invoke (bef 2) (aft 2) 2 \<lparr>nxt = e2, ival = 1\<rparr> s2 = Some (Inr (\<lparr>nxt = 0, ival = 2\<rparr>, s3))"
    "good s3" "sent s3 = sent s2 @ chars_sent (''i=2'' @ [CHR 0x0A])"
    using one_round [OF s2(2) round2 [OF s2(2)]] by auto
  obtain s4 where s4: "app_round invoke (bef 3) (aft 3) 8 \<lparr>nxt = e4, ival = 9\<rparr> s3 = Some (Inr (\<lparr>nxt = 0, ival = 8\<rparr>, s4))"
    "good s4" "sent s4 = sent s3 @ chars_sent (''i=8'' @ [CHR 0x0A])"
    using one_round [OF s3(2) round3 [OF s3(2)]] by auto
  show ?thesis
    using good_output [OF s4(2)]
    by (simp add: two_apps_def and_then_def s1 s2 s3 s4 return_value_def send_def puts_eq chars_sent_def del: One_nat_def)
qed

end

section \<open>Calls\<close>

text \<open>
  What is assumed of the two binaries: each fits on a page and has its second entry inside, they
  differ in a byte, and they lie in the friend's binary below the tables.
\<close>

definition binary_ok :: "binary \<Rightarrow> bool" where
  "binary_ok b \<longleftrightarrow> 0 < unat (second b) \<and> unat (second b) < image_size b \<and> image_size b \<le> 0x1000 \<and>
     unat (start_at b) + image_size b \<le> 0x310000"

definition binaries_ok :: "binary \<Rightarrow> binary \<Rightarrow> bool" where
  "binaries_ok b1 b2 \<longleftrightarrow> binary_ok b1 \<and> binary_ok b2 \<and>
     (\<exists>k < min (image_size b1) (image_size b2). bytes b1 ! k \<noteq> bytes b2 ! k)"

lemma call_next_first:
  "nxt c \<in> {link_at p, link_at p + second (bin p)} \<Longrightarrow> in_memory s p \<Longrightarrow>
   call_next keep (p # ps) c s = (if nxt c = link_at p then first_entry p else second_entry p) c (remember keep (nxt c) s)"
  by (simp add: call_next_def)

lemma call_next_second:
  "\<not> (nxt c \<in> {link_at q, link_at q + second (bin q)} \<and> in_memory s q) \<Longrightarrow>
   call_next keep (q # ps) c s = call_next keep ps c s"
  unfolding call_next_def by (simp only: find.simps if_False)

lemma second_entry_apart: "binary_ok b \<Longrightarrow> l + second b \<noteq> l" for l :: addr
  by (auto simp: binary_ok_def)

text \<open>A page of addresses that leads to a frame shows the image that the frame holds.\<close>

definition page_shows :: "osys \<Rightarrow> addr \<Rightarrow> addr \<Rightarrow> bool" where
  "page_shows s v f \<longleftrightarrow> (\<forall>k < 0x1000. addr_of s (v + of_nat k) = Some (f + of_nat k))"

lemma in_memory_page:
  assumes "page_shows s (link_at p) f" "image_size (bin p) \<le> 0x1000"
  shows "in_memory s p \<longleftrightarrow> holds (opm s) f (bytes (bin p))"
  using assms by (auto simp: in_memory_def page_shows_def holds_def list_all_iff)

lemma holds_differ:
  assumes "binaries_ok b1 b2" "holds m f (bytes b1)"
  shows "\<not> holds m f (bytes b2)"
  using assms by (auto simp: binaries_ok_def holds_def)

lemma straight_page:
  assumes "unat v + 0x1000 \<le> 0x40000000"
  shows "page_shows s v (straight v)"
proof -
  have "v + of_nat k < 0x40000000" if "k < 0x1000" for k
    using assms that by (simp add: word_less_nat_alt unat_word_ariths unat_of_nat take_bit_nat_eq_self)
  then show ?thesis by (simp add: page_shows_def addr_of_def straight_def algebra_simps)
qed

lemma remember_low: "v < 0x40000000 \<Longrightarrow> remember keep v s = s"
  by (auto simp: remember_def addr_of_def)

lemma remember_fields [simp]:
  "opm (remember keep v s) = opm s" "sent (remember keep v s) = sent s" "ocr3 (remember keep v s) = ocr3 s"
  by (simp_all add: remember_def split: option.splits)

section \<open>Both in memory\<close>

definition good_022 :: "binary \<Rightarrow> binary \<Rightarrow> osys \<Rightarrow> bool" where
  "good_022 b1 b2 s \<longleftrightarrow> binaries_ok b1 b2 \<and> holds (opm s) 0x80400000 (bytes b1) \<and> holds (opm s) 0x80500000 (bytes b2)"

lemma low_second:
  assumes "binary_ok b"
  shows "0x500000 \<noteq> 0x400000 + second b" "binary_ok c \<Longrightarrow> 0x500000 + second c \<noteq> 0x400000 + second b"
    "0x500000 + second b \<noteq> 0x400000"
proof -
  have u: "unat (0x400000 + second d) = 0x400000 + unat (second d)" "unat (0x500000 + second d) = 0x500000 + unat (second d)"
    "unat (second d) < 0x1000" if "binary_ok d" for d
    using that by (simp_all add: binary_ok_def unat_word_ariths)
  show "0x500000 \<noteq> 0x400000 + second b" "0x500000 + second b \<noteq> 0x400000"
    using u [OF assms] by (auto simp: word_unat_eq_iff)
  show "0x500000 + second c \<noteq> 0x400000 + second b" if "binary_ok c"
    using u [OF assms] u [OF that] by (auto simp: word_unat_eq_iff)
qed

lemmas app_defs = app1_def app2_def app1_042_def app2_042_def entry1_def entry2_def entry3_def entry4_def

lemma resident_calls:
  assumes "good_022 b1 b2 s"
  shows "call_next keep [app1 0x400000 b1, app2 0x500000 b2] \<lparr>nxt = 0x400000, ival = 0\<rparr> s =
      Some (\<lparr>nxt = 0x400000 + second b1, ival = 1\<rparr>, s)"
    "call_next keep [app1 0x400000 b1, app2 0x500000 b2] \<lparr>nxt = 0x500000, ival = 0\<rparr> s =
      Some (\<lparr>nxt = 0x500000 + second b2, ival = 9\<rparr>, s)"
    "call_next keep [app1 0x400000 b1, app2 0x500000 b2] \<lparr>nxt = 0x400000 + second b1, ival = 1\<rparr> s =
      Some (\<lparr>nxt = 0, ival = 2\<rparr>, s)"
    "call_next keep [app1 0x400000 b1, app2 0x500000 b2] \<lparr>nxt = 0x500000 + second b2, ival = 9\<rparr> s =
      Some (\<lparr>nxt = 0, ival = 8\<rparr>, s)"
proof -
  have ok: "binary_ok b1" "binary_ok b2" using assms by (simp_all add: good_022_def binaries_ok_def)
  have p: "page_shows s 0x400000 0x80400000" "page_shows s 0x500000 0x80500000"
    using straight_page [of "0x400000" s] straight_page [of "0x500000" s] by (simp_all add: straight_def)
  have m: "in_memory s (app1 0x400000 b1)" "in_memory s (app2 0x500000 b2)"
    using assms ok in_memory_page [of s "app1 0x400000 b1"] in_memory_page [of s "app2 0x500000 b2"] p
    by (simp_all add: good_022_def app1_def app2_def binary_ok_def)
  have low: "0x400000 + second b < 0x40000000" "0x500000 + second b < 0x40000000" if "binary_ok b" for b
    using that by (simp_all add: binary_ok_def word_less_nat_alt unat_word_ariths)
  show "call_next keep [app1 0x400000 b1, app2 0x500000 b2] \<lparr>nxt = 0x400000, ival = 0\<rparr> s =
      Some (\<lparr>nxt = 0x400000 + second b1, ival = 1\<rparr>, s)"
    by (subst call_next_first [OF _ m(1)]) (simp_all add: app_defs remember_low)
  show "call_next keep [app1 0x400000 b1, app2 0x500000 b2] \<lparr>nxt = 0x400000 + second b1, ival = 1\<rparr> s =
      Some (\<lparr>nxt = 0, ival = 2\<rparr>, s)"
    using low ok second_entry_apart [OF ok(1)]
    by (subst call_next_first [OF _ m(1)]) (simp_all add: app_defs remember_low)
  show "call_next keep [app1 0x400000 b1, app2 0x500000 b2] \<lparr>nxt = 0x500000, ival = 0\<rparr> s =
      Some (\<lparr>nxt = 0x500000 + second b2, ival = 9\<rparr>, s)"
    using low_second [OF ok(1)]
    by (subst call_next_second, simp add: app1_def, subst call_next_first [OF _ m(2)]) (simp_all add: app_defs remember_low)
  show "call_next keep [app1 0x400000 b1, app2 0x500000 b2] \<lparr>nxt = 0x500000 + second b2, ival = 9\<rparr> s =
      Some (\<lparr>nxt = 0, ival = 8\<rparr>, s)"
    using low ok second_entry_apart [OF ok(2)] low_second [OF ok(1)] low_second [OF ok(2)]
    by (subst call_next_second, simp add: app1_def, subst call_next_first [OF _ m(2)]) (simp_all add: app_defs remember_low)
qed

interpretation resident: app_switch "call_next keep [app1 0x400000 b1, app2 0x500000 b2]" "\<lambda>_. Some" "\<lambda>_. Some"
    "good_022 b1 b2" "0x400000" "0x500000" "0x400000 + second b1" "0x500000 + second b2" for keep b1 b2
  by unfold_locales (simp_all add: switches_def resident_calls, simp add: good_022_def)

section \<open>Copied to one place\<close>

text \<open>Two applications for the same addresses: the image that the frame holds decides.\<close>

lemma shared_call:
  assumes ok: "binaries_ok (bin p) (bin q)" and l: "link_at p = l" "link_at q = l" and sh: "page_shows s l f"
  shows "holds (opm s) f (bytes (bin p)) \<Longrightarrow> nxt c \<in> {l, l + second (bin p)} \<Longrightarrow>
      call_next keep [p, q] c s = (if nxt c = l then first_entry p else second_entry p) c (remember keep (nxt c) s)"
    "holds (opm s) f (bytes (bin q)) \<Longrightarrow> nxt c \<in> {l, l + second (bin q)} \<Longrightarrow>
      call_next keep [p, q] c s = (if nxt c = l then first_entry q else second_entry q) c (remember keep (nxt c) s)"
proof -
  have b: "image_size (bin p) \<le> 0x1000" "image_size (bin q) \<le> 0x1000" using ok by (simp_all add: binaries_ok_def binary_ok_def)
  have m: "in_memory s p \<longleftrightarrow> holds (opm s) f (bytes (bin p))" "in_memory s q \<longleftrightarrow> holds (opm s) f (bytes (bin q))"
    using in_memory_page [of s p f] in_memory_page [of s q f] b l sh by simp_all
  show "call_next keep [p, q] c s = (if nxt c = l then first_entry p else second_entry p) c (remember keep (nxt c) s)"
    if "holds (opm s) f (bytes (bin p))" "nxt c \<in> {l, l + second (bin p)}"
    using call_next_first [of c p s keep "[q]"] that m l by simp
  show "call_next keep [p, q] c s = (if nxt c = l then first_entry q else second_entry q) c (remember keep (nxt c) s)"
    if "holds (opm s) f (bytes (bin q))" "nxt c \<in> {l, l + second (bin q)}"
  proof -
    have "\<not> in_memory s p" using that(1) holds_differ [OF ok] m by blast
    then have "call_next keep [p, q] c s = call_next keep [q] c s" by (intro call_next_second) simp
    then show ?thesis using call_next_first [of c q s keep "[]"] that m l by simp
  qed
qed

lemma vcopy_run:
  assumes "region (straight d) n \<subseteq> dom (opm s)" "region (straight p) n \<subseteq> dom (opm s)"
  obtains m where "vcopy d p n s = Some (s\<lparr>opm := m\<rparr>)" "memcpy n (opm s) (straight d) (straight p) = Some m"
    "dom m = dom (opm s)"
proof -
  obtain m where "memcpy n (opm s) (straight d) (straight p) = Some m" using memcpy_defined [OF assms] by blast
  then show ?thesis using that [of m] memcpy_dom by (simp add: vcopy_def)
qed

text \<open>The three places of the images do not overlap.\<close>

definition places :: "addr set" where
  "places = {0x80400000, 0x80500000, 0x80600000}"

lemma places_disjoint:
  assumes "a \<in> places" "b \<in> places" "a \<noteq> b" "n \<le> 0x1000" "k \<le> 0x1000"
  shows "region a n \<inter> region b k = {}"
proof -
  have *: "region a n \<inter> region b k = {}" if "unat a + 0x1000 \<le> unat b" "unat b + 0x1000 \<le> 2 ^ 64" "n \<le> 0x1000" "k \<le> 0x1000"
    for a b :: addr and n k using that by (intro region_disjoint) simp_all
  have "unat a + 0x1000 \<le> unat b \<or> unat b + 0x1000 \<le> unat a" "unat b + 0x1000 \<le> 2 ^ 64" "unat a + 0x1000 \<le> 2 ^ 64"
    using assms(1-3) by (auto simp: places_def)
  then show ?thesis using * [of a b n k] * [of b a k n] assms(4,5) by blast
qed

text \<open>A copy between two places leaves the image at both and the third as it was.\<close>

lemma place_copied:
  assumes m: "memcpy (image_size b) m0 d p = Some m" and h: "holds m0 p (bytes b)" and b: "image_size b \<le> 0x1000"
    and pl: "d \<in> places" "p \<in> places" "d \<noteq> p"
  shows "holds m d (bytes b)" "q \<in> places \<Longrightarrow> q \<noteq> d \<Longrightarrow> length bs \<le> 0x1000 \<Longrightarrow> holds m0 q bs \<Longrightarrow> holds m q bs"
proof -
  show "holds m d (bytes b)" using holds_memcpy [OF m h] places_disjoint [OF pl b b] b by simp
  show "holds m q bs" if "q \<in> places" "q \<noteq> d" "length bs \<le> 0x1000" "holds m0 q bs"
  proof (rule holds_cong [OF that(4)])
    show "m x = m0 x" if x: "x \<in> region q (length bs)" for x
      using memcpy_frame [OF m, of x] places_disjoint [OF \<open>q \<in> places\<close> pl(1) \<open>q \<noteq> d\<close> \<open>length bs \<le> 0x1000\<close> b] x by blast
  qed (use that in simp)
qed

definition good_023 :: "binary \<Rightarrow> binary \<Rightarrow> osys \<Rightarrow> bool" where
  "good_023 b1 b2 s \<longleftrightarrow> binaries_ok b1 b2 \<and> region 0x80400000 0x300000 \<subseteq> dom (opm s) \<and>
     holds (opm s) 0x80500000 (bytes b1) \<and> holds (opm s) 0x80600000 (bytes b2)"

lemma place_mapped:
  assumes "region 0x80400000 0x300000 \<subseteq> dom m" "a \<in> places" "n \<le> 0x1000"
  shows "region a n \<subseteq> dom m"
proof -
  have "region a n \<subseteq> region 0x80400000 0x300000" using assms(2,3) by (intro region_subset) (auto simp: places_def)
  then show ?thesis using assms(1) by blast
qed

text \<open>\<open>b\<close> and \<open>p\<close> stand for the application whose turn it is, \<open>o\<close> and \<open>q\<close> for the other one.\<close>

lemma copied_round:
  assumes dom: "region 0x80400000 0x300000 \<subseteq> dom (opm s)" and sz: "image_size b \<le> 0x1000" "image_size d \<le> 0x1000"
    and pl: "(v, w) \<in> {(0x500000, 0x600000), (0x600000, 0x500000)}"
    and h: "holds (opm s) (straight v) (bytes b)" "holds (opm s) (straight w) (bytes d)"
  obtains s1 s2 where "vcopy 0x400000 v (image_size b) s = Some s1" "holds (opm s1) 0x80400000 (bytes b)"
    "vcopy v 0x400000 (image_size b) s1 = Some s2" "holds (opm s2) (straight v) (bytes b)"
    "holds (opm s2) (straight w) (bytes d)" "dom (opm s2) = dom (opm s)" "sent s1 = sent s" "sent s2 = sent s"
proof -
  have st: "straight 0x400000 = 0x80400000" "straight 0x400000 \<in> places" "straight v \<in> places" "straight w \<in> places"
    "straight v \<noteq> straight w" "straight 0x400000 \<noteq> straight v" "straight 0x400000 \<noteq> straight w"
    using pl by (auto simp: straight_def places_def)
  obtain m1 where m1: "vcopy 0x400000 v (image_size b) s = Some (s\<lparr>opm := m1\<rparr>)"
    "memcpy (image_size b) (opm s) (straight 0x400000) (straight v) = Some m1" "dom m1 = dom (opm s)"
    using vcopy_run place_mapped [OF dom] st sz by metis
  note c1 = place_copied [OF m1(2) h(1) sz(1) st(2,3,6)]
  obtain m2 where m2: "vcopy v 0x400000 (image_size b) (s\<lparr>opm := m1\<rparr>) = Some (s\<lparr>opm := m2\<rparr>)"
    "memcpy (image_size b) m1 (straight v) (straight 0x400000) = Some m2" "dom m2 = dom m1"
  proof (rule vcopy_run [of v "image_size b" "s\<lparr>opm := m1\<rparr>" "0x400000"])
    show "region (straight v) (image_size b) \<subseteq> dom (opm (s\<lparr>opm := m1\<rparr>))" "region (straight 0x400000) (image_size b) \<subseteq> dom (opm (s\<lparr>opm := m1\<rparr>))"
      using place_mapped [OF dom _ sz(1)] st m1(3) by simp_all
  qed (use that in simp)
  note c2 = place_copied [OF m2(2) c1(1) sz(1) st(3,2)]
  show ?thesis
    using that [of "s\<lparr>opm := m1\<rparr>" "s\<lparr>opm := m2\<rparr>"] m1 m2 c1(1) c2(1) st
      c2(2) [of "straight w" "bytes d"] c1(2) [of "straight w" "bytes d"] h sz by auto
qed

lemma copied_switches:
  assumes g: "good_023 b1 b2 s"
    and n: "nxt c = 0x400000 \<or> nxt c = 0x400000 + second (if even k then b1 else b2)"
    and e: "\<And>s. (if nxt c = 0x400000 then first_entry (if even k then app1 0x400000 b1 else app2 0x400000 b2)
        else second_entry (if even k then app1 0x400000 b1 else app2 0x400000 b2)) c s = Some (c', s)"
  shows "switches (call_next keep [app1 0x400000 b1, app2 0x400000 b2]) (copy_in b1 b2 k) (copy_out b1 b2 k)
    (good_023 b1 b2) s c c'"
proof -
  let ?p = "app1 0x400000 b1" and ?q = "app2 0x400000 b2"
  have ok: "binaries_ok b1 b2" and sz: "image_size b1 \<le> 0x1000" "image_size b2 \<le> 0x1000"
    and dom: "region 0x80400000 0x300000 \<subseteq> dom (opm s)"
    and h: "holds (opm s) (straight 0x500000) (bytes b1)" "holds (opm s) (straight 0x600000) (bytes b2)"
    using g by (simp_all add: good_023_def binaries_ok_def binary_ok_def straight_def)
  have r: "remember keep (nxt c) s = s" for s
  proof (rule remember_low)
    have "unat (second (if even k then b1 else b2)) < 0x1000" using ok by (simp add: binaries_ok_def binary_ok_def)
    then show "nxt c < 0x40000000" using n by (auto simp: word_less_nat_alt unat_word_ariths)
  qed
  have p: "page_shows s 0x400000 0x80400000" for s using straight_page [of "0x400000" s] by (simp add: straight_def)
  have l: "link_at ?p = 0x400000" "link_at ?q = 0x400000" "bin ?p = b1" "bin ?q = b2" by (simp_all add: app1_def app2_def)
  show ?thesis
  proof (cases "even k")
    case True
    obtain s1 s2 where c: "vcopy 0x400000 0x500000 (image_size b1) s = Some s1" "holds (opm s1) 0x80400000 (bytes b1)"
      "vcopy 0x500000 0x400000 (image_size b1) s1 = Some s2" "holds (opm s2) (straight 0x500000) (bytes b1)"
      "holds (opm s2) (straight 0x600000) (bytes b2)" "dom (opm s2) = dom (opm s)" "sent s1 = sent s" "sent s2 = sent s"
      by (rule copied_round [OF dom sz, of "0x500000" "0x600000"]) (use h in auto)
    have "call_next keep [?p, ?q] c s1 = Some (c', s1)"
      using shared_call(1) [of ?p ?q, unfolded l, OF ok refl refl p c(2), of c keep] n e [of s1] True r by (simp add: l split: if_splits)
    then show ?thesis using c True ok dom by (auto simp: switches_def copy_in_def copy_out_def good_023_def straight_def)
  next
    case False
    obtain s1 s2 where c: "vcopy 0x400000 0x600000 (image_size b2) s = Some s1" "holds (opm s1) 0x80400000 (bytes b2)"
      "vcopy 0x600000 0x400000 (image_size b2) s1 = Some s2" "holds (opm s2) (straight 0x600000) (bytes b2)"
      "holds (opm s2) (straight 0x500000) (bytes b1)" "dom (opm s2) = dom (opm s)" "sent s1 = sent s" "sent s2 = sent s"
      by (rule copied_round [OF dom sz(2,1), of "0x600000" "0x500000"]) (use h in auto)
    have "call_next keep [?p, ?q] c s1 = Some (c', s1)"
      using shared_call(2) [of ?p ?q, unfolded l, OF ok refl refl p c(2), of c keep] n e [of s1] False r by (simp add: l split: if_splits)
    then show ?thesis using c False ok dom by (auto simp: switches_def copy_in_def copy_out_def good_023_def straight_def)
  qed
qed

interpretation copying: app_switch "call_next keep [app1 0x400000 b1, app2 0x400000 b2]" "copy_in b1 b2" "copy_out b1 b2"
    "good_023 b1 b2" "0x400000" "0x400000" "0x400000 + second b1" "0x400000 + second b2" for keep b1 b2
proof
  fix s assume g: "good_023 b1 b2 s"
  then have ok: "second b1 \<noteq> 0" "second b2 \<noteq> 0" by (auto simp: good_023_def binaries_ok_def binary_ok_def)
  note c = copied_switches [OF g, where keep = keep]
  show "switches (call_next keep [app1 0x400000 b1, app2 0x400000 b2]) (copy_in b1 b2 0) (copy_out b1 b2 0) (good_023 b1 b2) s
      \<lparr>nxt = 0x400000, ival = 0\<rparr> \<lparr>nxt = 0x400000 + second b1, ival = 1\<rparr>"
    by (rule c) (simp_all add: app_defs)
  show "switches (call_next keep [app1 0x400000 b1, app2 0x400000 b2]) (copy_in b1 b2 1) (copy_out b1 b2 1) (good_023 b1 b2) s
      \<lparr>nxt = 0x400000, ival = 0\<rparr> \<lparr>nxt = 0x400000 + second b2, ival = 9\<rparr>"
    by (rule c) (simp_all add: app_defs)
  show "switches (call_next keep [app1 0x400000 b1, app2 0x400000 b2]) (copy_in b1 b2 2) (copy_out b1 b2 2) (good_023 b1 b2) s
      \<lparr>nxt = 0x400000 + second b1, ival = 1\<rparr> \<lparr>nxt = 0, ival = 2\<rparr>"
    by (rule c) (use ok in \<open>simp_all add: app_defs\<close>)
  show "switches (call_next keep [app1 0x400000 b1, app2 0x400000 b2]) (copy_in b1 b2 3) (copy_out b1 b2 3) (good_023 b1 b2) s
      \<lparr>nxt = 0x400000 + second b2, ival = 9\<rparr> \<lparr>nxt = 0, ival = 8\<rparr>"
    by (rule c) (use ok in \<open>simp_all add: app_defs\<close>)
  show "good_023 b1 b2 (s\<lparr>print_flag := f, sent := ss\<rparr>)" for f ss using g by (simp add: good_023_def)
qed

end
