(* ===== verification/Sample_Switch.thy ===== *)
theory Sample_Switch
  imports Sample_Apps
begin

text \<open>
  The samples that switch applications with page tables (\<^verbatim>\<open>src/sample_old/paging/024\<close>, \<^verbatim>\<open>041\<close>,
  \<^verbatim>\<open>042\<close>): what their tables map, and that all five ways of switching have the same output.
\<close>

section \<open>Walks through the samples' tables\<close>

text \<open>The two pages of an application.\<close>

definition app_page :: "addr \<Rightarrow> u64 \<Rightarrow> bool" where
  "app_page v i \<longleftrightarrow> v = 0xC0000000 \<and> i = 0 \<or> v = 0xC0001000 \<and> i = 1"

lemma app_page_index:
  assumes "app_page v i" "k < 0x1000"
  shows "pt_index 39 (v + of_nat k) = 0" "pt_index 30 (v + of_nat k) = 3" "pt_index 21 (v + of_nat k) = 0"
    "pt_index 12 (v + of_nat k) = i" "v + of_nat k < 2 ^ 47" "\<not> v + of_nat k < 0x40000000"
    "take_bit 12 (v + of_nat k) = of_nat k" "vpage (v + of_nat k) = vpage v"
proof -
  let ?q = "if i = 0 then 786432 else 786433 :: nat"
  have u: "unat (v + of_nat k) = 0x1000 * ?q + k"
    using assms by (auto simp: app_page_def unat_word_ariths unat_of_nat take_bit_nat_eq_self)
  show "pt_index 39 (v + of_nat k) = 0" "pt_index 30 (v + of_nat k) = 3" "pt_index 21 (v + of_nat k) = 0"
    using u assms(2) index_bounds [of 39 0 "v + of_nat k"] index_bounds [of 30 3 "v + of_nat k"]
      index_bounds [of 21 1536 "v + of_nat k"] by (simp_all split: if_splits)
  show "pt_index 12 (v + of_nat k) = i"
    using u assms index_bounds [of 12 ?q "v + of_nat k"] by (auto simp: app_page_def)
  show "v + of_nat k < 2 ^ 47" "\<not> v + of_nat k < 0x40000000"
    using u assms(2) by (simp_all add: word_less_nat_alt)
  have "unat (take_bit 12 (v + of_nat k)) = k" using u assms(2) by (simp add: unat_take_bit)
  then show "take_bit 12 (v + of_nat k) = of_nat k"
    using assms(2) by (simp add: word_unat_eq_iff unat_of_nat take_bit_nat_eq_self)
  have "unat (drop_bit 12 (v + of_nat k)) = ?q" using u assms(2) by (simp add: unat_drop_bit)
  moreover have "unat (drop_bit 12 v) = ?q" using assms(1) by (auto simp: app_page_def)
  ultimately show "vpage (v + of_nat k) = vpage v" by (simp only: vpage_def word_unat_eq_iff)
qed

text \<open>A chain of four tables that leads from an application page to a frame.\<close>

definition leads :: "mem \<Rightarrow> addr \<Rightarrow> addr \<Rightarrow> addr \<Rightarrow> addr \<Rightarrow> u64 \<Rightarrow> addr \<Rightarrow> bool" where
  "leads m t4 t3 t2 t1 i f \<longleftrightarrow> list_all (\<lambda>t. aligned_to 12 t \<and> t < 2 ^ 52) [t4, t3, t2, t1, f] \<and>
     read64 m (page_entry t4 0) = Some (t3 OR 7) \<and> read64 m (page_entry t3 3) = Some (t2 OR 7) \<and>
     read64 m (page_entry t2 0) = Some (t1 OR 7) \<and> read64 m (page_entry t1 i) = Some (f OR 7)"

lemma leads_walk:
  assumes "leads m t4 t3 t2 t1 i f" "app_page v i" "k < 0x1000"
  shows "walk m t4 (v + of_nat k) = Some (f + of_nat k, True)"
  using walk_4KB [of "v + of_nat k" t4 t3 t2 t1 f m] assms(1) app_page_index [OF assms(2,3)] canonical_low
  by (simp add: leads_def page_entry_def)

lemma leads_shows:
  assumes "leads (opm s) (ocr3 s) t3 t2 t1 i f" "app_page v i" "otlb s (vpage v) = None"
  shows "page_shows s v f"
  using leads_walk [OF assms(1,2)] app_page_index [OF assms(2)] assms(3)
  by (simp add: page_shows_def addr_of_def translate_read_def)

text \<open>The directory of the first GB, with or without the flag for global pages.\<close>

definition leads_low :: "mem \<Rightarrow> addr \<Rightarrow> addr \<Rightarrow> addr \<Rightarrow> u64 \<Rightarrow> bool" where
  "leads_low m t4 t3 pd fl \<longleftrightarrow> list_all (\<lambda>t. aligned_to 12 t \<and> t < 2 ^ 52) [t4, t3, pd] \<and> fl \<in> {0x87, 0x187} \<and>
     read64 m (page_entry t4 0) = Some (t3 OR 7) \<and> read64 m (page_entry t3 0) = Some (pd OR 7) \<and>
     (\<forall>i < 512. read64 m (page_entry pd (of_nat i)) = Some ((0x80000000 + 0x200000 * of_nat i) OR fl))"

lemma huge_entry_flags:
  assumes "aligned_to 21 b" "b < 2 ^ 52" "fl \<in> {0x87, 0x187}"
  shows "pte_frame 21 (b OR fl) = b" "pte_present (b OR fl)" "pte_writable (b OR fl)" "pte_huge (b OR fl)"
proof -
  have "drop_bit 21 fl = 0" using assms(3) by auto
  with assms(1,2) show "pte_frame 21 (b OR fl) = b" by (rule pte_frame_or) simp
  show "pte_present (b OR fl)" "pte_writable (b OR fl)" "pte_huge (b OR fl)"
    using pte_bits_or [OF assms(1)] assms(3) by (auto simp: pte_present_def pte_writable_def pte_huge_def)
qed

lemma leads_low_walk:
  assumes l: "leads_low m t4 t3 pd fl" and v: "v < 0x40000000"
  shows "walk m t4 v = Some (straight v, True)"
proof -
  let ?i = "unat v div 2 ^ 21" and ?b = "0x80000000 + 0x200000 * of_nat (unat v div 2 ^ 21) :: u64"
  have un: "unat v < 0x40000000" using v by (simp add: word_less_nat_alt)
  then have i: "?i < 512" by simp
  have ix: "pt_index 39 v = 0" "pt_index 30 v = 0" using un index_bounds [of 39 0 v] index_bounds [of 30 0 v] by simp_all
  have "unat (pt_index 21 v) = ?i" using i by (simp add: unat_pt_index)
  then have i21: "pt_index 21 v = of_nat ?i" using i by (simp add: word_unat_eq_iff unat_of_nat take_bit_nat_eq_self)
  have b: "unat ?b = 0x80000000 + 0x200000 * ?i" using i by (simp add: unat_word_ariths unat_of_nat take_bit_nat_eq_self)
  have "unat (take_bit 21 ?b) = 0" using b by (simp add: unat_take_bit)
  then have al: "aligned_to 21 ?b" "?b < 2 ^ 52" using b i by (simp_all add: aligned_to_def eq_0_unat word_less_nat_alt)
  have "unat (?b + take_bit 21 v) = unat (straight v)"
    using b un by (simp add: straight_def unat_word_ariths unat_take_bit)
  then have eq: "?b + take_bit 21 v = straight v" by (simp only: word_unat_eq_iff)
  have t: "aligned_to 12 t4" "t4 < 2 ^ 52" "aligned_to 12 t3" "t3 < 2 ^ 52" "aligned_to 12 pd" "pd < 2 ^ 52" "fl \<in> {0x87, 0x187}"
    and r: "read64 m t4 = Some (t3 OR 7)" "read64 m t3 = Some (pd OR 7)" "read64 m (pd + 8 * of_nat ?i) = Some (?b OR fl)"
    using l i by (simp_all add: leads_low_def page_entry_def)
  have "canonical v" using un by (intro canonical_low) (simp add: word_less_nat_alt)
  moreover have "pte_frame 12 t4 = t4" using pte_frame_or [OF t(1,2), of 0] by simp
  ultimately show ?thesis
    using table_entry [OF t(3,4)] table_entry [OF t(5,6)] huge_entry_flags [OF al t(7)] ix i21 r eq
    by (simp add: walk_def pt_entry_def)
qed

section \<open>One page table\<close>

definition base_ws :: "(addr \<times> u64 \<times> u64) list" where
  "base_ws = [(0x310000, 0, 0x80311007), (0x311000, 0, 0x80312007), (0x311000, 3, 0x80313007), (0x313000, 0, 0x80314007)] @
     map (\<lambda>i. (0x312000, of_nat i, (0x80000000 + 0x200000 * of_nat i) OR 0x87)) [0..<512]"

lemma base_tables_vputs: "base_tables s = do { s \<leftarrow> vclear 0x310000 0x5000 s; vputs base_ws s }"
  by (simp add: base_tables_def base_ws_def Let_def for_each_vputs vputs_append rwu_def del: upt_conv_Nil upt_Suc)

lemma vput_run:
  assumes "region (straight p) 0x1000 \<subseteq> dom (opm s)" "aligned_to 12 (straight p)" "unat i < 512"
  obtains m where "vput p i e s = Some (s\<lparr>opm := m\<rparr>)" "read64 m (page_entry (straight p) i) = Some e"
    "dom m = dom (opm s)" "\<And>x. x \<notin> region (straight p) 0x1000 \<Longrightarrow> m x = opm s x"
    "\<And>ws. words_at ws (opm s) \<Longrightarrow> page_entry (straight p) i \<notin> fst ` set ws \<Longrightarrow> words_at ws m"
proof -
  let ?a = "page_entry (straight p) i"
  have "unat (8 * i) + 8 \<le> 0x1000" using assms(3) by (simp add: unat_word_ariths)
  then have sub: "region ?a 8 \<subseteq> region (straight p) 0x1000" unfolding page_entry_def by (rule region_shift)
  then obtain m where m: "write64 (opm s) ?a e = Some m" using write_le_defined [of ?a 8 "opm s" e] assms(1) by blast
  have al: "aligned8 ?a" using entry_aligned8 [OF assms(2)] by (simp add: page_entry_def)
  show ?thesis
  proof (rule that)
    show "vput p i e s = Some (s\<lparr>opm := m\<rparr>)" using m by (simp add: vput_def set_entry_def)
    show "read64 m ?a = Some e" by (rule read64_write64_same [OF m])
    show "dom m = dom (opm s)" by (rule write_le_dom [OF m])
    show "m x = opm s x" if "x \<notin> region (straight p) 0x1000" for x using write_le_frame [OF m] that sub by blast
    show "words_at ws m" if "words_at ws (opm s)" "?a \<notin> fst ` set ws" for ws by (rule words_at_write [OF that(1) m al that(2)])
  qed
qed

lemma aligned_straight: "aligned_to 12 p \<Longrightarrow> aligned_to 12 (straight p)"
  using take_bit_add_aligned [of 12 p "0x80000000"] by (simp add: aligned_to_def straight_def)

lemma straight_eq: "straight p = straight q \<longleftrightarrow> p = q"
  by (simp add: straight_def)

text \<open>An entry of a page that no entry of a list is in.\<close>

lemma entry_other_page:
  assumes "list_all (\<lambda>(q, j, e). aligned_to 12 (straight q) \<and> unat j < 512 \<and> q \<noteq> p) ws" "aligned_to 12 (straight p)" "unat i < 512"
  shows "page_entry (straight p) i \<notin> fst ` set (entry_words ws)"
proof
  assume "page_entry (straight p) i \<in> fst ` set (entry_words ws)"
  then obtain q j e where q: "(q, j, e) \<in> set ws" "page_entry (straight p) i = page_entry (straight q) j" by auto
  then have "aligned_to 12 (straight q)" "unat j < 512" "q \<noteq> p" using assms(1) by (auto simp: list_all_iff)
  then show False using q(2) entry_eq_iff [of "straight p" "straight q" i j] assms(2,3) by (simp add: page_entry_def straight_def)
qed

lemma base_ws_slots:
  "list_all (\<lambda>(q, j, e). aligned_to 12 (straight q) \<and> unat j < 512 \<and> q \<noteq> 0x314000) base_ws"
  by (auto simp: base_ws_def list_all_iff aligned_to_def straight_def unat_of_nat_small)

lemma base_ws_distinct: "distinct (map (\<lambda>(p, i, e). (straight p, i)) base_ws)"
proof -
  have "inj_on (\<lambda>i. (0x80312000 :: u64, of_nat i :: u64)) {0..<512}"
    by (auto simp: inj_on_def word_unat_eq_iff unat_of_nat_small)
  then show ?thesis by (auto simp: base_ws_def distinct_map straight_def comp_def)
qed

lemma base_words:
  assumes "words_at (entry_words base_ws) m"
  shows "leads_low m 0x80310000 0x80311000 0x80312000 0x87"
    "read64 m (page_entry 0x80314000 0) = Some (f OR 7) \<Longrightarrow> aligned_to 12 f \<Longrightarrow> f < 2 ^ 52 \<Longrightarrow>
      leads m 0x80310000 0x80311000 0x80313000 0x80314000 0 f"
proof -
  have r: "read64 m (page_entry (straight p) i) = Some e" if "(p, i, e) \<in> set base_ws" for p i e
    using words_at_read [OF assms, of "page_entry (straight p) i" e] that by force
  have four: "read64 m (page_entry 0x80310000 0) = Some 0x80311007" "read64 m (page_entry 0x80311000 0) = Some 0x80312007"
    "read64 m (page_entry 0x80311000 3) = Some 0x80313007" "read64 m (page_entry 0x80313000 0) = Some 0x80314007"
    using r [of "0x310000" 0 "0x80311007"] r [of "0x311000" 0 "0x80312007"] r [of "0x311000" 3 "0x80313007"]
      r [of "0x313000" 0 "0x80314007"] by (simp_all add: base_ws_def straight_def)
  have "read64 m (page_entry 0x80312000 (of_nat i)) = Some ((0x80000000 + 0x200000 * of_nat i) OR 0x87)" if "i < 512" for i
    using r [of "0x312000" "of_nat i" "(0x80000000 + 0x200000 * of_nat i) OR 0x87"] that by (simp add: base_ws_def straight_def)
  then show "leads_low m 0x80310000 0x80311000 0x80312000 0x87" using four by (simp add: leads_low_def aligned_to_def)
  show "leads m 0x80310000 0x80311000 0x80313000 0x80314000 0 f"
    if "read64 m (page_entry 0x80314000 0) = Some (f OR 7)" "aligned_to 12 f" "f < 2 ^ 52"
    using four that by (simp add: leads_def aligned_to_def)
qed

text \<open>
  A call of the application whose image the frame at 0xC0000000 holds. \<open>r\<close> is the application whose turn
  it is.
\<close>

lemma page_call:
  assumes ok: "binaries_ok (bin p) (bin q)" and l: "link_at p = 0xC0000000" "link_at q = 0xC0000000"
    and sh: "page_shows s 0xC0000000 f" "r \<in> {p, q}" "holds (opm s) f (bytes (bin r))"
    and n: "nxt c = 0xC0000000 \<or> nxt c = 0xC0000000 + second (bin r)"
  shows "call_next keep [p, q] c s =
    (if nxt c = 0xC0000000 then first_entry r else second_entry r) c (remember keep (nxt c) s)"
  using shared_call [OF ok l sh(1), of c keep] sh(2,3) n by auto

definition image_frame :: "nat \<Rightarrow> addr" where
  "image_frame k = (if even k then 0x80500000 else 0x80600000)"

lemma image_frame_ok: "aligned_to 12 (image_frame k)" "image_frame k < 2 ^ 52"
  by (simp_all add: image_frame_def aligned_to_def)

definition good_024 :: "binary \<Rightarrow> binary \<Rightarrow> osys \<Rightarrow> bool" where
  "good_024 b1 b2 s \<longleftrightarrow> binaries_ok b1 b2 \<and> region 0x80000000 0x800000 \<subseteq> dom (opm s) \<and>
     holds (opm s) 0x80500000 (bytes b1) \<and> holds (opm s) 0x80600000 (bytes b2) \<and>
     ocr3 s = 0x80310000 \<and> words_at (entry_words base_ws) (opm s)"

lemma image_kept:
  assumes "holds m a bs" "length bs \<le> 0x1000" "a \<in> {0x80500000, 0x80600000}"
    "\<And>x. 0x80500000 \<le> unat x \<Longrightarrow> unat x < 0x80601000 \<Longrightarrow> m' x = m x"
  shows "holds m' a bs"
proof (rule holds_cong [OF assms(1)])
  show "m' x = m x" if "x \<in> region a (length bs)" for x
    using that assms(2,3) by (intro assms(4)) (auto simp: region_interval)
qed (use assms(2) in simp)

lemma table_frame:
  assumes "unat p + 0x1000 \<le> 0x80500000"
  shows "0x80500000 \<le> unat x \<Longrightarrow> x \<notin> region p 0x1000"
  using assms by (simp add: region_interval)

lemma map_in_run:
  assumes g: "good_024 b1 b2 s"
  obtains s1 where "map_in k s = Some s1" "good_024 b1 b2 s1" "sent s1 = sent s" "page_shows s1 0xC0000000 (image_frame k)"
proof -
  have sub: "region (straight 0x314000) 0x1000 \<subseteq> dom (opm s)"
    using g region_subset [of "0x80000000" "0x80314000" "0x1000" "0x800000"] by (auto simp: good_024_def straight_def)
  have al: "aligned_to 12 (straight 0x314000)" by (simp add: aligned_to_def straight_def)
  obtain m where m: "vput 0x314000 0 (image_frame k OR rwu) s = Some (s\<lparr>opm := m\<rparr>)"
    "read64 m (page_entry (straight 0x314000) 0) = Some (image_frame k OR rwu)" "dom m = dom (opm s)"
    "\<And>x. x \<notin> region (straight 0x314000) 0x1000 \<Longrightarrow> m x = opm s x"
    "\<And>ws. words_at ws (opm s) \<Longrightarrow> page_entry (straight 0x314000) 0 \<notin> fst ` set ws \<Longrightarrow> words_at ws m"
    using vput_run [OF sub al, of 0 "image_frame k OR rwu"] by auto
  have w: "words_at (entry_words base_ws) m"
    using m(5) [of "entry_words base_ws"] entry_other_page [OF base_ws_slots al] g by (simp add: good_024_def)
  have fr: "m x = opm s x" if "0x80500000 \<le> unat x" "unat x < 0x80601000" for x
    using m(4) table_frame [of "straight 0x314000" x] that by (simp add: straight_def)
  have sz: "image_size b1 \<le> 0x1000" "image_size b2 \<le> 0x1000" using g by (simp_all add: good_024_def binaries_ok_def binary_ok_def)
  have h: "holds m 0x80500000 (bytes b1)" "holds m 0x80600000 (bytes b2)"
    by (rule image_kept [of "opm s"], use g sz fr in \<open>simp_all add: good_024_def\<close>)+
  let ?s = "flush_page 0xC0000000 (s\<lparr>opm := m\<rparr>)"
  have "leads m 0x80310000 0x80311000 0x80313000 0x80314000 0 (image_frame k)"
    using base_words(2) [OF w _ image_frame_ok [of k]] m(2) by (simp add: rwu_7 straight_def)
  then have "page_shows ?s 0xC0000000 (image_frame k)"
    using g by (intro leads_shows [of ?s "0x80311000" "0x80313000" "0x80314000" 0])
      (simp_all add: flush_page_def good_024_def app_page_def)
  moreover have "map_in k s = Some ?s" using m(1) by (simp add: map_in_def image_frame_def)
  moreover have "good_024 b1 b2 ?s" using g h w m(3) by (simp add: good_024_def flush_page_def)
  ultimately show ?thesis using that [of ?s] by (simp add: flush_page_def)
qed

lemma remapped_switches:
  assumes g: "good_024 b1 b2 s" and r: "r = (if even k then app1 0xC0000000 b1 else app2 0xC0000000 b2)"
    and n: "nxt c = 0xC0000000 \<or> nxt c = 0xC0000000 + second (bin r)"
    and e: "\<And>s. (if nxt c = 0xC0000000 then first_entry r else second_entry r) c s = Some (c', s)"
  shows "switches (call_next keep [app1 0xC0000000 b1, app2 0xC0000000 b2]) (map_in k) Some (good_024 b1 b2) s c c'"
proof -
  let ?p = "app1 0xC0000000 b1" and ?q = "app2 0xC0000000 b2"
  obtain s1 where s1: "map_in k s = Some s1" "good_024 b1 b2 s1" "sent s1 = sent s" "page_shows s1 0xC0000000 (image_frame k)"
    using map_in_run [OF g] by blast
  have l: "link_at ?p = 0xC0000000" "link_at ?q = 0xC0000000" "bin ?p = b1" "bin ?q = b2" by (simp_all add: app1_def app2_def)
  have h: "r \<in> {?p, ?q}" "holds (opm s1) (image_frame k) (bytes (bin r))"
    using s1(2) r l by (auto simp: good_024_def image_frame_def)
  have ok: "binaries_ok (bin ?p) (bin ?q)" using g l by (simp add: good_024_def)
  have "call_next keep [?p, ?q] c s1 = Some (c', remember keep (nxt c) s1)"
    using page_call [OF ok l(1,2) s1(4) h n] e by simp
  moreover have "good_024 b1 b2 (remember keep (nxt c) s1)" using s1(2) by (simp add: good_024_def)
  ultimately show ?thesis using s1(1,3) by (auto simp: switches_def)
qed

interpretation remapping: app_switch "call_next keep [app1 0xC0000000 b1, app2 0xC0000000 b2]" map_in "\<lambda>_. Some"
    "good_024 b1 b2" "0xC0000000" "0xC0000000" "0xC0000000 + second b1" "0xC0000000 + second b2" for keep b1 b2
proof
  fix s assume g: "good_024 b1 b2 s"
  then have ok: "second b1 \<noteq> 0" "second b2 \<noteq> 0" by (auto simp: good_024_def binaries_ok_def binary_ok_def)
  note c = remapped_switches [OF g refl, where keep = keep]
  show "switches (call_next keep [app1 0xC0000000 b1, app2 0xC0000000 b2]) (map_in 0) Some (good_024 b1 b2) s
      \<lparr>nxt = 0xC0000000, ival = 0\<rparr> \<lparr>nxt = 0xC0000000 + second b1, ival = 1\<rparr>"
    by (rule c) (simp_all add: app_defs)
  show "switches (call_next keep [app1 0xC0000000 b1, app2 0xC0000000 b2]) (map_in 1) Some (good_024 b1 b2) s
      \<lparr>nxt = 0xC0000000, ival = 0\<rparr> \<lparr>nxt = 0xC0000000 + second b2, ival = 9\<rparr>"
    by (rule c) (simp_all add: app_defs)
  show "switches (call_next keep [app1 0xC0000000 b1, app2 0xC0000000 b2]) (map_in 2) Some (good_024 b1 b2) s
      \<lparr>nxt = 0xC0000000 + second b1, ival = 1\<rparr> \<lparr>nxt = 0, ival = 2\<rparr>"
    by (rule c) (use ok in \<open>simp_all add: app_defs\<close>)
  show "switches (call_next keep [app1 0xC0000000 b1, app2 0xC0000000 b2]) (map_in 3) Some (good_024 b1 b2) s
      \<lparr>nxt = 0xC0000000 + second b2, ival = 9\<rparr> \<lparr>nxt = 0, ival = 8\<rparr>"
    by (rule c) (use ok in \<open>simp_all add: app_defs\<close>)
  show "good_024 b1 b2 (s\<lparr>print_flag := f, sent := ss\<rparr>)" for f ss using g by (simp add: good_024_def)
qed

section \<open>Tables of their own\<close>

definition pagetable_ws :: "addr \<Rightarrow> addr \<Rightarrow> (addr \<times> u64 \<times> u64) list" where
  "pagetable_ws p f = [(p, 0, straight (p + 0x1000) OR 7), (p + 0x1000, 0, 0x80318007), (p + 0x1000, 3, straight (p + 0x2000) OR 7),
     (p + 0x2000, 0, straight (p + 0x3000) OR 7), (p + 0x3000, 0, f OR 7)]"

definition app_ws :: "(addr \<times> u64 \<times> u64) list" where
  "app_ws = map (\<lambda>i. (0x318000, of_nat i, (0x80000000 + 0x200000 * of_nat i) OR 0x187)) [0..<512] @
     pagetable_ws 0x310000 0x80500000 @ pagetable_ws 0x314000 0x80600000"

lemma app_tables_vputs: "app_tables s = do { s \<leftarrow> vclear 0x310000 0x9000 s; vputs app_ws s }"
  by (simp add: app_tables_def create_pagetable_def app_ws_def pagetable_ws_def Let_def for_each_vputs vputs_append
      rwu_def straight_def del: upt_conv_Nil upt_Suc)

text \<open>The table set of the application whose turn it is.\<close>

definition app_set :: "nat \<Rightarrow> addr" where
  "app_set k = (if even k then 0x310000 else 0x314000)"

lemma app_cr3_set: "app_cr3 k = straight (app_set k)"
  by (simp add: app_cr3_def app_set_def straight_def)

lemma app_ws_slots:
  "list_all (\<lambda>(q, j, e). aligned_to 12 (straight q) \<and> unat j < 512) app_ws"
  "list_all (\<lambda>(q, j, e). aligned_to 12 (straight q) \<and> unat j < 512 \<and> (q, j) \<noteq> (app_set k + 0x3000, 1)) app_ws"
  by (auto simp: app_ws_def pagetable_ws_def app_set_def list_all_iff aligned_to_def straight_def unat_of_nat_small)

lemma app_ws_pages: "(q, j, e) \<in> set app_ws \<Longrightarrow> 0x310000 \<le> unat q \<and> unat q \<le> 0x318000"
  by (auto simp: app_ws_def pagetable_ws_def)

lemma app_ws_distinct: "distinct (map (\<lambda>(p, i, e). (straight p, i)) app_ws)"
proof -
  have "inj_on (\<lambda>i. (0x80318000 :: u64, of_nat i :: u64)) {0..<512}"
    by (auto simp: inj_on_def word_unat_eq_iff unat_of_nat_small)
  then show ?thesis by (auto simp: app_ws_def pagetable_ws_def distinct_map straight_def comp_def)
qed

lemma app_words:
  assumes "words_at (entry_words app_ws) m"
  shows "leads_low m (straight (app_set k)) (straight (app_set k + 0x1000)) 0x80318000 0x187"
    "leads m (straight (app_set k)) (straight (app_set k + 0x1000)) (straight (app_set k + 0x2000)) (straight (app_set k + 0x3000)) 0
      (image_frame k)"
    "read64 m (page_entry (straight (app_set k + 0x3000)) 1) = Some (f OR 7) \<Longrightarrow> aligned_to 12 f \<Longrightarrow> f < 2 ^ 52 \<Longrightarrow>
      leads m (straight (app_set k)) (straight (app_set k + 0x1000)) (straight (app_set k + 0x2000)) (straight (app_set k + 0x3000)) 1 f"
proof -
  have r: "read64 m (page_entry (straight p) i) = Some e" if "(p, i, e) \<in> set app_ws" for p i e
    using words_at_read [OF assms, of "page_entry (straight p) i" e] that by force
  have "set (pagetable_ws (app_set k) (image_frame k)) \<subseteq> set app_ws" by (auto simp: app_ws_def app_set_def image_frame_def)
  then have five: "read64 m (page_entry (straight (app_set k)) 0) = Some (straight (app_set k + 0x1000) OR 7)"
    "read64 m (page_entry (straight (app_set k + 0x1000)) 0) = Some 0x80318007"
    "read64 m (page_entry (straight (app_set k + 0x1000)) 3) = Some (straight (app_set k + 0x2000) OR 7)"
    "read64 m (page_entry (straight (app_set k + 0x2000)) 0) = Some (straight (app_set k + 0x3000) OR 7)"
    "read64 m (page_entry (straight (app_set k + 0x3000)) 0) = Some (image_frame k OR 7)"
    using r by (auto simp: pagetable_ws_def)
  have al: "list_all (\<lambda>t. aligned_to 12 t \<and> t < 2 ^ 52) [straight (app_set k), straight (app_set k + 0x1000),
      straight (app_set k + 0x2000), straight (app_set k + 0x3000), 0x80318000, image_frame k]"
    by (simp add: app_set_def image_frame_def straight_def aligned_to_def)
  have "read64 m (page_entry 0x80318000 (of_nat i)) = Some ((0x80000000 + 0x200000 * of_nat i) OR 0x187)" if "i < 512" for i
    using r [of "0x318000" "of_nat i" "(0x80000000 + 0x200000 * of_nat i) OR 0x187"] that by (simp add: app_ws_def straight_def)
  then show "leads_low m (straight (app_set k)) (straight (app_set k + 0x1000)) 0x80318000 0x187"
    using five al by (simp add: leads_low_def)
  show "leads m (straight (app_set k)) (straight (app_set k + 0x1000)) (straight (app_set k + 0x2000)) (straight (app_set k + 0x3000)) 0
      (image_frame k)" using five al by (simp add: leads_def)
  show "leads m (straight (app_set k)) (straight (app_set k + 0x1000)) (straight (app_set k + 0x2000)) (straight (app_set k + 0x3000)) 1 f"
    if "read64 m (page_entry (straight (app_set k + 0x3000)) 1) = Some (f OR 7)" "aligned_to 12 f" "f < 2 ^ 52"
    using five al that by (simp add: leads_def)
qed

definition good_041 :: "binary \<Rightarrow> binary \<Rightarrow> osys \<Rightarrow> bool" where
  "good_041 b1 b2 s \<longleftrightarrow> binaries_ok b1 b2 \<and> region 0x80000000 0x800000 \<subseteq> dom (opm s) \<and>
     holds (opm s) 0x80500000 (bytes b1) \<and> holds (opm s) 0x80600000 (bytes b2) \<and> words_at (entry_words app_ws) (opm s)"

lemma entered:
  assumes "good_041 b1 b2 s" "ocr3 s = app_cr3 k" "otlb s (vpage 0xC0000000) = None"
  shows "page_shows s 0xC0000000 (image_frame k)"
    "holds (opm s) (image_frame k) (bytes (if even k then b1 else b2))"
proof -
  have "leads (opm s) (ocr3 s) (straight (app_set k + 0x1000)) (straight (app_set k + 0x2000)) (straight (app_set k + 0x3000)) 0 (image_frame k)"
    using app_words(2) assms(1,2) by (simp add: good_041_def app_cr3_set)
  then show "page_shows s 0xC0000000 (image_frame k)" by (rule leads_shows) (simp_all add: app_page_def assms(3))
  show "holds (opm s) (image_frame k) (bytes (if even k then b1 else b2))"
    using assms(1) by (simp add: good_041_def image_frame_def)
qed

text \<open>A call after CR3 has been loaded, by entries that leave the state alone.\<close>

lemma entered_switches:
  assumes g: "good_041 b1 b2 s" and l: "link_at p = 0xC0000000" "link_at q = 0xC0000000" "bin p = b1" "bin q = b2"
    and r: "r = (if even k then p else q)" and n: "nxt c = 0xC0000000 \<or> nxt c = 0xC0000000 + second (bin r)"
    and e: "\<And>s. (if nxt c = 0xC0000000 then first_entry r else second_entry r) c s = Some (c', s)"
  shows "switches (call_next keep [p, q]) (\<lambda>s. Some (load_cr3 (app_cr3 k) s)) Some (good_041 b1 b2) s c c'"
proof -
  let ?s = "load_cr3 (app_cr3 k) s"
  have g1: "good_041 b1 b2 ?s" using g by (simp add: good_041_def load_cr3_def)
  have sh: "page_shows ?s 0xC0000000 (image_frame k)" "holds (opm ?s) (image_frame k) (bytes (if even k then b1 else b2))"
    by (rule entered [OF g1]; simp add: load_cr3_def)+
  have rr: "r \<in> {p, q}" "holds (opm ?s) (image_frame k) (bytes (bin r))" using sh(2) r l by (auto split: if_splits)
  have ok: "binaries_ok (bin p) (bin q)" using g l by (simp add: good_041_def)
  have "call_next keep [p, q] c ?s = Some (c', remember keep (nxt c) ?s)" using page_call [OF ok l(1,2) sh(1) rr n] e by simp
  moreover have "good_041 b1 b2 (remember keep (nxt c) ?s)" using g1 by (simp add: good_041_def)
  ultimately show ?thesis by (auto simp: switches_def load_cr3_def)
qed

interpretation switching: app_switch "call_next keep [app1 0xC0000000 b1, app2 0xC0000000 b2]"
    "\<lambda>k s. Some (load_cr3 (app_cr3 k) s)" "\<lambda>_. Some" "good_041 b1 b2" "0xC0000000" "0xC0000000"
    "0xC0000000 + second b1" "0xC0000000 + second b2" for keep b1 b2
proof
  fix s assume g: "good_041 b1 b2 s"
  then have ok: "second b1 \<noteq> 0" "second b2 \<noteq> 0" by (auto simp: good_041_def binaries_ok_def binary_ok_def)
  let ?p = "app1 0xC0000000 b1" and ?q = "app2 0xC0000000 b2"
  have l: "link_at ?p = 0xC0000000" "link_at ?q = 0xC0000000" "bin ?p = b1" "bin ?q = b2" by (simp_all add: app1_def app2_def)
  note c = entered_switches [OF g l refl, where keep = keep]
  show "switches (call_next keep [?p, ?q]) (\<lambda>s. Some (load_cr3 (app_cr3 0) s)) Some (good_041 b1 b2) s
      \<lparr>nxt = 0xC0000000, ival = 0\<rparr> \<lparr>nxt = 0xC0000000 + second b1, ival = 1\<rparr>"
    by (rule c) (simp_all add: app_defs)
  show "switches (call_next keep [?p, ?q]) (\<lambda>s. Some (load_cr3 (app_cr3 1) s)) Some (good_041 b1 b2) s
      \<lparr>nxt = 0xC0000000, ival = 0\<rparr> \<lparr>nxt = 0xC0000000 + second b2, ival = 9\<rparr>"
    by (rule c) (simp_all add: app_defs)
  show "switches (call_next keep [?p, ?q]) (\<lambda>s. Some (load_cr3 (app_cr3 2) s)) Some (good_041 b1 b2) s
      \<lparr>nxt = 0xC0000000 + second b1, ival = 1\<rparr> \<lparr>nxt = 0, ival = 2\<rparr>"
    by (rule c) (use ok in \<open>simp_all add: app_defs\<close>)
  show "switches (call_next keep [?p, ?q]) (\<lambda>s. Some (load_cr3 (app_cr3 3) s)) Some (good_041 b1 b2) s
      \<lparr>nxt = 0xC0000000 + second b2, ival = 9\<rparr> \<lparr>nxt = 0, ival = 8\<rparr>"
    by (rule c) (use ok in \<open>simp_all add: app_defs\<close>)
  show "good_041 b1 b2 (s\<lparr>print_flag := f, sent := ss\<rparr>)" for f ss using g by (simp add: good_041_def)
qed

section \<open>A page mapped during a call\<close>

lemma app_words_low:
  "(a, w) \<in> set (entry_words app_ws) \<Longrightarrow> x \<in> region a 8 \<Longrightarrow> unat x < 0x80400000"
proof -
  assume "(a, w) \<in> set (entry_words app_ws)" and x: "x \<in> region a 8"
  then obtain q j where q: "(q, j, w) \<in> set app_ws" "a = page_entry (straight q) j" by auto
  have "unat j < 512" using app_ws_slots(1) q(1) by (auto simp: list_all_iff)
  then have "unat a = 0x80000000 + unat q + 8 * unat j" "unat a + 8 \<le> 0x80400000"
    using app_ws_pages [OF q(1)] by (simp_all add: q(2) page_entry_def straight_def unat_word_ariths)
  then show "unat x < 0x80400000" using x by (simp add: region_interval)
qed

lemma app_words_kept:
  "words_at (entry_words app_ws) m \<Longrightarrow> (\<And>x. unat x < 0x80400000 \<Longrightarrow> m' x = m x) \<Longrightarrow> words_at (entry_words app_ws) m'"
  by (rule words_at_cong) (use app_words_low in blast)+

text \<open>The second entry of an application's page table.\<close>

abbreviation second_slot :: "nat \<Rightarrow> addr" where
  "second_slot k \<equiv> page_entry (straight (app_set k + 0x3000)) 1"

lemma second_slot_new: "second_slot k \<notin> fst ` set (entry_words app_ws)"
proof
  assume "second_slot k \<in> fst ` set (entry_words app_ws)"
  then obtain q j e where q: "(q, j, e) \<in> set app_ws" "second_slot k = page_entry (straight q) j" by auto
  then have "aligned_to 12 (straight q)" "unat j < 512" "(q, j) \<noteq> (app_set k + 0x3000, 1)"
    using app_ws_slots(2) [of k] by (auto simp: list_all_iff)
  moreover have "aligned_to 12 (straight (app_set k + 0x3000))" by (simp add: app_set_def straight_def aligned_to_def)
  ultimately show False
    using q(2) entry_eq_iff [of "straight (app_set k + 0x3000)" "straight q" 1 j] by (auto simp: page_entry_def straight_eq)
qed

lemma second_slot_put:
  assumes g: "good_041 b1 b2 s"
  obtains m where "vput (app_set k + 0x3000) 1 e s = Some (s\<lparr>opm := m\<rparr>)" "read64 m (second_slot k) = Some e"
    "good_041 b1 b2 (s\<lparr>opm := m\<rparr>)"
proof -
  let ?p = "app_set k + 0x3000"
  have p: "unat (straight ?p) + 0x1000 \<le> 0x80400000" "0x80000000 \<le> unat (straight ?p)" "aligned_to 12 (straight ?p)"
    by (simp_all add: app_set_def straight_def aligned_to_def)
  have sub: "region (straight ?p) 0x1000 \<subseteq> dom (opm s)"
    using g p region_subset [of "0x80000000" "straight ?p" "0x1000" "0x800000"] by (auto simp: good_041_def)
  obtain m where m: "vput ?p 1 e s = Some (s\<lparr>opm := m\<rparr>)" "read64 m (second_slot k) = Some e" "dom m = dom (opm s)"
    "\<And>x. x \<notin> region (straight ?p) 0x1000 \<Longrightarrow> m x = opm s x"
    "\<And>ws. words_at ws (opm s) \<Longrightarrow> second_slot k \<notin> fst ` set ws \<Longrightarrow> words_at ws m"
    using vput_run [OF sub p(3), of 1 e] by auto
  have fr: "m x = opm s x" if "0x80500000 \<le> unat x" "unat x < 0x80601000" for x
    using m(4) [of x] table_frame [of "straight ?p" x] that p(1) by simp
  have "holds m 0x80500000 (bytes b1)" "holds m 0x80600000 (bytes b2)"
    by (rule image_kept [of "opm s"], use g fr in \<open>simp_all add: good_041_def binaries_ok_def binary_ok_def\<close>)+
  moreover have "words_at (entry_words app_ws) m" using m(5) second_slot_new g by (simp add: good_041_def)
  ultimately have "good_041 b1 b2 (s\<lparr>opm := m\<rparr>)" using g m(3) by (simp add: good_041_def)
  with m(1,2) show ?thesis by (rule that)
qed

text \<open>
  While an application fills its buffer the tables stay as they are, and the buffer for translations
  holds nothing for that page or the frame that the tables give.
\<close>

definition filling :: "binary \<Rightarrow> binary \<Rightarrow> nat \<Rightarrow> osys \<Rightarrow> bool" where
  "filling b1 b2 k s \<longleftrightarrow> good_041 b1 b2 s \<and> ocr3 s = app_cr3 k \<and> read64 (opm s) (second_slot k) = Some 0x80700007 \<and>
     otlb s (vpage 0xC0001000) \<in> {None, Some 0x80700000}"

lemma filling_shows:
  assumes "filling b1 b2 k s"
  shows "page_shows s 0xC0001000 0x80700000"
proof (cases "otlb s (vpage 0xC0001000)")
  case None
  have "leads (opm s) (ocr3 s) (straight (app_set k + 0x1000)) (straight (app_set k + 0x2000)) (straight (app_set k + 0x3000)) 1 0x80700000"
    using assms app_words(3) [of "opm s" k "0x80700000"] by (simp add: filling_def good_041_def app_cr3_set aligned_to_def)
  then show ?thesis by (rule leads_shows) (simp_all add: app_page_def None)
next
  case (Some f)
  then have "f = 0x80700000" using assms by (simp add: filling_def)
  then show ?thesis
    using Some app_page_index [of "0xC0001000" 1] by (simp add: page_shows_def addr_of_def app_page_def)
qed

lemma filling_store:
  assumes f: "filling b1 b2 k s" and i: "i < 10"
  shows "\<exists>s'. vstore8 keep (0xC0001000 + of_nat i) b s = Some s' \<and> filling b1 b2 k s' \<and> sent s' = sent s"
proof -
  let ?v = "0xC0001000 + of_nat i :: addr" and ?a = "0x80700000 + of_nat i :: addr"
  have a: "addr_of s ?v = Some ?a" using filling_shows [OF f] i by (simp add: page_shows_def)
  have ix: "take_bit 12 ?v = of_nat i" "vpage ?v = vpage 0xC0001000"
    using app_page_index(7,8) [of "0xC0001000" 1 i] i by (simp_all add: app_page_def)
  have u: "unat ?a = 0x80700000 + i" using i by (simp add: unat_word_ariths unat_of_nat take_bit_nat_eq_self)
  then have "?a \<in> region 0x80000000 0x800000" using i by (simp add: region_interval)
  then have "?a \<in> dom (opm s)" using f by (auto simp: filling_def good_041_def)
  then have st: "store8 (opm s) ?a b = Some ((opm s)(?a \<mapsto> b))" by (simp add: store8_Some)
  let ?m = "(opm s)(?a \<mapsto> b)" and ?s = "(remember keep ?v s)\<lparr>opm := (opm s)(?a \<mapsto> b)\<rparr>"
  have same: "?m x = opm s x" if "unat x < 0x80700000" for x using that u by auto
  have "holds ?m 0x80500000 (bytes b1)" "holds ?m 0x80600000 (bytes b2)"
    by (rule image_kept [of "opm s"], use f same in \<open>simp_all add: filling_def good_041_def binaries_ok_def binary_ok_def\<close>)+
  moreover have "words_at (entry_words app_ws) ?m"
    by (rule app_words_kept [of "opm s"]) (use f same in \<open>simp_all add: filling_def good_041_def\<close>)
  ultimately have "good_041 b1 b2 ?s"
    using f \<open>?a \<in> dom (opm s)\<close> by (auto simp: filling_def good_041_def)
  moreover have "read64 ?m (second_slot k) = read64 (opm s) (second_slot k)"
  proof (rule read_le_cong)
    fix x assume "x \<in> region (second_slot k) 8"
    then have "unat x < 0x80700000" by (auto simp: region_interval page_entry_def straight_def app_set_def split: if_splits)
    then show "?m x = opm s x" by (rule same)
  qed
  moreover have "otlb ?s (vpage 0xC0001000) \<in> {None, Some 0x80700000}" "ocr3 ?s = ocr3 s" "sent ?s = sent s"
    using f a ix by (auto simp: remember_def filling_def)
  moreover have "vstore8 keep ?v b s = Some ?s" using a st by (simp add: vstore8_def)
  ultimately show ?thesis using f by (auto simp: filling_def)
qed

lemma fill_buf_run:
  assumes "filling b1 b2 k s"
  shows "\<exists>s'. fill_buf keep s = Some s' \<and> filling b1 b2 k s' \<and> sent s' = sent s"
proof -
  have "\<exists>s'. for_each (\<lambda>i. vstore8 keep (0xC0001000 + of_nat i) (of_nat i)) is s = Some s' \<and> filling b1 b2 k s' \<and> sent s' = sent s"
    if "set is \<subseteq> {..<10}" "filling b1 b2 k s" for "is" s
    using that
  proof (induction "is" arbitrary: s)
    case (Cons i "is")
    then obtain s1 where "vstore8 keep (0xC0001000 + of_nat i) (of_nat i) s = Some s1" "filling b1 b2 k s1" "sent s1 = sent s"
      using filling_store [OF Cons.prems(2), of i keep "of_nat i"] by auto
    moreover from this obtain s2 where "for_each (\<lambda>i. vstore8 keep (0xC0001000 + of_nat i) (of_nat i)) is s1 = Some s2"
      "filling b1 b2 k s2" "sent s2 = sent s1" using Cons.IH [of s1] Cons.prems(1) by auto
    ultimately show ?case by simp
  qed simp
  note run = this [of "[0..<10]", OF _ assms]
  have "set [0..<10] \<subseteq> {..<10 :: nat}" by auto
  from run [OF this] show ?thesis unfolding fill_buf_def .
qed

lemma code_page:
  assumes "binary_ok b" "v = 0xC0000000 \<or> v = 0xC0000000 + second b"
  shows "vpage v = vpage 0xC0000000"
proof -
  have "unat (second b) < 0x1000" using assms(1) by (simp add: binary_ok_def)
  then have "vpage (0xC0000000 + second b) = vpage 0xC0000000"
    using app_page_index(8) [of "0xC0000000" 0 "unat (second b)"] by (simp add: app_page_def)
  then show ?thesis using assms(2) by auto
qed

lemma mapped_switches:
  assumes g: "good_041 b1 b2 s" and l: "link_at p = 0xC0000000" "link_at q = 0xC0000000" "bin p = b1" "bin q = b2"
    and r: "r = (if even k then p else q)" and n: "nxt c = 0xC0000000 \<or> nxt c = 0xC0000000 + second (bin r)"
    and e: "\<And>s. (if nxt c = 0xC0000000 then first_entry r else second_entry r) c s = do { s \<leftarrow> fill_buf keep s; Some (c', s) }"
  shows "switches (call_next keep [p, q]) (\<lambda>s. map_page (app_set k) (load_cr3 (app_cr3 k) s)) (unmap_page (app_set k))
    (good_041 b1 b2) s c c'"
proof -
  let ?s0 = "load_cr3 (app_cr3 k) s"
  have "good_041 b1 b2 ?s0" using g by (simp add: good_041_def load_cr3_def)
  then obtain m where m: "vput (app_set k + 0x3000) 1 0x80700007 ?s0 = Some (?s0\<lparr>opm := m\<rparr>)"
    "read64 m (second_slot k) = Some 0x80700007" "good_041 b1 b2 (?s0\<lparr>opm := m\<rparr>)" by (rule second_slot_put)
  let ?s1 = "flush_page 0xC0000000 (?s0\<lparr>opm := m\<rparr>)"
  have bef: "map_page (app_set k) ?s0 = Some ?s1" using m(1) by (simp add: map_page_def rwu_def)
  have g1: "good_041 b1 b2 ?s1" using m(3) by (simp add: good_041_def flush_page_def)
  have sh: "page_shows ?s1 0xC0000000 (image_frame k)" "holds (opm ?s1) (image_frame k) (bytes (if even k then b1 else b2))"
    by (rule entered [OF g1]; simp add: flush_page_def load_cr3_def)+
  have rr: "r \<in> {p, q}" "holds (opm ?s1) (image_frame k) (bytes (bin r))" using sh(2) r l by (auto split: if_splits)
  have ok: "binaries_ok (bin p) (bin q)" "binary_ok (bin r)" using g l r by (auto simp: good_041_def binaries_ok_def)
  let ?t = "remember keep (nxt c) ?s1"
  have "vpage (nxt c) \<noteq> vpage 0xC0001000" using code_page [OF ok(2) n] by (simp add: vpage_def)
  then have "otlb ?t (vpage 0xC0001000) = None" by (simp add: remember_def flush_page_def load_cr3_def split: option.splits)
  then have "filling b1 b2 k ?t" using g1 m(2) by (simp add: filling_def good_041_def flush_page_def load_cr3_def)
  then obtain s2 where s2: "fill_buf keep ?t = Some s2" "filling b1 b2 k s2" "sent s2 = sent s"
    using fill_buf_run [of b1 b2 k ?t keep] by (auto simp: flush_page_def load_cr3_def)
  have call: "call_next keep [p, q] c ?s1 = Some (c', s2)" using page_call [OF ok(1) l(1,2) sh(1) rr n] e s2(1) by simp
  have "good_041 b1 b2 s2" using s2(2) by (simp add: filling_def)
  then obtain m' where m': "vput (app_set k + 0x3000) 1 0 s2 = Some (s2\<lparr>opm := m'\<rparr>)" "good_041 b1 b2 (s2\<lparr>opm := m'\<rparr>)"
    by (rule second_slot_put)
  have "unmap_page (app_set k) s2 = Some (flush_page 0xC0000000 (s2\<lparr>opm := m'\<rparr>))" using m'(1) by (simp add: unmap_page_def)
  moreover have "good_041 b1 b2 (flush_page 0xC0000000 (s2\<lparr>opm := m'\<rparr>))" using m'(2) by (simp add: good_041_def flush_page_def)
  moreover have "sent (flush_page 0xC0000000 (s2\<lparr>opm := m'\<rparr>)) = sent s" using s2(3) by (simp add: flush_page_def)
  ultimately show ?thesis using bef call unfolding switches_def by blast
qed

lemma rounds_042:
  "enter_042 0 = (\<lambda>s. map_page (app_set 0) (load_cr3 (app_cr3 0) s))" "leave_042 0 = unmap_page (app_set 0)"
  "enter_042 1 = (\<lambda>s. Some (load_cr3 (app_cr3 1) s))" "leave_042 1 = Some"
  "enter_042 2 = (\<lambda>s. Some (load_cr3 (app_cr3 2) s))" "leave_042 2 = Some"
  "enter_042 3 = (\<lambda>s. map_page (app_set 3) (load_cr3 (app_cr3 3) s))" "leave_042 3 = unmap_page (app_set 3)"
  by (simp_all add: enter_042_def leave_042_def app_set_def fun_eq_iff)

interpretation mapping: app_switch "call_next keep [app1_042 keep 0xC0000000 b1, app2_042 keep 0xC0000000 b2]"
    enter_042 leave_042 "good_041 b1 b2" "0xC0000000" "0xC0000000" "0xC0000000 + second b1" "0xC0000000 + second b2" for keep b1 b2
proof
  fix s assume g: "good_041 b1 b2 s"
  then have ok: "second b1 \<noteq> 0" "second b2 \<noteq> 0" by (auto simp: good_041_def binaries_ok_def binary_ok_def)
  let ?p = "app1_042 keep 0xC0000000 b1" and ?q = "app2_042 keep 0xC0000000 b2"
  have l: "link_at ?p = 0xC0000000" "link_at ?q = 0xC0000000" "bin ?p = b1" "bin ?q = b2"
    by (simp_all add: app1_042_def app2_042_def)
  note c = entered_switches [OF g l refl, where keep = keep] and d = mapped_switches [OF g l refl, where keep = keep]
  show "switches (call_next keep [?p, ?q]) (enter_042 0) (leave_042 0) (good_041 b1 b2) s
      \<lparr>nxt = 0xC0000000, ival = 0\<rparr> \<lparr>nxt = 0xC0000000 + second b1, ival = 1\<rparr>"
    unfolding rounds_042 by (rule d) (simp_all add: app_defs entry1_042_def)
  show "switches (call_next keep [?p, ?q]) (enter_042 1) (leave_042 1) (good_041 b1 b2) s
      \<lparr>nxt = 0xC0000000, ival = 0\<rparr> \<lparr>nxt = 0xC0000000 + second b2, ival = 9\<rparr>"
    unfolding rounds_042 by (rule c) (simp_all add: app_defs)
  show "switches (call_next keep [?p, ?q]) (enter_042 2) (leave_042 2) (good_041 b1 b2) s
      \<lparr>nxt = 0xC0000000 + second b1, ival = 1\<rparr> \<lparr>nxt = 0, ival = 2\<rparr>"
    unfolding rounds_042 by (rule c) (use ok in \<open>simp_all add: app_defs\<close>)
  show "switches (call_next keep [?p, ?q]) (enter_042 3) (leave_042 3) (good_041 b1 b2) s
      \<lparr>nxt = 0xC0000000 + second b2, ival = 9\<rparr> \<lparr>nxt = 0, ival = 8\<rparr>"
    unfolding rounds_042 by (rule d) (use ok in \<open>simp_all add: app_defs entry4_042_def\<close>)
  show "good_041 b1 b2 (s\<lparr>print_flag := f, sent := ss\<rparr>)" for f ss using g by (simp add: good_041_def)
qed

end
