(* ===== verification/Sample_Runs.thy ===== *)
theory Sample_Runs
  imports Sample_Switch
begin

text \<open>
  Old samples 021 to 042 from start to end: what \<^verbatim>\<open>main\<close> sets up before the first call (images in
  place, tables built), and that every way of switching prints the same lines.
\<close>

section \<open>What the programs find\<close>

text \<open>
  What the programs find: the friend's memory from 0x80000000 on, and the two images in the part of it
  where the friend's binary is.
\<close>

definition samples_start :: "binary \<Rightarrow> binary \<Rightarrow> osys \<Rightarrow> bool" where
  "samples_start b1 b2 s \<longleftrightarrow> binaries_ok b1 b2 \<and> region 0x80000000 0x800000 \<subseteq> dom (opm s) \<and>
     holds (opm s) (straight (start_at b1)) (bytes b1) \<and> holds (opm s) (straight (start_at b2)) (bytes b2)"

lemma source_low:
  assumes "binary_ok b" "x \<in> region (straight (start_at b)) (image_size b)"
  shows "0x80000000 \<le> unat x" "unat x < 0x80310000"
proof -
  have "unat (straight (start_at b)) = 0x80000000 + unat (start_at b)" "unat (start_at b) + image_size b \<le> 0x310000"
    using assms(1) by (simp_all add: binary_ok_def straight_def unat_word_ariths)
  then show "0x80000000 \<le> unat x" "unat x < 0x80310000" using assms(2) by (simp_all add: region_interval)
qed

lemma image_copied:
  assumes b: "binary_ok b" and dom: "region 0x80000000 0x800000 \<subseteq> dom (opm s)"
    and h: "holds (opm s) (straight (start_at b)) (bytes b)" and d: "d \<in> {0x400000, 0x500000, 0x600000}"
  obtains m where "vcopy d (start_at b) (image_size b) s = Some (s\<lparr>opm := m\<rparr>)" "dom m = dom (opm s)"
    "holds m (straight d) (bytes b)" "\<And>x. x \<notin> region (straight d) 0x1000 \<Longrightarrow> m x = opm s x"
proof -
  have sz: "image_size b \<le> 0x1000" using b by (simp add: binary_ok_def)
  have pl: "region (straight d) (image_size b) \<subseteq> region 0x80000000 0x800000"
    using d sz by (intro region_subset) (auto simp: straight_def)
  have src: "region (straight (start_at b)) (image_size b) \<subseteq> region 0x80000000 0x800000"
    using source_low [OF b] by (fastforce simp: region_interval)
  obtain m where m: "vcopy d (start_at b) (image_size b) s = Some (s\<lparr>opm := m\<rparr>)"
    "memcpy (image_size b) (opm s) (straight d) (straight (start_at b)) = Some m" "dom m = dom (opm s)"
    using vcopy_run [of d "image_size b" s "start_at b"] pl src dom by blast
  have hi: "0x80400000 \<le> unat x" if "x \<in> region (straight d) (image_size b)" for x
    using that d sz by (auto simp: straight_def region_interval)
  have "region (straight d) (image_size b) \<inter> region (straight (start_at b)) (image_size b) = {}"
    using hi source_low(2) [OF b] by fastforce
  then have "holds m (straight d) (bytes b)" using holds_memcpy [OF m(2) h] sz by simp
  moreover have "m x = opm s x" if "x \<notin> region (straight d) 0x1000" for x
    using memcpy_frame [OF m(2), of x] region_mono [OF sz, of "straight d"] that by blast
  ultimately show ?thesis using that [of m] m(1,3) by blast
qed

lemma source_kept:
  assumes "binary_ok b" "holds m (straight (start_at b)) (bytes b)" "\<And>x. unat x < 0x80310000 \<Longrightarrow> m' x = m x"
  shows "holds m' (straight (start_at b)) (bytes b)"
  by (rule holds_cong [OF assms(2)]) (use assms source_low(2) [OF assms(1)] in \<open>auto simp: binary_ok_def\<close>)

text \<open>Both images are put in their places, and nothing else changes.\<close>

lemma images_placed:
  assumes g: "samples_start b1 b2 s" and d: "(d, d') \<in> {(0x400000, 0x500000), (0x500000, 0x600000)}"
  obtains m1 m where "vcopy d (start_at b1) (image_size b1) s = Some (s\<lparr>opm := m1\<rparr>)"
    "vcopy d' (start_at b2) (image_size b2) (s\<lparr>opm := m1\<rparr>) = Some (s\<lparr>opm := m\<rparr>)" "dom m = dom (opm s)"
    "holds m (straight d) (bytes b1)" "holds m (straight d') (bytes b2)" "\<And>x. unat x < 0x80400000 \<Longrightarrow> m x = opm s x"
proof -
  have b: "binary_ok b1" "binary_ok b2" and dom: "region 0x80000000 0x800000 \<subseteq> dom (opm s)"
    and h: "holds (opm s) (straight (start_at b1)) (bytes b1)" "holds (opm s) (straight (start_at b2)) (bytes b2)"
    using g by (simp_all add: samples_start_def binaries_ok_def)
  have sz: "image_size b1 \<le> 0x1000" using b(1) by (simp add: binary_ok_def)
  obtain m1 where m1: "vcopy d (start_at b1) (image_size b1) s = Some (s\<lparr>opm := m1\<rparr>)" "dom m1 = dom (opm s)"
    "holds m1 (straight d) (bytes b1)" "\<And>x. x \<notin> region (straight d) 0x1000 \<Longrightarrow> m1 x = opm s x"
    using image_copied [OF b(1) dom h(1), of d] d by auto
  have low: "x \<notin> region (straight d) 0x1000" "x \<notin> region (straight d') 0x1000" if "unat x < 0x80400000" for x
    using that d by (auto simp: straight_def region_interval)
  have "holds m1 (straight (start_at b2)) (bytes b2)" by (rule source_kept [OF b(2) h(2)]) (use m1(4) low in simp)
  then obtain m where m: "vcopy d' (start_at b2) (image_size b2) (s\<lparr>opm := m1\<rparr>) = Some (s\<lparr>opm := m\<rparr>)" "dom m = dom m1"
    "holds m (straight d') (bytes b2)" "\<And>x. x \<notin> region (straight d') 0x1000 \<Longrightarrow> m x = m1 x"
    using image_copied [OF b(2), of "s\<lparr>opm := m1\<rparr>" d'] dom m1(2) d by auto
  have "holds m (straight d) (bytes b1)"
  proof (rule holds_cong [OF m1(3)])
    show "m x = m1 x" if "x \<in> region (straight d) (image_size b1)" for x
    proof (rule m(4))
      have "region (straight d) (image_size b1) \<inter> region (straight d') 0x1000 = {}"
        using d sz by (intro region_disjoint) (auto simp: straight_def)
      then show "x \<notin> region (straight d') 0x1000" using that by blast
    qed
  qed (use sz in simp)
  moreover have "m x = opm s x" if "unat x < 0x80400000" for x using low [OF that] m(4) m1(4) by simp
  ultimately show ?thesis using that [of m1 m] m1(1,2) m(1-3) by simp
qed

text \<open>Tables are built without touching the images' sources.\<close>

lemma tables_built:
  assumes ws: "list_all (\<lambda>(q, j, e). aligned_to 12 (straight q) \<and> unat j < 512) ws" "distinct (map (\<lambda>(p, i, e). (straight p, i)) ws)"
    and pages: "\<And>q j e. (q, j, e) \<in> set ws \<Longrightarrow> 0x310000 \<le> unat q \<and> unat q \<le> 0x318000"
    and dom: "region 0x80000000 0x800000 \<subseteq> dom (opm s)" and n: "n \<le> 0x9000"
  obtains m where "do { s \<leftarrow> vclear 0x310000 n s; vputs ws s } = Some (s\<lparr>opm := m\<rparr>)" "words_at (entry_words ws) m"
    "dom m = dom (opm s)" "\<And>x. unat x < 0x80310000 \<Longrightarrow> m x = opm s x"
proof -
  have "region (straight 0x310000) n \<subseteq> region 0x80000000 0x800000" using n by (intro region_subset) (simp_all add: straight_def)
  then obtain m1 where m1: "memset n (opm s) (straight 0x310000) 0 = Some m1" using memset_defined dom by blast
  have low1: "m1 x = opm s x" if "unat x < 0x80310000" for x
    by (rule memset_frame [OF m1]) (use that n in \<open>simp add: straight_def region_interval\<close>)
  have page: "unat (straight q) = 0x80000000 + unat q" "region (straight q) 0x1000 \<subseteq> dom m1" if "(q, j, e) \<in> set ws" for q j e
  proof -
    show u: "unat (straight q) = 0x80000000 + unat q" using pages [OF that] by (simp add: straight_def unat_word_ariths)
    have "region (straight q) 0x1000 \<subseteq> region 0x80000000 0x800000" using u pages [OF that] by (intro region_subset) simp_all
    then show "region (straight q) 0x1000 \<subseteq> dom m1" using dom memset_dom [OF m1] by simp
  qed
  obtain m where m: "vputs ws (s\<lparr>opm := m1\<rparr>) = Some (s\<lparr>opm := m\<rparr>)" "words_at (entry_words ws) m" "dom m = dom m1"
    "\<And>x. (\<And>p i e. (p, i, e) \<in> set ws \<Longrightarrow> x \<notin> region (page_entry (straight p) i) 8) \<Longrightarrow> m x = m1 x"
    using vputs_run [OF ws, of "s\<lparr>opm := m1\<rparr>"] page(2) by auto
  have "m x = opm s x" if "unat x < 0x80310000" for x
  proof -
    have "x \<notin> region (page_entry (straight p) i) 8" if "(p, i, e) \<in> set ws" for p i e
    proof -
      have "unat i < 512" using ws(1) that by (auto simp: list_all_iff)
      then have "unat (page_entry (straight p) i) = 0x80000000 + unat p + 8 * unat i"
        using page(1) [OF that] pages [OF that] by (simp add: page_entry_def unat_word_ariths)
      then show ?thesis using pages [OF that] \<open>unat x < 0x80310000\<close> \<open>unat i < 512\<close> by (simp add: region_interval)
    qed
    then show ?thesis using m(4) low1 [OF that] by simp
  qed
  moreover have "do { s \<leftarrow> vclear 0x310000 n s; vputs ws s } = Some (s\<lparr>opm := m\<rparr>)" using m1 m(1) by (simp add: vclear_def)
  ultimately show ?thesis using that [of m] m(2,3) memset_dom [OF m1] by simp
qed

lemma samples_start_puts: "samples_start b1 b2 s \<Longrightarrow> samples_start b1 b2 (puts str s)"
  by (simp add: samples_start_def puts_eq)

text \<open>After the images have been copied, on top of tables that the copying keeps.\<close>

lemma copy_images_run:
  assumes g: "samples_start b1 b2 s"
  obtains m where "copy_images b1 b2 s = Some (s\<lparr>opm := m\<rparr>)" "dom m = dom (opm s)" "holds m 0x80500000 (bytes b1)"
    "holds m 0x80600000 (bytes b2)" "\<And>x. unat x < 0x80400000 \<Longrightarrow> m x = opm s x"
proof -
  obtain m1 m where m: "vcopy 0x500000 (start_at b1) (image_size b1) s = Some (s\<lparr>opm := m1\<rparr>)"
    "vcopy 0x600000 (start_at b2) (image_size b2) (s\<lparr>opm := m1\<rparr>) = Some (s\<lparr>opm := m\<rparr>)" "dom m = dom (opm s)"
    "holds m (straight 0x500000) (bytes b1)" "holds m (straight 0x600000) (bytes b2)" "\<And>x. unat x < 0x80400000 \<Longrightarrow> m x = opm s x"
    by (rule images_placed [OF g, of "0x500000" "0x600000"]) simp_all
  then show ?thesis using that [of m] by (simp add: copy_images_def straight_def)
qed

lemma base_ws_pages: "(q, j, e) \<in> set base_ws \<Longrightarrow> 0x310000 \<le> unat q \<and> unat q \<le> 0x318000"
  by (auto simp: base_ws_def)

lemma base_words_kept:
  assumes "words_at (entry_words base_ws) m" "\<And>x. unat x < 0x80400000 \<Longrightarrow> m' x = m x"
  shows "words_at (entry_words base_ws) m'"
proof (rule words_at_cong [OF assms(1)])
  fix a w x assume aw: "(a, w) \<in> set (entry_words base_ws)" and x: "x \<in> region a 8"
  then obtain q j where q: "(q, j, w) \<in> set base_ws" "a = page_entry (straight q) j" by auto
  have "unat j < 512" using base_ws_slots q(1) by (auto simp: list_all_iff)
  then have "unat a = 0x80000000 + unat q + 8 * unat j" "unat a + 8 \<le> 0x80400000"
    using base_ws_pages [OF q(1)] by (simp_all add: q(2) page_entry_def straight_def unat_word_ariths)
  then show "m' x = m x" using x by (intro assms(2)) (simp add: region_interval)
qed

lemma start_kept:
  assumes "samples_start b1 b2 s" "dom m = dom (opm s)" "\<And>x. unat x < 0x80310000 \<Longrightarrow> m x = opm s x"
  shows "samples_start b1 b2 (s\<lparr>opm := m\<rparr>)"
  using assms source_kept [of b1 "opm s" m] source_kept [of b2 "opm s" m] by (simp add: samples_start_def binaries_ok_def)

lemma prologue_022:
  assumes "samples_start b1 b2 s"
  obtains s' where "good_022 b1 b2 s'" "sent s' = sent s"
    "do { s \<leftarrow> vcopy 0x400000 (start_at b1) (image_size b1) s; vcopy 0x500000 (start_at b2) (image_size b2) s } = Some s'"
proof -
  obtain m1 m where m: "vcopy 0x400000 (start_at b1) (image_size b1) s = Some (s\<lparr>opm := m1\<rparr>)"
    "vcopy 0x500000 (start_at b2) (image_size b2) (s\<lparr>opm := m1\<rparr>) = Some (s\<lparr>opm := m\<rparr>)"
    "holds m (straight 0x400000) (bytes b1)" "holds m (straight 0x500000) (bytes b2)"
    by (rule images_placed [OF assms, of "0x400000" "0x500000"]) simp_all
  then show ?thesis using that [of "s\<lparr>opm := m\<rparr>"] assms by (simp add: good_022_def samples_start_def straight_def)
qed

lemma prologue_023:
  assumes g: "samples_start b1 b2 s"
  obtains s' where "good_023 b1 b2 s'" "sent s' = sent s" "copy_images b1 b2 s = Some s'"
proof -
  obtain m where m: "copy_images b1 b2 s = Some (s\<lparr>opm := m\<rparr>)" "dom m = dom (opm s)" "holds m 0x80500000 (bytes b1)"
    "holds m 0x80600000 (bytes b2)" by (rule copy_images_run [OF g]) (rule that)
  have "region 0x80400000 0x300000 \<subseteq> region (0x80000000 :: addr) 0x800000" by (rule region_subset) simp_all
  then show ?thesis using that [of "s\<lparr>opm := m\<rparr>"] m g by (auto simp: good_023_def samples_start_def)
qed

lemma prologue_024:
  assumes g: "samples_start b1 b2 s"
  obtains s' where "good_024 b1 b2 s'" "sent s' = sent s"
    "do { s \<leftarrow> base_tables s; copy_images b1 b2 (load_cr3 (0x310000 + 0x80000000) s) } = Some s'"
proof -
  have dom: "region 0x80000000 0x800000 \<subseteq> dom (opm s)" and ok: "binaries_ok b1 b2" using g by (simp_all add: samples_start_def)
  have "list_all (\<lambda>(q, j, e). aligned_to 12 (straight q) \<and> unat j < 512) base_ws" using base_ws_slots by (auto simp: list_all_iff)
  then obtain m where m: "base_tables s = Some (s\<lparr>opm := m\<rparr>)" "words_at (entry_words base_ws) m" "dom m = dom (opm s)"
    "\<And>x. unat x < 0x80310000 \<Longrightarrow> m x = opm s x"
    unfolding base_tables_vputs by (rule tables_built [OF _ base_ws_distinct base_ws_pages dom, where n = "0x5000"]) simp_all
  let ?s = "load_cr3 0x80310000 (s\<lparr>opm := m\<rparr>)"
  have start: "samples_start b1 b2 ?s" using start_kept [OF g m(3,4)] by (simp add: samples_start_def load_cr3_def)
  obtain m' where m': "copy_images b1 b2 ?s = Some (?s\<lparr>opm := m'\<rparr>)" "dom m' = dom (opm ?s)" "holds m' 0x80500000 (bytes b1)"
    "holds m' 0x80600000 (bytes b2)" "\<And>x. unat x < 0x80400000 \<Longrightarrow> m' x = opm ?s x" by (rule copy_images_run [OF start]) (rule that)
  have "words_at (entry_words base_ws) m'" by (rule base_words_kept [OF m(2)]) (use m'(5) in \<open>simp add: load_cr3_def\<close>)
  then have "good_024 b1 b2 (?s\<lparr>opm := m'\<rparr>)" using m'(2-4) m(3) dom ok by (simp add: good_024_def load_cr3_def)
  then show ?thesis using that [of "?s\<lparr>opm := m'\<rparr>"] m(1) m'(1) by (simp add: load_cr3_def)
qed

lemma prologue_041:
  assumes g: "samples_start b1 b2 s"
  obtains s' where "good_041 b1 b2 s'" "sent s' = sent s" "do { s \<leftarrow> app_tables s; copy_images b1 b2 s } = Some s'"
proof -
  have dom: "region 0x80000000 0x800000 \<subseteq> dom (opm s)" and ok: "binaries_ok b1 b2" using g by (simp_all add: samples_start_def)
  obtain m where m: "app_tables s = Some (s\<lparr>opm := m\<rparr>)" "words_at (entry_words app_ws) m" "dom m = dom (opm s)"
    "\<And>x. unat x < 0x80310000 \<Longrightarrow> m x = opm s x"
    unfolding app_tables_vputs by (rule tables_built [OF app_ws_slots(1) app_ws_distinct app_ws_pages dom, where n = "0x9000"]) simp_all
  let ?s = "s\<lparr>opm := m\<rparr>"
  have start: "samples_start b1 b2 ?s" by (rule start_kept [OF g m(3,4)])
  obtain m' where m': "copy_images b1 b2 ?s = Some (?s\<lparr>opm := m'\<rparr>)" "dom m' = dom (opm ?s)" "holds m' 0x80500000 (bytes b1)"
    "holds m' 0x80600000 (bytes b2)" "\<And>x. unat x < 0x80400000 \<Longrightarrow> m' x = opm ?s x"
    by (rule copy_images_run [OF start]) (rule that)
  have "words_at (entry_words app_ws) m'" by (rule app_words_kept [OF m(2)]) (use m'(5) in simp)
  then have "good_041 b1 b2 (?s\<lparr>opm := m'\<rparr>)" using m'(2-4) m(3) dom ok by (simp add: good_041_def)
  then show ?thesis using that [of "?s\<lparr>opm := m'\<rparr>"] m(1) m'(1) by simp
qed

section \<open>All samples\<close>

abbreviation said :: "string list \<Rightarrow> string" where
  "said ls \<equiv> concat (map (\<lambda>l. l @ [CHR 0x0A]) ls)"

text \<open>What \<^verbatim>\<open>exec\<close> has printed, and its exit status, when the friend said hello and then ran on.\<close>

lemma exec_hello:
  assumes "sent s = []" "sent s' = sent (puts ''hello!'' s) @ chars_sent (said ls) @ [(1, 0)]"
  shows "exec_loop (sent s') [] = Some (0, said (''hello!'' # ls))"
  using assms by (simp add: puts_eq exec_loop_output)

lemma runs_021:
  assumes g: "samples_start b1 b2 s" and n: "sent s = []"
  shows "\<exists>s'. sample_021 keep b1 s = Some s' \<and>
    exec_loop (sent s') [] = Some (0, said [''hello!'', ''i=1'', ''i=2'', ''bye!''])"
proof -
  have ok: "binary_ok b1" and dom: "region 0x80000000 0x800000 \<subseteq> dom (opm s)"
    and h: "holds (opm s) (straight (start_at b1)) (bytes b1)" using g by (simp_all add: samples_start_def binaries_ok_def)
  let ?s = "puts ''hello!'' s" and ?p = "app1 0x400000 b1"
  obtain m where m: "vcopy 0x400000 (start_at b1) (image_size b1) ?s = Some (?s\<lparr>opm := m\<rparr>)" "holds m 0x80400000 (bytes b1)"
    by (rule image_copied [OF ok, of ?s "0x400000"]) (use dom h in \<open>auto simp: puts_eq straight_def intro: that\<close>)
  have mem: "in_memory t ?p" if "opm t = m" for t
    using that m(2) ok straight_page [of "0x400000" t] in_memory_page [of t ?p "0x80400000"]
    by (simp add: app1_def binary_ok_def straight_def)
  have low: "0x400000 + second b1 < 0x40000000" using ok by (simp add: binary_ok_def word_less_nat_alt unat_word_ariths)
  have c1: "call_next keep [?p] \<lparr>nxt = 0x400000, ival = 0\<rparr> t = Some (\<lparr>nxt = 0x400000 + second b1, ival = 1\<rparr>, t)"
    if "opm t = m" for t by (subst call_next_first [OF _ mem [OF that]]) (simp_all add: app_defs remember_low)
  have c2: "call_next keep [?p] \<lparr>nxt = 0x400000 + second b1, ival = 1\<rparr> t = Some (\<lparr>nxt = 0, ival = 2\<rparr>, t)"
    if "opm t = m" for t using low second_entry_apart [OF ok]
    by (subst call_next_first [OF _ mem [OF that]]) (simp_all add: app_defs remember_low)
  obtain s' where "sample_021 keep b1 s = Some s'" "sent s' = sent ?s @ chars_sent (said [''i=1'', ''i=2'', ''bye!'']) @ [(1, 0)]"
    using m(1) by (simp add: sample_021_def app_round_def and_then_def c1 c2 show_i_def puts_eq return_value_def send_def chars_sent_def)
  then show ?thesis using exec_hello [OF n, of s' "[''i=1'', ''i=2'', ''bye!'']"] by simp
qed

text \<open>A program that has set up its way of switching (\<open>t\<close>) and then makes the four calls (\<open>r\<close>).\<close>

lemma runs_all:
  assumes "sent s = []" "sent t = sent (puts ''hello!'' s)"
    "\<exists>s'. r = Some s' \<and> good s' \<and> sent s' = sent t @ chars_sent (said ls) @ [(1, 0)]"
    "final = r"
  shows "\<exists>s'. final = Some s' \<and> exec_loop (sent s') [] = Some (0, said (''hello!'' # ls)) \<and> good s'"
proof -
  obtain s' where s': "r = Some s'" "good s'" "sent s' = sent t @ chars_sent (said ls) @ [(1, 0)]" using assms(3) by blast
  have "exec_loop (sent s') [] = Some (0, said (''hello!'' # ls))"
    by (rule exec_hello [OF assms(1)]) (simp only: s'(3) assms(2))
  then show ?thesis using s'(1,2) assms(4) by blast
qed

lemma straight_roots:
  assumes "v < 0x40000000"
  shows "good_024 b1 b2 s \<Longrightarrow> walk (opm s) 0x80310000 v = Some (straight v, True)"
    "good_041 b1 b2 s \<Longrightarrow> walk (opm s) 0x80310000 v = Some (straight v, True)"
    "good_041 b1 b2 s \<Longrightarrow> walk (opm s) 0x80314000 v = Some (straight v, True)"
proof -
  show "walk (opm s) 0x80310000 v = Some (straight v, True)" if "good_024 b1 b2 s"
    using leads_low_walk [OF base_words(1) assms] that by (simp add: good_024_def)
  show "walk (opm s) 0x80310000 v = Some (straight v, True)" if "good_041 b1 b2 s"
    using leads_low_walk [OF app_words(1) [of _ 0] assms] that by (simp add: good_041_def app_set_def straight_def)
  show "walk (opm s) 0x80314000 v = Some (straight v, True)" if "good_041 b1 b2 s"
    using leads_low_walk [OF app_words(1) [of _ 1] assms] that by (simp add: good_041_def app_set_def straight_def)
qed

lemmas hello_lines = runs_all [where ls = "[''i=1'', ''i=9'', ''i=2'', ''i=8'', ''bye!'']"]

lemma runs_022:
  assumes g: "samples_start b1 b2 s" and n: "sent s = []"
  shows "\<exists>s'. sample_022 keep b1 b2 s = Some s' \<and>
    exec_loop (sent s') [] = Some (0, said [''hello!'', ''i=1'', ''i=9'', ''i=2'', ''i=8'', ''bye!'']) \<and> good_022 b1 b2 s'"
proof -
  obtain t where t: "good_022 b1 b2 t" "sent t = sent (puts ''hello!'' s)"
    "do { s \<leftarrow> vcopy 0x400000 (start_at b1) (image_size b1) (puts ''hello!'' s); vcopy 0x500000 (start_at b2) (image_size b2) s } = Some t"
    by (rule prologue_022 [OF samples_start_puts [OF g]]) (rule that)
  show ?thesis by (rule hello_lines [OF n t(2) resident.runs [OF t(1), of keep]]) (use t(3) in \<open>auto simp: sample_022_def Let_def bind_eq_Some_conv\<close>)
qed

lemma runs_023:
  assumes g: "samples_start b1 b2 s" and n: "sent s = []"
  shows "\<exists>s'. sample_023 keep b1 b2 s = Some s' \<and>
    exec_loop (sent s') [] = Some (0, said [''hello!'', ''i=1'', ''i=9'', ''i=2'', ''i=8'', ''bye!'']) \<and> good_023 b1 b2 s'"
proof -
  obtain t where t: "good_023 b1 b2 t" "sent t = sent (puts ''hello!'' s)" "copy_images b1 b2 (puts ''hello!'' s) = Some t"
    by (rule prologue_023 [OF samples_start_puts [OF g]]) (rule that)
  show ?thesis by (rule hello_lines [OF n t(2) copying.runs [OF t(1), of keep]]) (use t(3) in \<open>auto simp: sample_023_def Let_def bind_eq_Some_conv\<close>)
qed

lemma runs_024:
  assumes g: "samples_start b1 b2 s" and n: "sent s = []"
  shows "\<exists>s'. sample_024 keep b1 b2 s = Some s' \<and>
    exec_loop (sent s') [] = Some (0, said [''hello!'', ''i=1'', ''i=9'', ''i=2'', ''i=8'', ''bye!'']) \<and> good_024 b1 b2 s'"
proof -
  obtain t where t: "good_024 b1 b2 t" "sent t = sent (puts ''hello!'' s)"
    "do { s \<leftarrow> base_tables (puts ''hello!'' s); copy_images b1 b2 (load_cr3 (0x310000 + 0x80000000) s) } = Some t"
    by (rule prologue_024 [OF samples_start_puts [OF g]]) (rule that)
  show ?thesis by (rule hello_lines [OF n t(2) remapping.runs [OF t(1), of keep]]) (use t(3) in \<open>auto simp: sample_024_def Let_def bind_eq_Some_conv\<close>)
qed

lemma runs_041:
  assumes g: "samples_start b1 b2 s" and n: "sent s = []"
  shows "\<exists>s'. sample_041 keep b1 b2 s = Some s' \<and>
    exec_loop (sent s') [] = Some (0, said [''hello!'', ''i=1'', ''i=9'', ''i=2'', ''i=8'', ''bye!'']) \<and> good_041 b1 b2 s'"
    "\<exists>s'. sample_042 keep b1 b2 s = Some s' \<and>
    exec_loop (sent s') [] = Some (0, said [''hello!'', ''i=1'', ''i=9'', ''i=2'', ''i=8'', ''bye!'']) \<and> good_041 b1 b2 s'"
proof -
  obtain t where t: "good_041 b1 b2 t" "sent t = sent (puts ''hello!'' s)"
    "do { s \<leftarrow> app_tables (puts ''hello!'' s); copy_images b1 b2 s } = Some t"
    by (rule prologue_041 [OF samples_start_puts [OF g]]) (rule that)
  show "\<exists>s'. sample_041 keep b1 b2 s = Some s' \<and>
    exec_loop (sent s') [] = Some (0, said [''hello!'', ''i=1'', ''i=9'', ''i=2'', ''i=8'', ''bye!'']) \<and> good_041 b1 b2 s'"
    by (rule hello_lines [OF n t(2) switching.runs [OF t(1), of keep]]) (use t(3) in \<open>auto simp: sample_041_def Let_def bind_eq_Some_conv\<close>)
  show "\<exists>s'. sample_042 keep b1 b2 s = Some s' \<and>
    exec_loop (sent s') [] = Some (0, said [''hello!'', ''i=1'', ''i=9'', ''i=2'', ''i=8'', ''bye!'']) \<and> good_041 b1 b2 s'"
    by (rule hello_lines [OF n t(2) mapping.runs [OF t(1), of keep]]) (use t(3) in \<open>auto simp: sample_042_def Let_def bind_eq_Some_conv\<close>)
qed

text \<open>
  C34: The five ways of switching between two applications that the old samples show are the same to the
  user: both images at their own places (022), both linked for one place and copied there and back for
  every call (023), one page whose table entry is changed (024), two sets of tables (041), and two sets
  with a second page that is mapped for a call only (042). Started with the images in its own memory
  and nothing said yet, each program ends and \<^verbatim>\<open>exec\<close> returns 0 after printing the same six lines, with
  whatever translations the processor kept from earlier accesses (\<open>keep\<close>); sample 021 with one
  application prints its four. The tables that 024, 041 and 042 have in CR3 map every address below 1GB
  to the same place as the boot tables, also at the end.\<close>

theorem samples_agree:
  assumes "samples_start b1 b2 s" "sent s = []"
  shows "(\<exists>s'. sample_021 keep b1 s = Some s' \<and> exec_loop (sent s') [] = Some (0, said [''hello!'', ''i=1'', ''i=2'', ''bye!''])) \<and>
    (\<forall>(main, roots) \<in> {(sample_022, {}), (sample_023, {}), (sample_024, {0x80310000}),
        (sample_041, {0x80310000, 0x80314000}), (sample_042, {0x80310000, 0x80314000})}.
      \<exists>s'. main keep b1 b2 s = Some s' \<and>
        exec_loop (sent s') [] = Some (0, said [''hello!'', ''i=1'', ''i=9'', ''i=2'', ''i=8'', ''bye!'']) \<and>
        (\<forall>r \<in> roots. \<forall>v < 0x40000000. walk (opm s') r v = Some (straight v, True)))"
proof (intro conjI)
  note runs = runs_022 [OF assms, of keep] runs_023 [OF assms, of keep] runs_024 [OF assms, of keep] runs_041 [OF assms, of keep]
  show "\<forall>(main, roots) \<in> {(sample_022, {}), (sample_023, {}), (sample_024, {0x80310000}),
      (sample_041, {0x80310000, 0x80314000}), (sample_042, {0x80310000, 0x80314000})}.
    \<exists>s'. main keep b1 b2 s = Some s' \<and>
      exec_loop (sent s') [] = Some (0, said [''hello!'', ''i=1'', ''i=9'', ''i=2'', ''i=8'', ''bye!'']) \<and>
      (\<forall>r \<in> roots. \<forall>v < 0x40000000. walk (opm s') r v = Some (straight v, True))"
    unfolding ball_simps prod.case using runs straight_roots by (intro conjI) fastforce+
qed (rule runs_021 [OF assms])

text \<open>Two images of two bytes at the start of a memory in which every other byte is 0.\<close>

definition sample_memory :: mem where
  "sample_memory x = Some (if x = 0x80000000 then 1 else if x = 0x80000001 then 2 else
     if x = 0x80000010 then 3 else if x = 0x80000011 then 4 else 0)"

lemma sample_memory_start:
  "samples_start \<lparr>bytes = [1, 2], second = 1, start_at = 0\<rparr> \<lparr>bytes = [3, 4], second = 1, start_at = 16\<rparr>
     \<lparr>opm = sample_memory, ocr3 = 0, otlb = Map.empty, print_flag = 0, sent = []\<rparr>"
proof -
  have d: "dom sample_memory = UNIV" by (auto simp: sample_memory_def)
  have all_less_two: "(\<forall>k < 2. P k) \<longleftrightarrow> P 0 \<and> P 1" for P :: "nat \<Rightarrow> bool" by (auto simp: less_2_cases_iff)
  have h: "holds sample_memory 0x80000000 [1, 2]" "holds sample_memory 0x80000010 [3, 4]"
    by (simp_all add: holds_def sample_memory_def all_less_two numeral_2_eq_2 [symmetric])
  have "\<exists>k < Suc (Suc 0). [1, 2 :: u8] ! k \<noteq> [3, 4] ! k" by (rule exI [of _ 0]) simp
  with d h show ?thesis by (simp add: samples_start_def binaries_ok_def binary_ok_def straight_def)
qed

theorem samples_agree_witness:
  "\<exists>s'. sample_042 (\<lambda>_. True) \<lparr>bytes = [1, 2], second = 1, start_at = 0\<rparr> \<lparr>bytes = [3, 4], second = 1, start_at = 16\<rparr>
      \<lparr>opm = sample_memory, ocr3 = 0, otlb = Map.empty, print_flag = 0, sent = []\<rparr> = Some s' \<and>
    exec_loop (sent s') [] = Some (0, said [''hello!'', ''i=1'', ''i=9'', ''i=2'', ''i=8'', ''bye!'']) \<and>
    (\<forall>r \<in> {0x80310000, 0x80314000}. \<forall>v < 0x40000000. walk (opm s') r v = Some (straight v, True))"
  using samples_agree [OF sample_memory_start, of "\<lambda>_. True"] by simp

end
